theory Spec2Isabelle
  imports Main "HOL-Library.Word"
begin

unbundle bit_operations_syntax

section \<open>Machine integers\<close>

text \<open>
  The C type \<open>unsigned int\<close> is modelled by \<open>nat\<close> with the 32-bit wrap-around
  written out; \<open>to_int\<close> is the conversion of an \<open>unsigned int\<close> argument to an
  \<open>int\<close> parameter (two's complement). Bytes, attribute words and colour numbers
  are machine words.
\<close>

definition u32 :: "nat \<Rightarrow> nat" where
  "u32 n = n mod 4294967296"

definition usub :: "nat \<Rightarrow> nat \<Rightarrow> nat" where
  "usub a b = u32 (u32 a + 4294967296 - u32 b)"

definition to_int :: "nat \<Rightarrow> int" where
  "to_int n = (if u32 n < 2147483648 then int (u32 n) else int (u32 n) - 4294967296)"

definition ptrdiff_u32 :: "nat \<Rightarrow> nat \<Rightarrow> nat" where
  "ptrdiff_u32 p q = nat ((int p - int q) mod 4294967296)"

definition ptrdiff_size :: "nat \<Rightarrow> nat \<Rightarrow> nat" where
  "ptrdiff_size p q = nat ((int p - int q) mod 18446744073709551616)"

section \<open>Data model\<close>

text \<open>
  Modelled from the spec: the cell record of the shared segment is declared in a
  header that is not part of the sources. The spec gives a cell a glyph, a foreground
  and a background colour (each a triple of channel intensities), a blink flag and an
  underline flag; \<open>pty_screen.c\<close> names the fields \<open>text\<close>, \<open>foreground\<close>,
  \<open>background\<close>, \<open>blink\<close>, \<open>underline\<close> and the channels \<open>red\<close>, \<open>green\<close>,
  \<open>blue\<close>. The field \<open>text\<close> is written \<open>ctext\<close> here.
\<close>

record ScreenSegmentColor =
  red :: "8 word"
  green :: "8 word"
  blue :: "8 word"

record ScreenSegmentCharacter =
  ctext :: "32 word"
  foreground :: ScreenSegmentColor
  background :: ScreenSegmentColor
  blink :: bool
  underline :: bool

text \<open>
  A cell of the curses window, as \<open>in_wch\<close> returns it: the attribute word, the
  first character of the cell and the colour pair number.
\<close>

record cchar_t =
  attr :: "32 word"
  chars0 :: "32 word"
  ext_color :: nat

text \<open>
  What the conversion of the locale says about a sequence of bytes: it is a complete
  character, the beginning of one, or neither.
\<close>

datatype mbresult = Complete "32 word" | Incomplete | Illegal

text \<open>
  The calls the module makes to its collaborators, in the order made; the creation of
  the message queue is recorded with its outcome.
\<close>

datatype event =
    Initscr | Endwin
  | MakeTerminalKey | CreateScreenSegment | DetachScreenSegment | DestroyScreenSegment
  | CreateMessageQueue bool | DestroyMessageQueue | StartMessageReceiver | SendMessage

text \<open>
  The whole state the module works on, in one record. First the curses side
  (\<open>stdscr\<close> and the library's globals), then the shared segment (header and cells,
  the cells addressed by their index from the start of the cell array), then the
  module's own static variables, then the resources of the session.

  \<open>SCREEN_SEGMENT_COLOR_LEVEL\<close> is a constant of a header outside the sources; it
  is carried as a parameter of the state and no operation changes it.

  \<open>coloron\<close> says whether \<open>start_color\<close> has been called for the screen, and
  \<open>COLORS\<close> and \<open>COLOR_PAIRS\<close> are the library's variables of these names.
  \<open>mbrtowc\<close> is the conversion of the locale, a parameter that no operation
  changes; \<open>addch_work\<close>, \<open>addch_y\<close> and \<open>addch_x\<close> are the bytes of a
  multibyte character that \<open>addch\<close> has been given so far and the position they were
  given at.

  \<open>indeterminate_foreground\<close> and \<open>indeterminate_background\<close> stand for what a
  local variable of type \<open>short\<close> holds that has been declared without an initial
  value and has not been assigned: the program does not determine it. They are
  parameters of the state and no operation changes them.

  \<open>fault\<close> records undefined behaviour: it is set when the code reads or writes a
  cell outside the cell array of the segment, or reads \<open>colorPairMap\<close> outside its
  64 entries. The access itself is dropped.
\<close>

record pty =
  LINES :: nat
  COLS :: nat
  TABSIZE :: nat
  wscroll :: bool
  cury :: nat
  curx :: nat
  regtop :: nat
  regbottom :: nat
  wattrs :: "32 word"
  wbkgd :: cchar_t
  wtext :: "nat \<Rightarrow> nat \<Rightarrow> cchar_t"
  pairs :: "nat \<Rightarrow> 16 word \<times> 16 word"
  coloron :: bool
  COLORS :: nat
  COLOR_PAIRS :: nat
  mbrtowc :: "8 word list \<Rightarrow> mbresult"
  addch_work :: "8 word list"
  addch_y :: nat
  addch_x :: nat
  screenHeight :: nat
  screenWidth :: nat
  cursorRow :: nat
  cursorColumn :: nat
  characters :: "nat \<Rightarrow> ScreenSegmentCharacter"
  SCREEN_SEGMENT_COLOR_LEVEL :: "8 word"
  indeterminate_foreground :: "16 word"
  indeterminate_background :: "16 word"
  hasColors :: bool
  currentForegroundColor :: "8 word"
  currentBackgroundColor :: "8 word"
  defaultForegroundColor :: "8 word"
  defaultBackgroundColor :: "8 word"
  colorPairMap :: "8 word list"
  scrollRegionTop :: nat
  scrollRegionBottom :: nat
  savedCursorRow :: nat
  savedCursorColumn :: nat
  haveTerminalMessageQueue :: bool
  haveTerminalInputHandler :: bool
  segmentHeader :: bool
  cursesActive :: bool
  segmentExists :: bool
  queueExists :: bool
  events :: "event list"
  fault :: bool

section \<open>The curses library\<close>

text \<open>
  The terminal driver is the curses library, which is not part of the repository.
  The calls the module makes are modelled from the library's documented behaviour
  on \<open>stdscr\<close>: the cursor stays inside the window, a call with a position outside
  the window fails and changes nothing, scrolling and character insertion and
  deletion never move the cursor, and vacated cells are filled with the window's
  background cell.
\<close>

definition A_COLOR :: "32 word" where "A_COLOR = 0xFF00"
definition A_STANDOUT :: "32 word" where "A_STANDOUT = 0x10000"
definition A_UNDERLINE :: "32 word" where "A_UNDERLINE = 0x20000"
definition A_REVERSE :: "32 word" where "A_REVERSE = 0x40000"
definition A_BLINK :: "32 word" where "A_BLINK = 0x80000"
definition A_DIM :: "32 word" where "A_DIM = 0x100000"
definition A_BOLD :: "32 word" where "A_BOLD = 0x200000"

definition COLOR_BLACK :: "8 word" where "COLOR_BLACK = 0"
definition COLOR_RED :: "8 word" where "COLOR_RED = 1"
definition COLOR_GREEN :: "8 word" where "COLOR_GREEN = 2"
definition COLOR_BLUE :: "8 word" where "COLOR_BLUE = 4"
definition COLOR_WHITE :: "8 word" where "COLOR_WHITE = 7"

definition COLOR_PAIR :: "nat \<Rightarrow> 32 word" where
  "COLOR_PAIR n = push_bit 8 (word_of_nat n) AND A_COLOR"

definition PAIR_NUMBER :: "32 word \<Rightarrow> nat" where
  "PAIR_NUMBER a = unat (drop_bit 8 (a AND A_COLOR))"

definition move :: "int \<Rightarrow> int \<Rightarrow> pty \<Rightarrow> pty" where
  "move y x s =
     (if 0 \<le> y \<and> y < int (LINES s) \<and> 0 \<le> x \<and> x < int (COLS s)
      then s\<lparr>cury := nat y, curx := nat x\<rparr> else s)"

definition getcury :: "pty \<Rightarrow> nat" where "getcury s = cury s"
definition getcurx :: "pty \<Rightarrow> nat" where "getcurx s = curx s"

definition in_wch :: "pty \<Rightarrow> cchar_t" where
  "in_wch s = wtext s (cury s) (curx s)"

text \<open>
  \<open>pair_content\<close> and \<open>init_pair\<close> fail, and then do nothing, when colours have not
  been started or the pair is not one of the screen's; \<open>init_pair\<close> also when the
  pair is pair 0 or a colour is not one of the screen's. \<open>pair_content\<close> gives the
  colours of the pair when it succeeds and \<open>None\<close> when it fails.
\<close>

definition pair_content :: "pty \<Rightarrow> nat \<Rightarrow> (16 word \<times> 16 word) option" where
  "pair_content s p = (if coloron s \<and> p < COLOR_PAIRS s then Some (pairs s p) else None)"

definition init_pair :: "nat \<Rightarrow> 16 word \<Rightarrow> 16 word \<Rightarrow> pty \<Rightarrow> pty" where
  "init_pair p f b s =
     (if coloron s \<and> 0 < p \<and> p < COLOR_PAIRS s \<and> unat f < COLORS s \<and> unat b < COLORS s
      then s\<lparr>pairs := (pairs s)(p := (f, b))\<rparr> else s)"

definition setscrreg :: "int \<Rightarrow> int \<Rightarrow> pty \<Rightarrow> pty" where
  "setscrreg t b s =
     (if 0 \<le> t \<and> t < int (LINES s) \<and> 0 \<le> b \<and> b < int (LINES s) \<and> t < b
      then s\<lparr>regtop := nat t, regbottom := nat b\<rparr> else s)"

definition scrl :: "int \<Rightarrow> pty \<Rightarrow> pty" where
  "scrl n s =
     (if \<not> wscroll s \<or> n = 0 then s
      else if 0 < n then
        s\<lparr>wtext := (\<lambda>y x.
             if regtop s \<le> y \<and> y \<le> regbottom s
             then (if y + nat n \<le> regbottom s then wtext s (y + nat n) x else wbkgd s)
             else wtext s y x)\<rparr>
      else
        s\<lparr>wtext := (\<lambda>y x.
             if regtop s \<le> y \<and> y \<le> regbottom s
             then (if regtop s + nat (- n) \<le> y then wtext s (y - nat (- n)) x else wbkgd s)
             else wtext s y x)\<rparr>)"

text \<open>
  The cell that is stored for a character: it has the attributes and the colour pair
  of the window. The background cell of a session is the blank without attributes
  that \<open>initscr\<close> sets, which adds nothing to them.
\<close>

definition render :: "pty \<Rightarrow> 32 word \<Rightarrow> cchar_t" where
  "render s ch = \<lparr>attr = wattrs s, chars0 = ch, ext_color = PAIR_NUMBER (wattrs s)\<rparr>"

definition insch :: "32 word \<Rightarrow> pty \<Rightarrow> pty" where
  "insch ch s =
     s\<lparr>wtext := (\<lambda>y x.
          if y = cury s \<and> curx s \<le> x
          then (if x = curx s then render s ch else wtext s y (x - 1))
          else wtext s y x)\<rparr>"

definition delch :: "pty \<Rightarrow> pty" where
  "delch s =
     s\<lparr>wtext := (\<lambda>y x.
          if y = cury s \<and> curx s \<le> x
          then (if Suc x < COLS s then wtext s y (Suc x) else wbkgd s)
          else wtext s y x)\<rparr>"

definition clrtoeol :: "pty \<Rightarrow> pty" where
  "clrtoeol s =
     s\<lparr>wtext := (\<lambda>y x. if y = cury s \<and> curx s \<le> x then wbkgd s else wtext s y x)\<rparr>"

definition clrtobot :: "pty \<Rightarrow> pty" where
  "clrtobot s =
     s\<lparr>wtext := (\<lambda>y x. if (y = cury s \<and> curx s \<le> x) \<or> cury s < y then wbkgd s else wtext s y x)\<rparr>"

text \<open>
  \<open>addch\<close>, which the module calls with a byte. The byte is taken for a character
  by itself when it is below \<open>0x80\<close>, as in a UTF-8 locale, and every character is
  taken to fill one column.

  A printable character is stored in the cell under the cursor and the cursor
  advances; from the last column it goes to the first column of the next line, and
  from the bottom line of the scrolling region the region scrolls by one line instead
  (\<open>wrap_to_next_line\<close>). A byte from \<open>0x80\<close> is added to the bytes kept for a
  multibyte character, which are dropped first when the cursor has moved since; the
  character is stored once the locale's conversion finds it complete, and nothing is
  stored while it is incomplete. When the bytes are no character, what is stored
  instead is the printable form of the byte, or a blank when that form is the byte
  itself. While bytes are kept, every byte is treated in this way.

  Otherwise a tab stores blanks up to the next tab stop, or clears to the end of the
  line and goes to the next line when the stop is beyond the last column; a newline
  clears to the end of the line and goes to the first column of the next line,
  scrolling the region when the cursor is on its bottom line; a carriage return goes
  to the first column; a backspace goes one column to the left unless the cursor is in
  the first column; any other control character is stored in its printable form
  (\<open>unctrl\<close>).
\<close>

definition unctrl :: "8 word \<Rightarrow> 32 word list" where
  "unctrl c =
     (if c < 0x20 then [0x5E, ucast c + 0x40]
      else if c = 0x7F then [0x5E, 0x3F]
      else if c < 0x80 then [ucast c]
      else if c < 0xA0 then [0x7E, ucast c - 0x40]
      else if c = 0xFF then [0x7E, 0x3F]
      else [0x4D, 0x2D, ucast c - 0x80])"

definition wrap_to_next_line :: "pty \<Rightarrow> bool \<times> pty" where
  "wrap_to_next_line s =
     (if regbottom s < Suc (cury s)
      then (if wscroll s
            then (True, (scrl 1 (s\<lparr>cury := regbottom s\<rparr>))\<lparr>curx := 0\<rparr>)
            else (False, s\<lparr>cury := regbottom s, curx := COLS s - 1\<rparr>))
      else (True, s\<lparr>cury := Suc (cury s), curx := 0\<rparr>))"

definition waddch_store :: "cchar_t \<Rightarrow> pty \<Rightarrow> bool \<times> pty" where
  "waddch_store c s =
     (let s1 = s\<lparr>wtext := (\<lambda>y x. if y = cury s \<and> x = curx s then c else wtext s y x)\<rparr>
      in if Suc (curx s) < COLS s then (True, s1\<lparr>curx := Suc (curx s)\<rparr>)
         else wrap_to_next_line s1)"

fun waddch_string :: "32 word list \<Rightarrow> pty \<Rightarrow> bool \<times> pty" where
  "waddch_string [] s = (True, s)"
| "waddch_string (c # cs) s =
     (if fst (waddch_store (render s c) s)
      then waddch_string cs (snd (waddch_store (render s c) s))
      else (False, snd (waddch_store (render s c) s)))"

definition waddch_literal :: "8 word \<Rightarrow> pty \<Rightarrow> bool \<times> pty" where
  "waddch_literal ch s =
     (if addch_work s \<noteq> [] \<or> 0x80 \<le> ch
      then (let used = (if addch_x s \<noteq> curx s \<or> addch_y s \<noteq> cury s then []
                        else addch_work s);
                work = used @ [ch];
                s1 = s\<lparr>addch_x := curx s, addch_y := cury s\<rparr>
            in case mbrtowc s1 work of
                 Complete wc \<Rightarrow> waddch_store (render s1 wc) (s1\<lparr>addch_work := []\<rparr>)
               | Incomplete \<Rightarrow> (True, s1\<lparr>addch_work := work\<rparr>)
               | Illegal \<Rightarrow>
                   (let s2 = s1\<lparr>addch_work := []\<rparr>
                    in if 1 < length (unctrl ch) then waddch_string (unctrl ch) s2
                       else waddch_store (render s2 0x20) s2))
      else waddch_store (render s (ucast ch)) s)"

text \<open>
  Whether a newline on line \<open>y\<close> scrolls the region, and the line the cursor goes
  to.
\<close>

definition newline_forces_scroll :: "pty \<Rightarrow> nat \<Rightarrow> bool \<times> nat" where
  "newline_forces_scroll s y =
     (if regtop s \<le> y \<and> y \<le> regbottom s
      then (if y = regbottom s then (True, y)
            else if Suc y < LINES s then (False, Suc y) else (False, y))
      else if Suc y < LINES s then (False, Suc y) else (False, y))"

definition waddch_newline :: "pty \<Rightarrow> pty" where
  "waddch_newline s =
     (let s1 = clrtoeol s;
          scrolls = fst (newline_forces_scroll s1 (cury s1));
          y = snd (newline_forces_scroll s1 (cury s1))
      in if scrolls
         then (if wscroll s1 then (scrl 1 s1)\<lparr>curx := 0, cury := y\<rparr> else s1)
         else s1\<lparr>curx := 0, cury := y\<rparr>)"

text \<open>
  The loop \<open>while (win->_curx < x)\<close> of the tab, which stores blanks, with the
  number of blanks it can store at most; the result is the column the cursor is then
  given, and the state.
\<close>

fun tab_blanks :: "nat \<Rightarrow> nat \<Rightarrow> pty \<Rightarrow> nat \<times> pty" where
  "tab_blanks 0 x s = (x, s)"
| "tab_blanks (Suc n) x s =
     (if curx s < x
      then (if fst (waddch_store (render s 0x20) s)
            then tab_blanks n x (snd (waddch_store (render s 0x20) s))
            else (curx (snd (waddch_store (render s 0x20) s)),
                  snd (waddch_store (render s 0x20) s)))
      else (x, s))"

definition waddch_tab :: "pty \<Rightarrow> pty" where
  "waddch_tab s =
     (if TABSIZE s = 0 then s\<lparr>fault := True\<rparr>
      else (let x = curx s + (TABSIZE s - curx s mod TABSIZE s)
            in if (\<not> wscroll s \<and> cury s = regbottom s) \<or> x < COLS s
               then (let r = tab_blanks (x - curx s) x s
                     in (snd r)\<lparr>curx := fst r, cury := cury s\<rparr>)
               else (let s1 = clrtoeol s;
                         scrolls = fst (newline_forces_scroll s1 (cury s1));
                         y = snd (newline_forces_scroll s1 (cury s1))
                     in if scrolls
                        then (if wscroll s1 then (scrl 1 s1)\<lparr>curx := 0, cury := y\<rparr>
                              else s1\<lparr>curx := COLS s1 - 1, cury := y\<rparr>)
                        else s1\<lparr>curx := 0, cury := y\<rparr>)))"

definition addch :: "8 word \<Rightarrow> pty \<Rightarrow> pty" where
  "addch ch s =
     (if (0x20 \<le> ch \<and> ch < 0x7F) \<or> addch_work s \<noteq> [] \<or> 0x80 \<le> ch
      then snd (waddch_literal ch s)
      else if ch = 0x09 then waddch_tab s
      else if ch = 0x0A then waddch_newline s
      else if ch = 0x0D then s\<lparr>curx := 0\<rparr>
      else if ch = 0x08 then (if curx s = 0 then s else s\<lparr>curx := curx s - 1\<rparr>)
      else snd (waddch_string (unctrl ch) s))"

definition attrset :: "32 word \<Rightarrow> pty \<Rightarrow> pty" where
  "attrset a s = s\<lparr>wattrs := a\<rparr>"

definition attron :: "32 word \<Rightarrow> pty \<Rightarrow> pty" where
  "attron a s =
     s\<lparr>wattrs := (if 0 < PAIR_NUMBER a then wattrs s AND NOT A_COLOR else wattrs s) OR a\<rparr>"

definition attroff :: "32 word \<Rightarrow> pty \<Rightarrow> pty" where
  "attroff a s =
     s\<lparr>wattrs := (if 0 < PAIR_NUMBER a then wattrs s AND NOT A_COLOR else wattrs s) AND NOT a\<rparr>"


section \<open>The screen segment store\<close>

text \<open>
  Modelled from the spec: the functions of the segment store that \<open>pty_screen.c\<close>
  calls (\<open>getScreenRow\<close>, \<open>getScreenCharacter\<close>, \<open>getScreenEnd\<close>,
  \<open>moveScreenCharacters\<close>, \<open>propagateScreenCharacter\<close>) are defined in a file that
  is not part of the sources. The spec describes the segment as a dense row-major
  array of rows times columns cells, leaves bounds to the caller, and describes a fill
  that overwrites a contiguous range with a copy of a template cell and a move of
  \<open>count\<close> cells that is safe for overlapping ranges. An address is the index of a
  cell from the start of the array; the functions that return a cell's address also
  return the address one past the end of its row.
\<close>

definition segmentSize :: "pty \<Rightarrow> nat" where
  "segmentSize s = screenHeight s * screenWidth s"

definition getScreenRow :: "pty \<Rightarrow> nat \<Rightarrow> nat \<times> nat" where
  "getScreenRow s row = (row * screenWidth s, row * screenWidth s + screenWidth s)"

definition getScreenCharacter :: "pty \<Rightarrow> nat \<Rightarrow> nat \<Rightarrow> nat \<times> nat" where
  "getScreenCharacter s row column =
     (fst (getScreenRow s row) + column, snd (getScreenRow s row))"

definition getScreenEnd :: "pty \<Rightarrow> nat" where
  "getScreenEnd s = screenWidth s * screenHeight s"

definition moveScreenCharacters :: "nat \<Rightarrow> nat \<Rightarrow> nat \<Rightarrow> pty \<Rightarrow> pty" where
  "moveScreenCharacters to from count s =
     (if count = 0 then s
      else if from + count \<le> segmentSize s \<and> to + count \<le> segmentSize s
      then s\<lparr>characters := (\<lambda>i. if to \<le> i \<and> i < to + count
                                then characters s (from + (i - to)) else characters s i)\<rparr>
      else s\<lparr>fault := True\<rparr>)"

definition propagateScreenCharacter :: "nat \<Rightarrow> nat \<Rightarrow> pty \<Rightarrow> pty" where
  "propagateScreenCharacter from to s =
     (if to \<le> from then s
      else if to \<le> segmentSize s
      then s\<lparr>characters := (\<lambda>i. if from \<le> i \<and> i < to
                                then characters s from else characters s i)\<rparr>
      else s\<lparr>fault := True\<rparr>)"

text \<open>The assignment \<open>*location = character\<close>.\<close>

definition storeCharacter :: "nat \<Rightarrow> ScreenSegmentCharacter \<Rightarrow> pty \<Rightarrow> pty" where
  "storeCharacter location character s =
     (if location < segmentSize s
      then s\<lparr>characters := (characters s)(location := character)\<rparr>
      else s\<lparr>fault := True\<rparr>)"

section \<open>Colours\<close>

definition toColorPair :: "pty \<Rightarrow> 8 word \<Rightarrow> 8 word \<Rightarrow> 8 word option" where
  "toColorPair s fg bg =
     (let i = unat (push_bit 3 (ucast bg :: 32 word) OR ucast fg)
      in if i < length (colorPairMap s) then Some (colorPairMap s ! i) else None)"

definition initializeColors :: "8 word \<Rightarrow> 8 word \<Rightarrow> pty \<Rightarrow> pty" where
  "initializeColors fg bg s =
     s\<lparr>currentForegroundColor := fg, defaultForegroundColor := fg,
       currentBackgroundColor := bg, defaultBackgroundColor := bg\<rparr>"

text \<open>
  The two locals that \<open>pair_content\<close> is given to write the colours of a pair to,
  after the call. They are declared without an initial value and the result of the
  call is not looked at, so when it fails they hold what is not determined.
\<close>

definition pairColors :: "pty \<Rightarrow> nat \<Rightarrow> 16 word \<times> 16 word" where
  "pairColors s p =
     (case pair_content s p of
        Some colors \<Rightarrow> colors
      | None \<Rightarrow> (indeterminate_foreground s, indeterminate_background s))"

definition initializePair :: "nat \<Rightarrow> nat \<Rightarrow> pty \<Rightarrow> pty" where
  "initializePair fg bg s =
     (case toColorPair s (word_of_nat fg) (word_of_nat bg) of
        None \<Rightarrow> s\<lparr>fault := True\<rparr>
      | Some pair \<Rightarrow>
          if pair = 0 then s
          else init_pair (unat pair) (word_of_nat fg) (word_of_nat bg) s)"

definition initializeColorPairs :: "pty \<Rightarrow> pty" where
  "initializeColorPairs s =
     (let s1 = s\<lparr>colorPairMap := map word_of_nat [0..<64]\<rparr>;
          fg = fst (pairColors s1 0);
          bg = snd (pairColors s1 0);
          s2 = initializeColors (ucast fg) (ucast bg) s1
      in case toColorPair s2 (ucast fg) (ucast bg) of
           None \<Rightarrow> s2\<lparr>fault := True\<rparr>
         | Some pair \<Rightarrow>
             (let s3 = s2\<lparr>colorPairMap := (colorPairMap s2)[unat pair := 0]\<rparr>;
                  s4 = s3\<lparr>colorPairMap := (colorPairMap s3)[0 := pair]\<rparr>
              in fold (\<lambda>fg. fold (initializePair fg) [0..<8]) [0..<8] s4))"

definition setColor :: "ScreenSegmentColor \<Rightarrow> 8 word \<Rightarrow> 8 word \<Rightarrow> ScreenSegmentColor" where
  "setColor ssc color level =
     (let ssc1 = (if color AND COLOR_RED \<noteq> 0 then ssc\<lparr>red := level\<rparr> else ssc);
          ssc2 = (if color AND COLOR_GREEN \<noteq> 0 then ssc1\<lparr>green := level\<rparr> else ssc1)
      in if color AND COLOR_BLUE \<noteq> 0 then ssc2\<lparr>blue := level\<rparr> else ssc2)"

section \<open>The message queue and the segment of a session\<close>

text \<open>
  Modelled from the spec: the message queue and the functions that create and destroy
  the segment are not part of the sources. Each call is recorded in \<open>events\<close>;
  whether a creation succeeds is decided outside the module and given by the
  environment. Destroying a segment that does not exist fails without any other effect.
\<close>

record env =
  initscr_ok :: bool
  term_lines :: nat
  term_cols :: nat
  term_colors :: bool
  term_COLORS :: nat
  term_COLOR_PAIRS :: nat
  term_pair0 :: "16 word \<times> 16 word"
  key_ok :: bool
  segment_ok :: bool
  queue_ok :: bool
  receiver_ok :: bool

definition sendTerminalMessage :: "pty \<Rightarrow> bool \<times> pty" where
  "sendTerminalMessage s =
     (if \<not> haveTerminalMessageQueue s then (False, s)
      else (queueExists s, s\<lparr>events := events s @ [SendMessage]\<rparr>))"

definition startTerminalMessageReceiver :: "env \<Rightarrow> pty \<Rightarrow> bool \<times> pty" where
  "startTerminalMessageReceiver e s =
     (if \<not> haveTerminalMessageQueue s then (False, s)
      else (receiver_ok e, s\<lparr>events := events s @ [StartMessageReceiver]\<rparr>))"

definition enableMessages :: "env \<Rightarrow> pty \<Rightarrow> pty" where
  "enableMessages e s =
     s\<lparr>haveTerminalMessageQueue := queue_ok e,
       queueExists := (queueExists s \<or> queue_ok e),
       events := events s @ [CreateMessageQueue (queue_ok e)]\<rparr>"

definition destroySegment :: "pty \<Rightarrow> bool \<times> pty" where
  "destroySegment s =
     (let s1 = (if haveTerminalMessageQueue s
                then s\<lparr>queueExists := False, haveTerminalMessageQueue := False,
                       events := events s @ [DestroyMessageQueue]\<rparr>
                else s)
      in (segmentExists s1,
          s1\<lparr>segmentExists := False, events := events s1 @ [DestroyScreenSegment]\<rparr>))"

definition createSegment :: "env \<Rightarrow> pty \<Rightarrow> bool \<times> pty" where
  "createSegment e s =
     (let s1 = s\<lparr>events := events s @ [MakeTerminalKey]\<rparr>
      in if key_ok e
         then (let s2 = s1\<lparr>events := events s1 @ [CreateScreenSegment]\<rparr>
               in if segment_ok e
                  then (True, enableMessages e
                           (s2\<lparr>segmentHeader := True, segmentExists := True,
                               screenHeight := LINES s2, screenWidth := COLS s2\<rparr>))
                  else (False, s2\<lparr>segmentHeader := False\<rparr>))
         else (False, s1))"

definition storeCursorPosition :: "pty \<Rightarrow> pty" where
  "storeCursorPosition s = s\<lparr>cursorRow := getcury s, cursorColumn := getcurx s\<rparr>"


section \<open>The terminal emulation engine\<close>

definition ptySetCursorPosition :: "nat \<Rightarrow> nat \<Rightarrow> pty \<Rightarrow> pty" where
  "ptySetCursorPosition row column s = storeCursorPosition (move (to_int row) (to_int column) s)"

definition ptySetCursorRow :: "nat \<Rightarrow> pty \<Rightarrow> pty" where
  "ptySetCursorRow row s = ptySetCursorPosition row (cursorColumn s) s"

definition ptySetCursorColumn :: "nat \<Rightarrow> pty \<Rightarrow> pty" where
  "ptySetCursorColumn column s = ptySetCursorPosition (cursorRow s) column s"

definition ptySaveCursorPosition :: "pty \<Rightarrow> pty" where
  "ptySaveCursorPosition s =
     s\<lparr>savedCursorRow := cursorRow s, savedCursorColumn := cursorColumn s\<rparr>"

definition ptyRestoreCursorPosition :: "pty \<Rightarrow> pty" where
  "ptyRestoreCursorPosition s = ptySetCursorPosition (savedCursorRow s) (savedCursorColumn s) s"

text \<open>
  The cell that \<open>setCharacter\<close> builds from the curses cell it has read (lines 162
  to 193 of the source): the local \<open>character\<close> starts with every field zero but the
  text, the intensity levels are chosen from the bold, standout and dim attributes, and
  the reverse attribute selects which field receives which colour.
\<close>

definition segmentCharacter :: "pty \<Rightarrow> cchar_t \<Rightarrow> ScreenSegmentCharacter" where
  "segmentCharacter s wch =
     (let zero = \<lparr>red = 0, green = 0, blue = 0\<rparr>;
          fgColor = fst (pairColors s (ext_color wch));
          bgColor = snd (pairColors s (ext_color wch));
          bgLevel0 = SCREEN_SEGMENT_COLOR_LEVEL s;
          fgLevel0 = bgLevel0;
          fgLevel1 = (if attr wch AND (A_BOLD OR A_STANDOUT) \<noteq> 0 then 0xFF else fgLevel0);
          fgLevel = (if attr wch AND A_DIM \<noteq> 0 then drop_bit 1 fgLevel1 else fgLevel1);
          bgLevel = (if attr wch AND A_DIM \<noteq> 0 then drop_bit 1 bgLevel0 else bgLevel0)
      in \<lparr>ctext = chars0 wch,
          foreground = (if attr wch AND A_REVERSE \<noteq> 0
                        then setColor zero (ucast bgColor) bgLevel
                        else setColor zero (ucast fgColor) fgLevel),
          background = (if attr wch AND A_REVERSE \<noteq> 0
                        then setColor zero (ucast fgColor) fgLevel
                        else setColor zero (ucast bgColor) bgLevel),
          blink = (attr wch AND A_BLINK \<noteq> 0),
          underline = (attr wch AND A_UNDERLINE \<noteq> 0)\<rparr>)"

definition setCharacter :: "nat \<Rightarrow> nat \<Rightarrow> pty \<Rightarrow> (nat \<times> nat) \<times> pty" where
  "setCharacter row column s =
     (let oldRow = cursorRow s;
          oldColumn = cursorColumn s;
          mv = (row \<noteq> oldRow \<or> column \<noteq> oldColumn);
          s1 = (if mv then ptySetCursorPosition row column s else s);
          wch = in_wch s1;
          s2 = (if mv then ptySetCursorPosition oldRow oldColumn s1 else s1);
          character = segmentCharacter s2 wch;
          location = getScreenCharacter s2 row column
      in (location, storeCharacter (fst location) character s2))"

definition setCurrentCharacter :: "pty \<Rightarrow> (nat \<times> nat) \<times> pty" where
  "setCurrentCharacter s = setCharacter (cursorRow s) (cursorColumn s) s"

definition getCurrentCharacter :: "pty \<Rightarrow> nat \<times> nat" where
  "getCurrentCharacter s = getScreenCharacter s (cursorRow s) (cursorColumn s)"

definition fillCharacters :: "nat \<Rightarrow> nat \<Rightarrow> nat \<Rightarrow> pty \<Rightarrow> pty" where
  "fillCharacters row column count s =
     (let from = fst (fst (setCharacter row column s));
          s1 = snd (setCharacter row column s)
      in propagateScreenCharacter from (from + count) s1)"

definition moveRows :: "nat \<Rightarrow> nat \<Rightarrow> nat \<Rightarrow> pty \<Rightarrow> pty" where
  "moveRows from to count s =
     (if count \<noteq> 0 \<and> from \<noteq> to
      then moveScreenCharacters (fst (getScreenRow s to)) (fst (getScreenRow s from))
             (u32 (count * COLS s)) s
      else s)"

definition fillRows :: "nat \<Rightarrow> nat \<Rightarrow> pty \<Rightarrow> pty" where
  "fillRows row count s = fillCharacters row 0 (u32 (count * COLS s)) s"

definition ptySetScrollRegion :: "nat \<Rightarrow> nat \<Rightarrow> pty \<Rightarrow> pty" where
  "ptySetScrollRegion rtop rbottom s =
     setscrreg (to_int rtop) (to_int rbottom)
       (s\<lparr>scrollRegionTop := rtop, scrollRegionBottom := rbottom\<rparr>)"

definition isWithinScrollRegion :: "pty \<Rightarrow> nat \<Rightarrow> bool" where
  "isWithinScrollRegion s row =
     (if row < scrollRegionTop s then False
      else if row > scrollRegionBottom s then False
      else True)"

definition ptyAmWithinScrollRegion :: "pty \<Rightarrow> bool" where
  "ptyAmWithinScrollRegion s = isWithinScrollRegion s (cursorRow s)"

definition ptyScrollBackward :: "nat \<Rightarrow> pty \<Rightarrow> pty" where
  "ptyScrollBackward count s =
     (let row = scrollRegionTop s;
          rend = u32 (scrollRegionBottom s + 1);
          rsize = usub rend row;
          count1 = (if count > rsize then rsize else count);
          s1 = scrl (to_int (usub 0 count1)) s;
          s2 = moveRows row (u32 (row + count1)) (usub rsize count1) s1
      in fillRows row count1 s2)"

definition ptyScrollForward :: "nat \<Rightarrow> pty \<Rightarrow> pty" where
  "ptyScrollForward count s =
     (let row = scrollRegionTop s;
          rend = u32 (scrollRegionBottom s + 1);
          rsize = usub rend row;
          count1 = (if count > rsize then rsize else count);
          s1 = scrl (to_int count1) s;
          s2 = moveRows (u32 (row + count1)) row (usub rsize count1) s1
      in fillRows (usub rend count1) count1 s2)"

definition ptyMoveCursorUp :: "nat \<Rightarrow> pty \<Rightarrow> pty" where
  "ptyMoveCursorUp amount s =
     (let row = cursorRow s;
          amount1 = (if amount > row then row else amount)
      in if amount1 > 0 then ptySetCursorRow (usub row amount1) s else s)"

definition ptyMoveCursorDown :: "nat \<Rightarrow> pty \<Rightarrow> pty" where
  "ptyMoveCursorDown amount s =
     (let oldRow = cursorRow s;
          newRow = min (u32 (oldRow + amount)) (usub (LINES s) 1)
      in if newRow \<noteq> oldRow then ptySetCursorRow newRow s else s)"

definition ptyMoveCursorLeft :: "nat \<Rightarrow> pty \<Rightarrow> pty" where
  "ptyMoveCursorLeft amount s =
     (let column = cursorColumn s;
          amount1 = (if amount > column then column else amount)
      in if amount1 > 0 then ptySetCursorColumn (usub column amount1) s else s)"

definition ptyMoveCursorRight :: "nat \<Rightarrow> pty \<Rightarrow> pty" where
  "ptyMoveCursorRight amount s =
     (let oldColumn = cursorColumn s;
          newColumn = min (u32 (oldColumn + amount)) (usub (COLS s) 1)
      in if newColumn \<noteq> oldColumn then ptySetCursorColumn newColumn s else s)"

definition ptyMoveUp1 :: "pty \<Rightarrow> pty" where
  "ptyMoveUp1 s =
     (if cursorRow s = scrollRegionTop s then ptyScrollBackward 1 s else ptyMoveCursorUp 1 s)"

definition ptyMoveDown1 :: "pty \<Rightarrow> pty" where
  "ptyMoveDown1 s =
     (if cursorRow s = scrollRegionBottom s then ptyScrollForward 1 s else ptyMoveCursorDown 1 s)"

text \<open>
  \<open>TABSIZE\<close> is a variable of the curses library; a division by zero is undefined
  behaviour and recorded in \<open>fault\<close>.
\<close>

definition ptyTabBackward :: "pty \<Rightarrow> pty" where
  "ptyTabBackward s =
     (if TABSIZE s = 0 then s\<lparr>fault := True\<rparr>
      else ptySetCursorColumn (u32 ((usub (cursorColumn s) 1 div TABSIZE s) * TABSIZE s)) s)"

definition ptyTabForward :: "pty \<Rightarrow> pty" where
  "ptyTabForward s =
     (if TABSIZE s = 0 then s\<lparr>fault := True\<rparr>
      else ptySetCursorColumn (u32 (u32 (cursorColumn s div TABSIZE s + 1) * TABSIZE s)) s)"

definition ptyInsertLines :: "nat \<Rightarrow> pty \<Rightarrow> pty" where
  "ptyInsertLines count s =
     (if ptyAmWithinScrollRegion s
      then (let row = cursorRow s;
                oldTop = scrollRegionTop s;
                oldBottom = scrollRegionBottom s;
                s1 = ptySetScrollRegion row (scrollRegionBottom s) s;
                s2 = ptyScrollBackward count s1
            in ptySetScrollRegion oldTop oldBottom s2)
      else s)"

definition ptyDeleteLines :: "nat \<Rightarrow> pty \<Rightarrow> pty" where
  "ptyDeleteLines count s =
     (if ptyAmWithinScrollRegion s
      then (let row = cursorRow s;
                oldTop = scrollRegionTop s;
                oldBottom = scrollRegionBottom s;
                s1 = ptySetScrollRegion row (scrollRegionBottom s) s;
                s2 = ptyScrollForward count s1
            in ptySetScrollRegion oldTop oldBottom s2)
      else s)"

text \<open>The loops \<open>while (counter-- > 0) insch(' ')\<close> and \<open>while (counter-- > 0) delch()\<close>.\<close>

fun insch_loop :: "nat \<Rightarrow> pty \<Rightarrow> pty" where
  "insch_loop 0 s = s"
| "insch_loop (Suc counter) s = insch_loop counter (insch 32 s)"

fun delch_loop :: "nat \<Rightarrow> pty \<Rightarrow> pty" where
  "delch_loop 0 s = s"
| "delch_loop (Suc counter) s = delch_loop counter (delch s)"

definition ptyInsertCharacters :: "nat \<Rightarrow> pty \<Rightarrow> pty" where
  "ptyInsertCharacters count s =
     (let from = fst (getCurrentCharacter s);
          rend = snd (getCurrentCharacter s);
          count1 = (if from + count > rend then ptrdiff_u32 rend from else count);
          to = from + count1;
          s1 = moveScreenCharacters to from (ptrdiff_size rend to) s;
          s2 = insch_loop count1 s1
      in fillCharacters (cursorRow s2) (cursorColumn s2) count1 s2)"

definition ptyDeleteCharacters :: "nat \<Rightarrow> pty \<Rightarrow> pty" where
  "ptyDeleteCharacters count s =
     (let to = fst (getCurrentCharacter s);
          rend = snd (getCurrentCharacter s);
          count1 = (if to + count > rend then ptrdiff_u32 rend to else count);
          from = to + count1;
          s1 = (if from < rend then moveScreenCharacters to from (ptrdiff_size rend from) s else s);
          s2 = delch_loop count1 s1
      in fillCharacters (cursorRow s2) (usub (COLS s2) count1) count1 s2)"

definition ptyAddCharacter :: "8 word \<Rightarrow> pty \<Rightarrow> pty" where
  "ptyAddCharacter character s =
     (let row = cursorRow s;
          column = cursorColumn s;
          s1 = storeCursorPosition (addch character s)
      in snd (setCharacter row column s1))"

definition ptySetAttributes :: "32 word \<Rightarrow> pty \<Rightarrow> pty" where
  "ptySetAttributes attributes s = attrset attributes s"

definition ptyAddAttributes :: "32 word \<Rightarrow> pty \<Rightarrow> pty" where
  "ptyAddAttributes attributes s = attron attributes s"

definition ptyRemoveAttributes :: "32 word \<Rightarrow> pty \<Rightarrow> pty" where
  "ptyRemoveAttributes attributes s = attroff attributes s"

definition setCharacterColors :: "pty \<Rightarrow> pty" where
  "setCharacterColors s =
     (let s1 = attroff A_COLOR s
      in case toColorPair s1 (currentForegroundColor s1) (currentBackgroundColor s1) of
           None \<Rightarrow> s1\<lparr>fault := True\<rparr>
         | Some pair \<Rightarrow> attron (COLOR_PAIR (unat pair)) s1)"

definition ptySetForegroundColor :: "int \<Rightarrow> pty \<Rightarrow> pty" where
  "ptySetForegroundColor color s =
     (let color1 = (if color = - 1 then uint (defaultForegroundColor s) else color)
      in setCharacterColors (s\<lparr>currentForegroundColor := word_of_int color1\<rparr>))"

definition ptySetBackgroundColor :: "int \<Rightarrow> pty \<Rightarrow> pty" where
  "ptySetBackgroundColor color s =
     (let color1 = (if color = - 1 then uint (defaultBackgroundColor s) else color)
      in setCharacterColors (s\<lparr>currentBackgroundColor := word_of_int color1\<rparr>))"

definition ptyClearToEndOfDisplay :: "pty \<Rightarrow> pty" where
  "ptyClearToEndOfDisplay s =
     (let s1 = clrtobot s;
          from = fst (fst (setCurrentCharacter s1));
          s2 = snd (setCurrentCharacter s1);
          to = getScreenEnd s2
      in propagateScreenCharacter from to s2)"

definition ptyClearToEndOfLine :: "pty \<Rightarrow> pty" where
  "ptyClearToEndOfLine s =
     (let s1 = clrtoeol s;
          from = fst (fst (setCurrentCharacter s1));
          to = snd (fst (setCurrentCharacter s1));
          s2 = snd (setCurrentCharacter s1)
      in propagateScreenCharacter from to s2)"

text \<open>
  The loop of \<open>ptyClearToBeginningOfLine\<close> has no bound of its own: it ends when the
  cursor column exceeds the column the call started at. Not returning is the value
  \<open>None\<close>.
\<close>

partial_function (option) clearLoop :: "nat \<Rightarrow> pty \<Rightarrow> pty option" where
  "clearLoop column s =
     (let s1 = ptyAddCharacter 32 s
      in if cursorColumn s1 > column then Some s1 else clearLoop column s1)"

definition ptyClearToBeginningOfLine :: "pty \<Rightarrow> pty option" where
  "ptyClearToBeginningOfLine s =
     (let column = cursorColumn s;
          s1 = (if column > 0 then ptySetCursorColumn 0 s else s)
      in case clearLoop column s1 of
           None \<Rightarrow> None
         | Some s2 \<Rightarrow> Some (ptySetCursorColumn column s2))"

section \<open>Beginning and ending a session\<close>

text \<open>
  \<open>initscr\<close> creates \<open>stdscr\<close> with the size of the terminal, the cursor at the
  origin, the scrolling region covering the window, no attributes, a blank
  background cell and colours not started. The calls of \<open>ptyBeginScreen\<close> that
  only set input modes (\<open>intrflush\<close>, \<open>keypad\<close>, \<open>raw\<close>, \<open>noecho\<close>, \<open>idlok\<close>,
  \<open>idcok\<close>) change nothing of the state modelled here.
\<close>

definition blank_cell :: cchar_t where
  "blank_cell = \<lparr>attr = 0, chars0 = 32, ext_color = 0\<rparr>"

definition initscr :: "env \<Rightarrow> pty \<Rightarrow> pty" where
  "initscr e s =
     (if initscr_ok e
      then s\<lparr>LINES := term_lines e, COLS := term_cols e, TABSIZE := 8, wscroll := False,
             cury := 0, curx := 0, regtop := 0, regbottom := term_lines e - 1,
             wattrs := 0, wbkgd := blank_cell, wtext := (\<lambda>y x. blank_cell),
             coloron := False, COLORS := 0, COLOR_PAIRS := 0, addch_work := [],
             cursesActive := True, events := events s @ [Initscr]\<rparr>
      else s\<lparr>events := events s @ [Initscr]\<rparr>)"

definition endwin :: "pty \<Rightarrow> pty" where
  "endwin s = s\<lparr>cursesActive := False, events := events s @ [Endwin]\<rparr>"

definition start_color :: "env \<Rightarrow> pty \<Rightarrow> pty" where
  "start_color e s =
     s\<lparr>coloron := True, COLORS := term_COLORS e, COLOR_PAIRS := term_COLOR_PAIRS e,
       pairs := (pairs s)(0 := term_pair0 e)\<rparr>"

definition ptyBeginScreen :: "env \<Rightarrow> pty \<Rightarrow> bool \<times> pty" where
  "ptyBeginScreen e s =
     (let s0 = initscr e (s\<lparr>haveTerminalMessageQueue := False, haveTerminalInputHandler := False\<rparr>)
      in if initscr_ok e
         then (let s1 = s0\<lparr>wscroll := True\<rparr>;
                   s2 = s1\<lparr>scrollRegionTop := 0, scrollRegionBottom := usub (LINES s1) 1\<rparr>;
                   s3 = s2\<lparr>savedCursorRow := 0, savedCursorColumn := 0\<rparr>;
                   s4 = initializeColors COLOR_WHITE COLOR_BLACK (s3\<lparr>hasColors := term_colors e\<rparr>);
                   s5 = (if hasColors s4 then initializeColorPairs (start_color e s4) else s4);
                   created = fst (createSegment e s5);
                   s6 = snd (createSegment e s5)
               in if created
                  then (let s7 = storeCursorPosition s6;
                            started = fst (startTerminalMessageReceiver e s7);
                            s8 = snd (startTerminalMessageReceiver e s7)
                        in (True, s8\<lparr>haveTerminalInputHandler := started\<rparr>))
                  else (False, endwin s6))
         else (False, s0))"

definition ptyEndScreen :: "pty \<Rightarrow> pty" where
  "ptyEndScreen s =
     (let s1 = endwin s;
          s2 = s1\<lparr>events := events s1 @ [DetachScreenSegment]\<rparr>
      in snd (destroySegment s2))"

definition ptyRefreshScreen :: "pty \<Rightarrow> pty" where
  "ptyRefreshScreen s = snd (sendTerminalMessage s)"

section \<open>Invariants and example states\<close>

text \<open>
  The geometry of a running session: the window is not empty, its cell count fits a
  C \<open>int\<close>, the segment has the window's size, the curses cursor is inside the
  window and the cursor fields of the segment header mirror it.
\<close>

definition screen_ok :: "pty \<Rightarrow> bool" where
  "screen_ok s \<longleftrightarrow>
     0 < LINES s \<and> 0 < COLS s \<and> LINES s * COLS s < 2147483648 \<and>
     screenHeight s = LINES s \<and> screenWidth s = COLS s \<and>
     cury s < LINES s \<and> curx s < COLS s \<and>
     cursorRow s = cury s \<and> cursorColumn s = curx s"

text \<open>
  The conversion of a UTF-8 locale, for the example sessions: a byte below \<open>0x80\<close>
  is a character, a lead byte announces one, two or three continuation bytes, and
  encodings longer than needed, of surrogates and beyond \<open>0x10FFFF\<close> are no
  characters.
\<close>

definition continuation :: "8 word \<Rightarrow> bool" where
  "continuation b \<longleftrightarrow> 0x80 \<le> b \<and> b < 0xC0"

definition second_byte :: "8 word \<Rightarrow> 8 word \<Rightarrow> bool" where
  "second_byte a b \<longleftrightarrow>
     continuation b \<and> (a = 0xE0 \<longrightarrow> 0xA0 \<le> b) \<and> (a = 0xED \<longrightarrow> b < 0xA0)
     \<and> (a = 0xF0 \<longrightarrow> 0x90 \<le> b) \<and> (a = 0xF4 \<longrightarrow> b < 0x90)"

definition payload :: "8 word \<Rightarrow> 32 word" where
  "payload b = ucast (b AND 0x3F)"

fun utf8 :: "8 word list \<Rightarrow> mbresult" where
  "utf8 [] = Incomplete"
| "utf8 [a] =
     (if a < 0x80 then Complete (ucast a)
      else if 0xC2 \<le> a \<and> a \<le> 0xF4 then Incomplete else Illegal)"
| "utf8 [a, b] =
     (if 0xC2 \<le> a \<and> a < 0xE0
      then (if continuation b then Complete (push_bit 6 (ucast (a AND 0x1F)) OR payload b)
            else Illegal)
      else if 0xE0 \<le> a \<and> a \<le> 0xF4 \<and> second_byte a b then Incomplete else Illegal)"
| "utf8 [a, b, c] =
     (if 0xE0 \<le> a \<and> a < 0xF0
      then (if second_byte a b \<and> continuation c
            then Complete (push_bit 12 (ucast (a AND 0x0F)) OR push_bit 6 (payload b) OR payload c)
            else Illegal)
      else if 0xF0 \<le> a \<and> a \<le> 0xF4 \<and> second_byte a b \<and> continuation c then Incomplete
      else Illegal)"
| "utf8 [a, b, c, d] =
     (if 0xF0 \<le> a \<and> a \<le> 0xF4 \<and> second_byte a b \<and> continuation c \<and> continuation d
      then Complete (push_bit 18 (ucast (a AND 0x07)) OR push_bit 12 (payload b)
                     OR push_bit 6 (payload c) OR payload d)
      else Illegal)"
| "utf8 (a # b # c # d # e # es) = Illegal"

text \<open>A blank 80 by 24 session with the cursor at the origin.\<close>

definition example :: pty where
  "example =
     \<lparr>LINES = 24, COLS = 80, TABSIZE = 8, wscroll = True, cury = 0, curx = 0,
      regtop = 0, regbottom = 23, wattrs = 0, wbkgd = blank_cell,
      wtext = (\<lambda>y x. blank_cell), pairs = (\<lambda>p. (7, 0)),
      coloron = True, COLORS = 8, COLOR_PAIRS = 64, mbrtowc = utf8,
      addch_work = [], addch_y = 0, addch_x = 0,
      screenHeight = 24, screenWidth = 80, cursorRow = 0, cursorColumn = 0,
      characters = (\<lambda>i. \<lparr>ctext = 32, foreground = \<lparr>red = 0xAA, green = 0xAA, blue = 0xAA\<rparr>,
                            background = \<lparr>red = 0, green = 0, blue = 0\<rparr>,
                            blink = False, underline = False\<rparr>),
      SCREEN_SEGMENT_COLOR_LEVEL = 0xAA,
      indeterminate_foreground = 0, indeterminate_background = 0, hasColors = True,
      currentForegroundColor = 7, currentBackgroundColor = 0,
      defaultForegroundColor = 7, defaultBackgroundColor = 0,
      colorPairMap = map word_of_nat [0..<64],
      scrollRegionTop = 0, scrollRegionBottom = 23,
      savedCursorRow = 0, savedCursorColumn = 0,
      haveTerminalMessageQueue = True, haveTerminalInputHandler = True,
      segmentHeader = True, cursesActive = True, segmentExists = True, queueExists = True,
      events = [], fault = False\<rparr>"

text \<open>
  The same session with every curses cell showing a red-on-blue \<open>A\<close> in reverse
  video and bold.
\<close>

definition reverse_bold_example :: pty where
  "reverse_bold_example =
     example\<lparr>wtext := (\<lambda>y x. \<lparr>attr = A_REVERSE OR A_BOLD, chars0 = 65, ext_color = 1\<rparr>),
             pairs := (\<lambda>p. (1, 4))\<rparr>"

text \<open>
  \<open>screen_frame s s'\<close>: the state \<open>s'\<close> differs from \<open>s\<close> at most in the curses
  cells, the segment cells and the fault flag.
\<close>

definition screen_frame :: "pty \<Rightarrow> pty \<Rightarrow> bool" where
  "screen_frame s s' \<longleftrightarrow>
     s' = s\<lparr>wtext := wtext s', characters := characters s', fault := fault s'\<rparr>"

text \<open>
  The scrolling region of a running session: scrolling is enabled, the module's
  region is the one set in curses, and it lies inside the window.
\<close>

definition region_ok :: "pty \<Rightarrow> bool" where
  "region_ok s \<longleftrightarrow>
     wscroll s \<and> scrollRegionTop s = regtop s \<and> scrollRegionBottom s = regbottom s \<and>
     regtop s \<le> regbottom s \<and> regbottom s < LINES s"

text \<open>
  The state of the module before any session, and three environments: one in which
  \<open>initscr\<close> fails, one in which the segment cannot be created and one in which
  everything succeeds.
\<close>

definition idle :: pty where
  "idle = example\<lparr>haveTerminalMessageQueue := False, haveTerminalInputHandler := False,
                  segmentHeader := False, cursesActive := False, segmentExists := False,
                  queueExists := False\<rparr>"

definition env_fine :: env where
  "env_fine =
     \<lparr>initscr_ok = True, term_lines = 24, term_cols = 80, term_colors = True,
      term_COLORS = 8, term_COLOR_PAIRS = 64, term_pair0 = (7, 0), key_ok = True,
      segment_ok = True, queue_ok = True,
      receiver_ok = True\<rparr>"

definition env_no_terminal :: env where
  "env_no_terminal = env_fine\<lparr>initscr_ok := False\<rparr>"

definition env_no_segment :: env where
  "env_no_segment = env_fine\<lparr>segment_ok := False\<rparr>"

text \<open>
  How often the message queue has been destroyed and how often it has been created
  with success, by the record of calls.
\<close>

definition queue_destructions :: "pty \<Rightarrow> nat" where
  "queue_destructions s = length (filter (\<lambda>c. c = DestroyMessageQueue) (events s))"

definition queue_creations :: "pty \<Rightarrow> nat" where
  "queue_creations s = length (filter (\<lambda>c. c = CreateMessageQueue True) (events s))"

text \<open>The functions of the module that begin and end sessions, and runs of them.\<close>

datatype session_call = BeginScreen env | EndScreen | DestroySegment | RefreshScreen

fun session_step :: "session_call \<Rightarrow> pty \<Rightarrow> pty" where
  "session_step (BeginScreen e) s = snd (ptyBeginScreen e s)"
| "session_step EndScreen s = ptyEndScreen s"
| "session_step DestroySegment s = snd (destroySegment s)"
| "session_step RefreshScreen s = ptyRefreshScreen s"

fun session_run :: "session_call list \<Rightarrow> pty \<Rightarrow> pty" where
  "session_run [] s = s"
| "session_run (c # cs) s = session_run cs (session_step c s)"

text \<open>
  Each recorded queue that has not been destroyed, and each destruction, stands for a
  creation of its own.
\<close>

definition queue_balance :: "pty \<Rightarrow> bool" where
  "queue_balance s \<longleftrightarrow>
     queue_destructions s + (if haveTerminalMessageQueue s then 1 else 0) \<le> queue_creations s"

text \<open>\<open>curs_set\<close> changes nothing of the state modelled here.\<close>

definition ptySetCursorVisibility :: "nat \<Rightarrow> pty \<Rightarrow> pty" where
  "ptySetCursorVisibility visibility s = s"

text \<open>
  The operations of the engine as calls, and the state after a call; \<open>None\<close> when the
  call does not return.
\<close>

datatype engine_call =
    SetCursorPosition nat nat | SetCursorRow nat | SetCursorColumn nat
  | SaveCursorPosition | RestoreCursorPosition
  | SetScrollRegion nat nat | ScrollBackward nat | ScrollForward nat
  | MoveCursorUp nat | MoveCursorDown nat | MoveCursorLeft nat | MoveCursorRight nat
  | MoveUp1 | MoveDown1 | TabBackward | TabForward
  | InsertLines nat | DeleteLines nat | InsertCharacters nat | DeleteCharacters nat
  | AddCharacter "8 word" | SetCursorVisibility nat
  | SetAttributes "32 word" | AddAttributes "32 word" | RemoveAttributes "32 word"
  | SetForegroundColor int | SetBackgroundColor int
  | ClearToEndOfDisplay | ClearToEndOfLine | ClearToBeginningOfLine

fun engine_step :: "engine_call \<Rightarrow> pty \<Rightarrow> pty option" where
  "engine_step (SetCursorPosition row column) s = Some (ptySetCursorPosition row column s)"
| "engine_step (SetCursorRow row) s = Some (ptySetCursorRow row s)"
| "engine_step (SetCursorColumn column) s = Some (ptySetCursorColumn column s)"
| "engine_step SaveCursorPosition s = Some (ptySaveCursorPosition s)"
| "engine_step RestoreCursorPosition s = Some (ptyRestoreCursorPosition s)"
| "engine_step (SetScrollRegion rtop rbottom) s = Some (ptySetScrollRegion rtop rbottom s)"
| "engine_step (ScrollBackward count) s = Some (ptyScrollBackward count s)"
| "engine_step (ScrollForward count) s = Some (ptyScrollForward count s)"
| "engine_step (MoveCursorUp amount) s = Some (ptyMoveCursorUp amount s)"
| "engine_step (MoveCursorDown amount) s = Some (ptyMoveCursorDown amount s)"
| "engine_step (MoveCursorLeft amount) s = Some (ptyMoveCursorLeft amount s)"
| "engine_step (MoveCursorRight amount) s = Some (ptyMoveCursorRight amount s)"
| "engine_step MoveUp1 s = Some (ptyMoveUp1 s)"
| "engine_step MoveDown1 s = Some (ptyMoveDown1 s)"
| "engine_step TabBackward s = Some (ptyTabBackward s)"
| "engine_step TabForward s = Some (ptyTabForward s)"
| "engine_step (InsertLines count) s = Some (ptyInsertLines count s)"
| "engine_step (DeleteLines count) s = Some (ptyDeleteLines count s)"
| "engine_step (InsertCharacters count) s = Some (ptyInsertCharacters count s)"
| "engine_step (DeleteCharacters count) s = Some (ptyDeleteCharacters count s)"
| "engine_step (AddCharacter character) s = Some (ptyAddCharacter character s)"
| "engine_step (SetCursorVisibility visibility) s = Some (ptySetCursorVisibility visibility s)"
| "engine_step (SetAttributes attributes) s = Some (ptySetAttributes attributes s)"
| "engine_step (AddAttributes attributes) s = Some (ptyAddAttributes attributes s)"
| "engine_step (RemoveAttributes attributes) s = Some (ptyRemoveAttributes attributes s)"
| "engine_step (SetForegroundColor color) s = Some (ptySetForegroundColor color s)"
| "engine_step (SetBackgroundColor color) s = Some (ptySetBackgroundColor color s)"
| "engine_step ClearToEndOfDisplay s = Some (ptyClearToEndOfDisplay s)"
| "engine_step ClearToEndOfLine s = Some (ptyClearToEndOfLine s)"
| "engine_step ClearToBeginningOfLine s = ptyClearToBeginningOfLine s"

text \<open>
  The curses cursor and the bottom of the scrolling region are inside the window; and
  what \<open>addch\<close> keeps of a state: the size of the window and of the segment, the
  bottom of the scrolling region and whether the window scrolls, with the cursor
  inside the window afterwards.
\<close>

definition window_ok :: "pty \<Rightarrow> bool" where
  "window_ok s \<longleftrightarrow> cury s < LINES s \<and> curx s < COLS s \<and> regbottom s < LINES s"

definition window_kept :: "pty \<Rightarrow> pty \<Rightarrow> bool" where
  "window_kept s s' \<longleftrightarrow>
     LINES s' = LINES s \<and> COLS s' = COLS s \<and> regbottom s' = regbottom s \<and>
     wscroll s' = wscroll s \<and> screenHeight s' = screenHeight s \<and>
     screenWidth s' = screenWidth s \<and> cury s' < LINES s \<and> curx s' < COLS s"

text \<open>
  A running session: the geometry of \<open>screen_ok\<close>, and the bottom of the curses
  scrolling region inside the window.
\<close>

definition running :: "pty \<Rightarrow> bool" where
  "running s \<longleftrightarrow> screen_ok s \<and> regbottom s < LINES s"

text \<open>
  For statements about the content of the segment: the cell at a position of the
  grid, the count a scroll works with after it has been limited to the size of the
  scroll region, and the segment cell that mirrors the background cell of the window.
\<close>

definition segment_cell :: "pty \<Rightarrow> nat \<Rightarrow> nat \<Rightarrow> ScreenSegmentCharacter" where
  "segment_cell s row column = characters s (fst (getScreenCharacter s row column))"

definition scroll_count :: "pty \<Rightarrow> nat \<Rightarrow> nat" where
  "scroll_count s count = min count (scrollRegionBottom s + 1 - scrollRegionTop s)"

definition blank_character :: "pty \<Rightarrow> ScreenSegmentCharacter" where
  "blank_character s = segmentCharacter s (wbkgd s)"

text \<open>
  The example session with the character code \<open>80 * row + column\<close> on the screen at
  each position, and the segment mirroring the screen: the cell at address \<open>i\<close> of
  the segment holds the character code \<open>i\<close>, so that no two cells are equal.
\<close>

definition numbered_example :: pty where
  "numbered_example =
     example\<lparr>wtext := (\<lambda>y x. \<lparr>attr = 0, chars0 = word_of_nat (y * 80 + x), ext_color = 0\<rparr>),
             characters :=
       (\<lambda>i. \<lparr>ctext = word_of_nat i, foreground = \<lparr>red = 0xAA, green = 0xAA, blue = 0xAA\<rparr>,
              background = \<lparr>red = 0, green = 0, blue = 0\<rparr>,
              blink = False, underline = False\<rparr>)\<rparr>"

text \<open>The segment mirrors the screen: each cell is the conversion of the curses cell.\<close>

definition mirrored :: "pty \<Rightarrow> bool" where
  "mirrored s \<longleftrightarrow>
     (\<forall>row < LINES s. \<forall>column < COLS s.
        segment_cell s row column = segmentCharacter s (wtext s row column))"

text \<open>
  The numbered example with the cursor on the last row, which is the bottom row of
  the scroll region.
\<close>

definition bottom_row_example :: pty where
  "bottom_row_example = numbered_example\<lparr>cury := 23, cursorRow := 23\<rparr>"

text \<open>
  \<open>addch_frame s s'\<close>: the state \<open>s'\<close> differs from \<open>s\<close> at most in what \<open>addch\<close>
  works on: the curses cells, the curses cursor, the bytes kept for a multibyte
  character with their position, and the fault flag.
\<close>

definition addch_frame :: "pty \<Rightarrow> pty \<Rightarrow> bool" where
  "addch_frame s s' \<longleftrightarrow>
     s' = s\<lparr>wtext := wtext s', cury := cury s', curx := curx s',
            addch_work := addch_work s', addch_y := addch_y s', addch_x := addch_x s',
            fault := fault s'\<rparr>"

section \<open>Basic facts\<close>

lemma to_int_small [simp]: "n < 2147483648 \<Longrightarrow> to_int n = int n"
  by (simp add: to_int_def u32_def)

lemma bold_or_standout [simp]:
  "a AND A_BOLD \<noteq> 0 \<Longrightarrow> a AND (A_BOLD OR A_STANDOUT) \<noteq> 0"
  by (simp add: bit.conj_disj_distrib or_eq_0_iff)

lemma screen_ok_bounds:
  assumes "screen_ok s"
  shows "LINES s < 2147483648" and "COLS s < 2147483648"
proof -
  from assms have pos: "0 < LINES s" "0 < COLS s" and m: "LINES s * COLS s < 2147483648"
    by (simp_all add: screen_ok_def)
  have "LINES s \<le> LINES s * COLS s" using pos by simp
  then show "LINES s < 2147483648" using m by linarith
  have "COLS s \<le> LINES s * COLS s" using pos by simp
  then show "COLS s < 2147483648" using m by linarith
qed

lemma cell_index_less:
  assumes "row < h" and "column < w"
  shows "row * w + column < h * (w::nat)"
proof -
  have "row * w + column < row * w + w" using assms by simp
  also have "\<dots> = Suc row * w" by simp
  also have "\<dots> \<le> h * w" using assms by (intro mult_le_mono1) simp
  finally show ?thesis .
qed

lemma ptySetCursorPosition_inside:
  "row < LINES s \<Longrightarrow> column < COLS s \<Longrightarrow> LINES s < 2147483648 \<Longrightarrow> COLS s < 2147483648 \<Longrightarrow>
   ptySetCursorPosition row column s
     = s\<lparr>cury := row, curx := column, cursorRow := row, cursorColumn := column\<rparr>"
  by (simp add: ptySetCursorPosition_def move_def storeCursorPosition_def getcury_def getcurx_def)

lemma ptySetCursorPosition_back:
  assumes ok: "screen_ok s" and r: "row < LINES s" and c: "column < COLS s"
  shows "ptySetCursorPosition (cursorRow s) (cursorColumn s) (ptySetCursorPosition row column s) = s"
proof -
  have b: "LINES s < 2147483648" "COLS s < 2147483648"
    using ok by (rule screen_ok_bounds)+
  have g: "cury s < LINES s" "curx s < COLS s" "cursorRow s = cury s" "cursorColumn s = curx s"
    using ok by (simp_all add: screen_ok_def)
  have "ptySetCursorPosition row column s
          = s\<lparr>cury := row, curx := column, cursorRow := row, cursorColumn := column\<rparr>"
    using r c b by (rule ptySetCursorPosition_inside)
  moreover have "ptySetCursorPosition (cury s) (curx s)
                   (s\<lparr>cury := row, curx := column, cursorRow := row, cursorColumn := column\<rparr>)
                 = s\<lparr>cury := cury s, curx := curx s, cursorRow := cury s, cursorColumn := curx s\<rparr>"
    using g b by (simp add: ptySetCursorPosition_inside)
  moreover have "s\<lparr>cury := cury s, curx := curx s, cursorRow := cury s, cursorColumn := curx s\<rparr> = s"
    using g by (cases s) simp
  ultimately show ?thesis using g by simp
qed

text \<open>
  Inside the window \<open>setCharacter\<close> reads the curses cell at the given position,
  leaves the cursor where it was and stores the converted cell at the position's
  address.
\<close>

lemma setCharacter_read:
  assumes ok: "screen_ok s" and r: "row < LINES s" and c: "column < COLS s"
  shows "setCharacter row column s =
           ((row * COLS s + column, row * COLS s + COLS s),
            storeCharacter (row * COLS s + column) (segmentCharacter s (wtext s row column)) s)"
proof (cases "row \<noteq> cursorRow s \<or> column \<noteq> cursorColumn s")
  case True
  have b: "LINES s < 2147483648" "COLS s < 2147483648"
    using ok by (rule screen_ok_bounds)+
  have w: "screenWidth s = COLS s" using ok by (simp add: screen_ok_def)
  have rd: "in_wch (ptySetCursorPosition row column s) = wtext s row column"
    using r c b by (simp add: ptySetCursorPosition_inside in_wch_def)
  show ?thesis
    using True w
    by (simp add: setCharacter_def Let_def rd ptySetCursorPosition_back [OF ok r c]
        getScreenCharacter_def getScreenRow_def)
next
  case False
  have g: "screenWidth s = COLS s" "cursorRow s = cury s" "cursorColumn s = curx s"
    using ok by (simp_all add: screen_ok_def)
  show ?thesis
    using False g
    by (simp add: setCharacter_def Let_def in_wch_def getScreenCharacter_def getScreenRow_def)
qed

lemma setCharacter_inside:
  assumes ok: "screen_ok s" and r: "row < LINES s" and c: "column < COLS s"
  shows "snd (setCharacter row column s) =
           s\<lparr>characters := (characters s)(row * COLS s + column :=
                segmentCharacter s (wtext s row column))\<rparr>"
    and "fst (setCharacter row column s) = (row * COLS s + column, row * COLS s + COLS s)"
proof -
  have g: "screenHeight s = LINES s" "screenWidth s = COLS s"
    using ok by (simp_all add: screen_ok_def)
  have idx: "row * COLS s + column < LINES s * COLS s"
    using r c by (rule cell_index_less)
  show "snd (setCharacter row column s) =
           s\<lparr>characters := (characters s)(row * COLS s + column :=
                segmentCharacter s (wtext s row column))\<rparr>"
    using idx g by (simp add: setCharacter_read [OF ok r c] storeCharacter_def segmentSize_def)
  show "fst (setCharacter row column s) = (row * COLS s + column, row * COLS s + COLS s)"
    by (simp add: setCharacter_read [OF ok r c])
qed

lemma screen_ok_example: "screen_ok example"
  by (simp add: screen_ok_def example_def)

lemma screen_ok_reverse_bold_example: "screen_ok reverse_bold_example"
  by (simp add: screen_ok_def reverse_bold_example_def example_def)

section \<open>Reverse video and bold in the mirrored cell\<close>

text \<open>
  C1, as the code has it. When \<open>setCharacter\<close> mirrors a curses cell that has both
  the reverse and the bold attribute and whose colour pair \<open>pair_content\<close> gives the
  colours of (colours have been started and the pair is one of the screen's), the
  foreground field of the mirrored cell holds
  the background colour of the cell's colour pair at the base intensity, and the
  background field holds the pair's foreground colour at the brightest intensity
  (each halved when the cell is also dim): the intensity is chosen for the colour
  before the reverse attribute exchanges the fields the colours are written to.
\<close>

theorem setCharacter_reverse_bold:
  assumes ok: "screen_ok s" and r: "row < LINES s" and c: "column < COLS s"
    and pair: "pair_content s (ext_color (wtext s row column)) = Some (fgColor, bgColor)"
    and rev: "attr (wtext s row column) AND A_REVERSE \<noteq> 0"
    and bold: "attr (wtext s row column) AND A_BOLD \<noteq> 0"
  shows "foreground (characters (snd (setCharacter row column s)) (fst (fst (setCharacter row column s))))
           = setColor \<lparr>red = 0, green = 0, blue = 0\<rparr> (ucast bgColor)
               (if attr (wtext s row column) AND A_DIM \<noteq> 0
                then drop_bit 1 (SCREEN_SEGMENT_COLOR_LEVEL s) else SCREEN_SEGMENT_COLOR_LEVEL s)
       \<and> background (characters (snd (setCharacter row column s)) (fst (fst (setCharacter row column s))))
           = setColor \<lparr>red = 0, green = 0, blue = 0\<rparr> (ucast fgColor)
               (if attr (wtext s row column) AND A_DIM \<noteq> 0 then 0x7F else 0xFF)"
  using rev bold
  by (simp add: setCharacter_inside [OF ok r c] segmentCharacter_def Let_def pairColors_def pair)

theorem setCharacter_reverse_bold_witness:
  "screen_ok reverse_bold_example
   \<and> (0::nat) < LINES reverse_bold_example \<and> (0::nat) < COLS reverse_bold_example
   \<and> pair_content reverse_bold_example (ext_color (wtext reverse_bold_example 0 0)) = Some (1, 4)
   \<and> attr (wtext reverse_bold_example 0 0) AND A_REVERSE \<noteq> 0
   \<and> attr (wtext reverse_bold_example 0 0) AND A_BOLD \<noteq> 0
   \<and> foreground (characters (snd (setCharacter 0 0 reverse_bold_example)) 0)
       = \<lparr>red = 0, green = 0, blue = 0xAA\<rparr>
   \<and> background (characters (snd (setCharacter 0 0 reverse_bold_example)) 0)
       = \<lparr>red = 0xFF, green = 0, blue = 0\<rparr>"
proof -
  have r: "(0::nat) < LINES reverse_bold_example" and c: "(0::nat) < COLS reverse_bold_example"
    by (simp_all add: reverse_bold_example_def example_def)
  have rev: "attr (wtext reverse_bold_example 0 0) AND A_REVERSE \<noteq> 0"
    and bold: "attr (wtext reverse_bold_example 0 0) AND A_BOLD \<noteq> 0"
    by (simp_all add: reverse_bold_example_def example_def A_REVERSE_def A_BOLD_def)
  have loc: "fst (fst (setCharacter 0 0 reverse_bold_example)) = 0"
    by (simp add: setCharacter_inside [OF screen_ok_reverse_bold_example r c])
  have pair: "pair_content reverse_bold_example (ext_color (wtext reverse_bold_example 0 0))
                = Some (1, 4)"
    by (simp add: reverse_bold_example_def example_def pair_content_def)
  have vals: "SCREEN_SEGMENT_COLOR_LEVEL reverse_bold_example = 0xAA"
    "attr (wtext reverse_bold_example 0 0) AND A_DIM = 0"
    by (simp_all add: reverse_bold_example_def example_def
        A_REVERSE_def A_BOLD_def A_DIM_def)
  show ?thesis
    using setCharacter_reverse_bold [OF screen_ok_reverse_bold_example r c pair rev bold]
      screen_ok_reverse_bold_example r c pair rev bold
    by (simp add: loc vals setColor_def COLOR_RED_def COLOR_GREEN_def COLOR_BLUE_def)
qed

text \<open>
  C1, as the claim states it, fails on the example: the foreground field does not hold
  the pair's background colour (blue) at the brightest intensity together with the
  background field holding the pair's foreground colour (red) at the base intensity.
\<close>

theorem setCharacter_reverse_bold_counterexample:
  "\<not> (foreground (characters (snd (setCharacter 0 0 reverse_bold_example)) 0)
         = setColor \<lparr>red = 0, green = 0, blue = 0\<rparr> 4 0xFF
      \<and> background (characters (snd (setCharacter 0 0 reverse_bold_example)) 0)
         = setColor \<lparr>red = 0, green = 0, blue = 0\<rparr> 1
             (SCREEN_SEGMENT_COLOR_LEVEL reverse_bold_example))"
  by (simp add: setCharacter_def reverse_bold_example_def example_def Let_def in_wch_def
      getScreenCharacter_def getScreenRow_def storeCharacter_def segmentSize_def
      segmentCharacter_def pairColors_def pair_content_def setColor_def
      A_REVERSE_def A_BOLD_def A_STANDOUT_def A_DIM_def COLOR_RED_def COLOR_GREEN_def COLOR_BLUE_def)

section \<open>What an operation leaves unchanged\<close>

lemma screen_frameI:
  "s' = s\<lparr>wtext := a, characters := b, fault := c\<rparr> \<Longrightarrow> screen_frame s s'"
  by (simp add: screen_frame_def)

lemma screen_frameE:
  assumes "screen_frame s s'"
  obtains a b c where "s' = s\<lparr>wtext := a, characters := b, fault := c\<rparr>"
  using assms unfolding screen_frame_def by blast

lemma screen_frame_refl [simp]: "screen_frame s s"
  by (simp add: screen_frame_def)

lemma screen_frame_trans:
  assumes "screen_frame s s1" and "screen_frame s1 s2"
  shows "screen_frame s s2"
proof -
  from assms(1) obtain a b c where 1: "s1 = s\<lparr>wtext := a, characters := b, fault := c\<rparr>"
    by (rule screen_frameE)
  from assms(2) obtain a' b' c' where 2: "s2 = s1\<lparr>wtext := a', characters := b', fault := c'\<rparr>"
    by (rule screen_frameE)
  show ?thesis by (rule screen_frameI [where a = a' and b = b' and c = c']) (simp add: 1 2)
qed

lemma screen_frame_fields:
  assumes "screen_frame s s'"
  shows "LINES s' = LINES s" "COLS s' = COLS s" "TABSIZE s' = TABSIZE s" "wscroll s' = wscroll s"
    "cury s' = cury s" "curx s' = curx s" "regtop s' = regtop s" "regbottom s' = regbottom s"
    "wattrs s' = wattrs s" "wbkgd s' = wbkgd s" "pairs s' = pairs s"
    "screenHeight s' = screenHeight s" "screenWidth s' = screenWidth s"
    "cursorRow s' = cursorRow s" "cursorColumn s' = cursorColumn s"
    "SCREEN_SEGMENT_COLOR_LEVEL s' = SCREEN_SEGMENT_COLOR_LEVEL s"
    "scrollRegionTop s' = scrollRegionTop s" "scrollRegionBottom s' = scrollRegionBottom s"
    "savedCursorRow s' = savedCursorRow s" "savedCursorColumn s' = savedCursorColumn s"
    "events s' = events s" "haveTerminalMessageQueue s' = haveTerminalMessageQueue s"
    "coloron s' = coloron s" "COLOR_PAIRS s' = COLOR_PAIRS s"
    "indeterminate_foreground s' = indeterminate_foreground s"
    "indeterminate_background s' = indeterminate_background s"
proof -
  from assms obtain a b c where 1: "s' = s\<lparr>wtext := a, characters := b, fault := c\<rparr>"
    by (rule screen_frameE)
  show "LINES s' = LINES s" "COLS s' = COLS s" "TABSIZE s' = TABSIZE s" "wscroll s' = wscroll s"
    "cury s' = cury s" "curx s' = curx s" "regtop s' = regtop s" "regbottom s' = regbottom s"
    "wattrs s' = wattrs s" "wbkgd s' = wbkgd s" "pairs s' = pairs s"
    "screenHeight s' = screenHeight s" "screenWidth s' = screenWidth s"
    "cursorRow s' = cursorRow s" "cursorColumn s' = cursorColumn s"
    "SCREEN_SEGMENT_COLOR_LEVEL s' = SCREEN_SEGMENT_COLOR_LEVEL s"
    "scrollRegionTop s' = scrollRegionTop s" "scrollRegionBottom s' = scrollRegionBottom s"
    "savedCursorRow s' = savedCursorRow s" "savedCursorColumn s' = savedCursorColumn s"
    "events s' = events s" "haveTerminalMessageQueue s' = haveTerminalMessageQueue s"
    "coloron s' = coloron s" "COLOR_PAIRS s' = COLOR_PAIRS s"
    "indeterminate_foreground s' = indeterminate_foreground s"
    "indeterminate_background s' = indeterminate_background s"
    by (simp_all add: 1)
qed

lemma screen_ok_frame:
  "screen_frame s s' \<Longrightarrow> screen_ok s \<Longrightarrow> screen_ok s'"
  by (simp add: screen_ok_def screen_frame_fields)


lemma frame_storeCharacter: "screen_frame s (storeCharacter location character s)"
  by (simp add: storeCharacter_def screen_frame_def)

lemma frame_moveScreenCharacters: "screen_frame s (moveScreenCharacters to from count s)"
  by (simp add: moveScreenCharacters_def screen_frame_def)

lemma frame_propagateScreenCharacter: "screen_frame s (propagateScreenCharacter from to s)"
  by (simp add: propagateScreenCharacter_def screen_frame_def)

lemma frame_scrl: "screen_frame s (scrl n s)"
  by (simp add: scrl_def screen_frame_def)

lemma frame_insch: "screen_frame s (insch ch s)"
  by (simp add: insch_def screen_frame_def)

lemma frame_delch: "screen_frame s (delch s)"
  by (simp add: delch_def screen_frame_def)

lemma frame_insch_loop: "screen_frame s (insch_loop n s)"
proof (induction n arbitrary: s)
  case 0
  show ?case by simp
next
  case (Suc n)
  show ?case using frame_insch Suc.IH by (simp del: screen_frame_def) (rule screen_frame_trans)
qed

lemma frame_delch_loop: "screen_frame s (delch_loop n s)"
proof (induction n arbitrary: s)
  case 0
  show ?case by simp
next
  case (Suc n)
  show ?case using frame_delch Suc.IH by simp (rule screen_frame_trans)
qed

text \<open>Whatever the position, the cursor is back where it was after the cell has been read.\<close>

lemma ptySetCursorPosition_cases:
  "ptySetCursorPosition row column s = s\<lparr>cursorRow := cury s, cursorColumn := curx s\<rparr>
   \<or> (\<exists>y x. y < LINES s \<and> x < COLS s \<and>
        ptySetCursorPosition row column s = s\<lparr>cury := y, curx := x, cursorRow := y, cursorColumn := x\<rparr>)"
proof (cases "0 \<le> to_int row \<and> to_int row < int (LINES s) \<and> 0 \<le> to_int column \<and> to_int column < int (COLS s)")
  case True
  then have "nat (to_int row) < LINES s" and "nat (to_int column) < COLS s"
    by linarith+
  moreover from True have "ptySetCursorPosition row column s
        = s\<lparr>cury := nat (to_int row), curx := nat (to_int column),
            cursorRow := nat (to_int row), cursorColumn := nat (to_int column)\<rparr>"
    by (simp add: ptySetCursorPosition_def move_def storeCursorPosition_def getcury_def getcurx_def)
  ultimately show ?thesis by blast
next
  case False
  then have "move (to_int row) (to_int column) s = s"
    unfolding move_def by (rule if_not_P)
  then show ?thesis
    by (simp add: ptySetCursorPosition_def storeCursorPosition_def getcury_def getcurx_def)
qed

lemma ptySetCursorPosition_there_and_back:
  assumes ok: "screen_ok s"
  shows "ptySetCursorPosition (cursorRow s) (cursorColumn s) (ptySetCursorPosition row column s) = s"
proof -
  have b: "LINES s < 2147483648" "COLS s < 2147483648"
    using ok by (rule screen_ok_bounds)+
  have g: "cury s < LINES s" "curx s < COLS s" "cursorRow s = cury s" "cursorColumn s = curx s"
    using ok by (simp_all add: screen_ok_def)
  have same: "s\<lparr>cury := cury s, curx := curx s, cursorRow := cury s, cursorColumn := curx s\<rparr> = s"
    using g by (cases s) simp
  from ptySetCursorPosition_cases [of row column s] show ?thesis
  proof
    assume "ptySetCursorPosition row column s = s\<lparr>cursorRow := cury s, cursorColumn := curx s\<rparr>"
    moreover have "s\<lparr>cursorRow := cury s, cursorColumn := curx s\<rparr> = s"
      using g by (cases s) simp
    ultimately have "ptySetCursorPosition row column s = s" by simp
    then show ?thesis using g b same by (simp add: ptySetCursorPosition_inside)
  next
    assume "\<exists>y x. y < LINES s \<and> x < COLS s \<and>
        ptySetCursorPosition row column s = s\<lparr>cury := y, curx := x, cursorRow := y, cursorColumn := x\<rparr>"
    then obtain y x where
      "ptySetCursorPosition row column s = s\<lparr>cury := y, curx := x, cursorRow := y, cursorColumn := x\<rparr>"
      by blast
    then show ?thesis using g b same by (simp add: ptySetCursorPosition_inside)
  qed
qed

lemma frame_setCharacter:
  assumes ok: "screen_ok s"
  shows "screen_frame s (snd (setCharacter row column s))"
  by (simp add: setCharacter_def Let_def ptySetCursorPosition_there_and_back [OF ok]
      frame_storeCharacter)

lemma frame_fillCharacters:
  assumes ok: "screen_ok s"
  shows "screen_frame s (fillCharacters row column count s)"
  unfolding fillCharacters_def Let_def
  by (rule screen_frame_trans [OF frame_setCharacter [OF ok] frame_propagateScreenCharacter])

lemma frame_moveRows: "screen_frame s (moveRows from to count s)"
  by (simp add: moveRows_def frame_moveScreenCharacters)

lemma frame_fillRows: "screen_ok s \<Longrightarrow> screen_frame s (fillRows row count s)"
  by (simp add: fillRows_def frame_fillCharacters)

lemma frame_ptyScrollBackward:
  assumes ok: "screen_ok s"
  shows "screen_frame s (ptyScrollBackward count s)"
proof -
  define n where "n = (if count > usub (u32 (scrollRegionBottom s + 1)) (scrollRegionTop s)
                       then usub (u32 (scrollRegionBottom s + 1)) (scrollRegionTop s) else count)"
  define s1 where "s1 = scrl (to_int (usub 0 n)) s"
  define s2 where "s2 = moveRows (scrollRegionTop s) (u32 (scrollRegionTop s + n))
                          (usub (usub (u32 (scrollRegionBottom s + 1)) (scrollRegionTop s)) n) s1"
  have f1: "screen_frame s s1" unfolding s1_def by (rule frame_scrl)
  have f2: "screen_frame s1 s2" unfolding s2_def by (rule frame_moveRows)
  have f12: "screen_frame s s2" using f1 f2 by (rule screen_frame_trans)
  have "screen_ok s2" using f12 ok by (rule screen_ok_frame)
  then have f3: "screen_frame s2 (fillRows (scrollRegionTop s) n s2)" by (rule frame_fillRows)
  have "ptyScrollBackward count s = fillRows (scrollRegionTop s) n s2"
    by (simp add: ptyScrollBackward_def Let_def n_def s1_def s2_def)
  then show ?thesis using screen_frame_trans [OF f12 f3] by simp
qed

lemma frame_ptyScrollForward:
  assumes ok: "screen_ok s"
  shows "screen_frame s (ptyScrollForward count s)"
proof -
  define n where "n = (if count > usub (u32 (scrollRegionBottom s + 1)) (scrollRegionTop s)
                       then usub (u32 (scrollRegionBottom s + 1)) (scrollRegionTop s) else count)"
  define s1 where "s1 = scrl (to_int n) s"
  define s2 where "s2 = moveRows (u32 (scrollRegionTop s + n)) (scrollRegionTop s)
                          (usub (usub (u32 (scrollRegionBottom s + 1)) (scrollRegionTop s)) n) s1"
  have f1: "screen_frame s s1" unfolding s1_def by (rule frame_scrl)
  have f2: "screen_frame s1 s2" unfolding s2_def by (rule frame_moveRows)
  have f12: "screen_frame s s2" using f1 f2 by (rule screen_frame_trans)
  have "screen_ok s2" using f12 ok by (rule screen_ok_frame)
  then have f3: "screen_frame s2 (fillRows (usub (u32 (scrollRegionBottom s + 1)) n) n s2)"
    by (rule frame_fillRows)
  have "ptyScrollForward count s = fillRows (usub (u32 (scrollRegionBottom s + 1)) n) n s2"
    by (simp add: ptyScrollForward_def Let_def n_def s1_def s2_def)
  then show ?thesis using screen_frame_trans [OF f12 f3] by simp
qed

section \<open>Scrolling and the published cursor\<close>

text \<open>
  C10. In a running session, for every count, \<open>ptyScrollForward\<close> and
  \<open>ptyScrollBackward\<close> leave the cursor fields of the segment header as they were:
  \<open>setCharacter\<close> moves the cursor to read a cell and moves it back before it stores
  the cell.
\<close>

theorem scroll_keeps_cursor:
  assumes ok: "screen_ok s"
  shows "cursorRow (ptyScrollForward count s) = cursorRow s
       \<and> cursorColumn (ptyScrollForward count s) = cursorColumn s
       \<and> cursorRow (ptyScrollBackward count s) = cursorRow s
       \<and> cursorColumn (ptyScrollBackward count s) = cursorColumn s"
  using frame_ptyScrollForward [OF ok, of count] frame_ptyScrollBackward [OF ok, of count]
  by (simp add: screen_frame_fields)

theorem scroll_keeps_cursor_witness:
  "screen_ok example
   \<and> cursorRow (ptyScrollForward 3 example) = cursorRow example
   \<and> cursorColumn (ptyScrollForward 3 example) = cursorColumn example
   \<and> cursorRow (ptyScrollBackward 3 example) = cursorRow example
   \<and> cursorColumn (ptyScrollBackward 3 example) = cursorColumn example"
  using scroll_keeps_cursor [OF screen_ok_example, of 3] screen_ok_example
  by blast

section \<open>Single-step moves at the scroll-region boundary\<close>

lemma usub_in_range:
  assumes "b \<le> a" and "a < 4294967296"
  shows "usub a b = a - b"
proof -
  have e: "a + 4294967296 - b = (a - b) + 4294967296" using assms by simp
  have "usub a b = (a + 4294967296 - b) mod 4294967296"
    using assms by (simp add: usub_def u32_def)
  also have "\<dots> = ((a - b) + 4294967296) mod 4294967296" by (simp only: e)
  also have "\<dots> = (a - b) mod 4294967296" by (simp only: mod_add_self2)
  also have "\<dots> = a - b" using assms by simp
  finally show ?thesis .
qed

lemma u32_in_range [simp]: "n < 4294967296 \<Longrightarrow> u32 n = n"
  by (simp add: u32_def)

lemma cursor_only_update:
  "cursorColumn s = curx s \<Longrightarrow>
   s\<lparr>cury := y, curx := curx s, cursorRow := y, cursorColumn := curx s\<rparr>
     = s\<lparr>cury := y, cursorRow := y\<rparr>"
  by (rule pty.equality) simp_all

lemma ptyMoveCursorUp_1:
  assumes ok: "screen_ok s"
  shows "ptyMoveCursorUp (Suc 0) s = s\<lparr>cury := cursorRow s - 1, cursorRow := cursorRow s - 1\<rparr>"
proof -
  have b: "LINES s < 2147483648" "COLS s < 2147483648"
    using ok by (rule screen_ok_bounds)+
  have g: "cury s < LINES s" "curx s < COLS s" "cursorRow s = cury s" "cursorColumn s = curx s"
    using ok by (simp_all add: screen_ok_def)
  show ?thesis
  proof (cases "cury s = 0")
    case True
    have "s\<lparr>cury := 0, cursorRow := 0\<rparr> = s" using True g by (cases s) simp
    then show ?thesis using True g by (simp add: ptyMoveCursorUp_def Let_def)
  next
    case False
    then have u: "usub (cury s) 1 = cury s - 1"
      using g b by (intro usub_in_range) simp_all
    have "ptySetCursorPosition (cury s - 1) (curx s) s
            = s\<lparr>cury := cury s - 1, curx := curx s, cursorRow := cury s - 1, cursorColumn := curx s\<rparr>"
      using g b by (intro ptySetCursorPosition_inside) simp_all
    then show ?thesis
      using False g u
      by (simp add: ptyMoveCursorUp_def Let_def ptySetCursorRow_def cursor_only_update)
  qed
qed

lemma ptyMoveCursorDown_1:
  assumes ok: "screen_ok s"
  shows "ptyMoveCursorDown (Suc 0) s
           = s\<lparr>cury := min (cursorRow s + 1) (LINES s - 1),
               cursorRow := min (cursorRow s + 1) (LINES s - 1)\<rparr>"
proof -
  have b: "LINES s < 2147483648" "COLS s < 2147483648"
    using ok by (rule screen_ok_bounds)+
  have g: "cury s < LINES s" "curx s < COLS s" "cursorRow s = cury s" "cursorColumn s = curx s"
    using ok by (simp_all add: screen_ok_def)
  have u: "usub (LINES s) 1 = LINES s - 1"
    using g b by (intro usub_in_range) simp_all
  have v: "u32 (cury s + 1) = cury s + 1"
    using g b by (intro u32_in_range) simp
  define y where "y = min (Suc (cury s)) (LINES s - Suc 0)"
  have y: "y < LINES s" using g by (simp add: y_def)
  show ?thesis
  proof (cases "y = cury s")
    case True
    have "s\<lparr>cury := cury s, cursorRow := cury s\<rparr> = s" using g by (cases s) simp
    then show ?thesis
      using True g u v by (simp add: ptyMoveCursorDown_def Let_def y_def [symmetric])
  next
    case False
    have "ptySetCursorPosition y (curx s) s
            = s\<lparr>cury := y, curx := curx s, cursorRow := y, cursorColumn := curx s\<rparr>"
      using g b y by (intro ptySetCursorPosition_inside) simp_all
    then show ?thesis
      using False g u v
      by (simp add: ptyMoveCursorDown_def Let_def ptySetCursorRow_def cursor_only_update
          y_def [symmetric])
  qed
qed

text \<open>
  C3. In a running session \<open>ptyMoveUp1\<close> is \<open>ptyScrollBackward 1\<close> when the cursor
  row is the top of the scroll region, and the cursor fields are then unchanged;
  otherwise it only decrements the cursor row, stopping at row 0, and changes no cell.
  \<open>ptyMoveDown1\<close> is \<open>ptyScrollForward 1\<close> when the cursor row is the bottom of the
  scroll region, again with the cursor fields unchanged; otherwise it only increments
  the cursor row, stopping at the last row, and changes no cell.
\<close>

theorem move1_at_region_boundary:
  assumes ok: "screen_ok s"
  shows "(cursorRow s = scrollRegionTop s \<longrightarrow>
            ptyMoveUp1 s = ptyScrollBackward 1 s
            \<and> cursorRow (ptyMoveUp1 s) = cursorRow s
            \<and> cursorColumn (ptyMoveUp1 s) = cursorColumn s)
       \<and> (cursorRow s \<noteq> scrollRegionTop s \<longrightarrow>
            ptyMoveUp1 s = s\<lparr>cury := cursorRow s - 1, cursorRow := cursorRow s - 1\<rparr>)
       \<and> (cursorRow s = scrollRegionBottom s \<longrightarrow>
            ptyMoveDown1 s = ptyScrollForward 1 s
            \<and> cursorRow (ptyMoveDown1 s) = cursorRow s
            \<and> cursorColumn (ptyMoveDown1 s) = cursorColumn s)
       \<and> (cursorRow s \<noteq> scrollRegionBottom s \<longrightarrow>
            ptyMoveDown1 s = s\<lparr>cury := min (cursorRow s + 1) (LINES s - 1),
                                cursorRow := min (cursorRow s + 1) (LINES s - 1)\<rparr>)"
  using frame_ptyScrollForward [OF ok, of 1] frame_ptyScrollBackward [OF ok, of 1]
  by (simp add: ptyMoveUp1_def ptyMoveDown1_def ptyMoveCursorUp_1 [OF ok]
      ptyMoveCursorDown_1 [OF ok] screen_frame_fields)

theorem move1_at_region_boundary_witness:
  "screen_ok example \<and> cursorRow example = scrollRegionTop example
   \<and> cursorRow example \<noteq> scrollRegionBottom example
   \<and> ptyMoveUp1 example = ptyScrollBackward 1 example
   \<and> cursorRow (ptyMoveUp1 example) = 0
   \<and> cursorRow (ptyMoveDown1 example) = 1
   \<and> screen_ok (example\<lparr>cury := 23, cursorRow := 23\<rparr>)
   \<and> cursorRow (example\<lparr>cury := 23, cursorRow := 23\<rparr>)
        = scrollRegionBottom (example\<lparr>cury := 23, cursorRow := 23\<rparr>)
   \<and> cursorRow (example\<lparr>cury := 23, cursorRow := 23\<rparr>)
        \<noteq> scrollRegionTop (example\<lparr>cury := 23, cursorRow := 23\<rparr>)
   \<and> ptyMoveDown1 (example\<lparr>cury := 23, cursorRow := 23\<rparr>)
        = ptyScrollForward 1 (example\<lparr>cury := 23, cursorRow := 23\<rparr>)
   \<and> cursorRow (ptyMoveUp1 (example\<lparr>cury := 23, cursorRow := 23\<rparr>)) = 22"
proof -
  let ?bottom = "example\<lparr>cury := 23, cursorRow := 23\<rparr>"
  have ok2: "screen_ok ?bottom"
    by (simp add: screen_ok_def example_def)
  have e: "cursorRow example = scrollRegionTop example"
    "cursorRow example \<noteq> scrollRegionBottom example"
    "cursorRow ?bottom = scrollRegionBottom ?bottom"
    "cursorRow ?bottom \<noteq> scrollRegionTop ?bottom"
    by (simp_all add: example_def)
  have v: "cursorRow example = 0" "LINES example = 24" "cursorRow ?bottom = 23" "LINES ?bottom = 24"
    by (simp_all add: example_def)
  note top = move1_at_region_boundary [OF screen_ok_example]
  note bot = move1_at_region_boundary [OF ok2]
  have 1: "ptyMoveUp1 example = ptyScrollBackward 1 example"
    using top e(1) by (rule conjunct1 [THEN mp, THEN conjunct1])
  have "cursorRow (ptyMoveUp1 example) = cursorRow example"
    using top e(1) by (rule conjunct1 [THEN mp, THEN conjunct2, THEN conjunct1])
  then have 2: "cursorRow (ptyMoveUp1 example) = 0"
    using v(1) by (rule trans)
  have "ptyMoveDown1 example = example\<lparr>cury := min (cursorRow example + 1) (LINES example - 1),
                                cursorRow := min (cursorRow example + 1) (LINES example - 1)\<rparr>"
    using top e(2) by (rule conjunct2 [THEN conjunct2, THEN conjunct2, THEN mp])
  then have 3: "cursorRow (ptyMoveDown1 example) = 1"
    by (simp add: v)
  have 4: "ptyMoveDown1 ?bottom = ptyScrollForward 1 ?bottom"
    using bot e(3) by (rule conjunct2 [THEN conjunct2, THEN conjunct1, THEN mp, THEN conjunct1])
  have "ptyMoveUp1 ?bottom = ?bottom\<lparr>cury := cursorRow ?bottom - 1, cursorRow := cursorRow ?bottom - 1\<rparr>"
    using bot e(4) by (rule conjunct2 [THEN conjunct1, THEN mp])
  then have "cursorRow (ptyMoveUp1 ?bottom) = cursorRow ?bottom - 1"
    by (rule ssubst) simp
  then have 5: "cursorRow (ptyMoveUp1 ?bottom) = 22"
    by (simp only: v)
  show ?thesis
    by (intro conjI) (fact screen_ok_example ok2 e 1 2 3 4 5)+
qed

section \<open>Inserting and deleting lines\<close>

lemma ptySetScrollRegion_fields:
  "scrollRegionTop (ptySetScrollRegion t b s) = t"
  "scrollRegionBottom (ptySetScrollRegion t b s) = b"
  "LINES (ptySetScrollRegion t b s) = LINES s"
  "wscroll (ptySetScrollRegion t b s) = wscroll s"
  by (simp_all add: ptySetScrollRegion_def setscrreg_def)

lemma screen_ok_ptySetScrollRegion:
  "screen_ok s \<Longrightarrow> screen_ok (ptySetScrollRegion t b s)"
  by (simp add: screen_ok_def ptySetScrollRegion_def setscrreg_def)

lemma ptySetScrollRegion_curses:
  assumes "t < b" and "b < LINES s" and "LINES s < 2147483648"
  shows "regtop (ptySetScrollRegion t b s) = t" and "regbottom (ptySetScrollRegion t b s) = b"
  using assms by (simp_all add: ptySetScrollRegion_def setscrreg_def)

lemma ptySetScrollRegion_curses_single:
  assumes "b < LINES s" and "LINES s < 2147483648"
  shows "regtop (ptySetScrollRegion b b s) = regtop s"
    and "regbottom (ptySetScrollRegion b b s) = regbottom s"
  using assms by (simp_all add: ptySetScrollRegion_def setscrreg_def)

text \<open>
  The curses region after a narrowing to the cursor row, a scroll and the restoring
  call: where the narrowed or the restored region has a single row, curses refuses
  the call and keeps the region it had.
\<close>

lemma narrowed_scroll_restores_region:
  assumes ok: "screen_ok s" and reg: "region_ok s" and within: "ptyAmWithinScrollRegion s"
    and fr: "screen_frame (ptySetScrollRegion (cursorRow s) (scrollRegionBottom s) s) s2"
  shows "regtop (ptySetScrollRegion (scrollRegionTop s) (scrollRegionBottom s) s2) = regtop s"
    and "regbottom (ptySetScrollRegion (scrollRegionTop s) (scrollRegionBottom s) s2) = regbottom s"
    and "scrollRegionTop (ptySetScrollRegion (scrollRegionTop s) (scrollRegionBottom s) s2)
           = scrollRegionTop s"
    and "scrollRegionBottom (ptySetScrollRegion (scrollRegionTop s) (scrollRegionBottom s) s2)
           = scrollRegionBottom s"
proof -
  let ?s1 = "ptySetScrollRegion (cursorRow s) (scrollRegionBottom s) s"
  have b: "LINES s < 2147483648" using ok by (rule screen_ok_bounds)
  have r: "scrollRegionTop s = regtop s" "scrollRegionBottom s = regbottom s"
      "regtop s \<le> regbottom s" "regbottom s < LINES s"
    using reg by (simp_all add: region_ok_def)
  have w: "regtop s \<le> cursorRow s" "cursorRow s \<le> regbottom s"
    using within r by (simp_all add: ptyAmWithinScrollRegion_def isWithinScrollRegion_def
        split: if_splits)
  have l2: "LINES s2 = LINES s"
    using fr by (simp add: screen_frame_fields ptySetScrollRegion_fields)
  have r2: "regtop s2 = regtop ?s1" "regbottom s2 = regbottom ?s1"
    using fr by (simp_all add: screen_frame_fields)
  show "scrollRegionTop (ptySetScrollRegion (scrollRegionTop s) (scrollRegionBottom s) s2)
           = scrollRegionTop s"
    and "scrollRegionBottom (ptySetScrollRegion (scrollRegionTop s) (scrollRegionBottom s) s2)
           = scrollRegionBottom s"
    by (simp_all add: ptySetScrollRegion_fields)
  show "regtop (ptySetScrollRegion (scrollRegionTop s) (scrollRegionBottom s) s2) = regtop s"
    and "regbottom (ptySetScrollRegion (scrollRegionTop s) (scrollRegionBottom s) s2) = regbottom s"
  proof -
    consider (wide) "regtop s < regbottom s" | (single) "regtop s = regbottom s"
      using r by linarith
    then have "regtop (ptySetScrollRegion (regtop s) (regbottom s) s2) = regtop s
             \<and> regbottom (ptySetScrollRegion (regtop s) (regbottom s) s2) = regbottom s"
    proof cases
      case wide
      then show ?thesis using r b l2 by (simp add: ptySetScrollRegion_curses)
    next
      case single
      then have c: "cursorRow s = regbottom s" using w by simp
      have "regtop ?s1 = regtop s" "regbottom ?s1 = regbottom s"
        using r b by (simp_all add: c r ptySetScrollRegion_curses_single)
      then show ?thesis
        using single r b l2 r2 by (simp add: ptySetScrollRegion_curses_single)
    qed
    then show "regtop (ptySetScrollRegion (scrollRegionTop s) (scrollRegionBottom s) s2) = regtop s"
      and "regbottom (ptySetScrollRegion (scrollRegionTop s) (scrollRegionBottom s) s2) = regbottom s"
      by (simp_all add: r)
  qed
qed

text \<open>
  In a running session whose scroll region is the one set in curses:
  when the cursor row is outside the scroll region, \<open>ptyInsertLines\<close> and
  \<open>ptyDeleteLines\<close> return the state unchanged; when it is inside, they are the
  composition of \<open>ptySetScrollRegion\<close> to the rows from the cursor row to the region's
  bottom, \<open>ptyScrollBackward\<close> respectively \<open>ptyScrollForward\<close>, and
  \<open>ptySetScrollRegion\<close> to the bounds the region had; and the region bounds after
  the call, the module's and those of curses, are the bounds before it.
\<close>

theorem insert_delete_lines:
  assumes ok: "screen_ok s" and reg: "region_ok s"
  shows "(\<not> ptyAmWithinScrollRegion s \<longrightarrow>
            ptyInsertLines count s = s \<and> ptyDeleteLines count s = s)
       \<and> (ptyAmWithinScrollRegion s \<longrightarrow>
            ptyInsertLines count s
              = ptySetScrollRegion (scrollRegionTop s) (scrollRegionBottom s)
                  (ptyScrollBackward count
                     (ptySetScrollRegion (cursorRow s) (scrollRegionBottom s) s))
          \<and> ptyDeleteLines count s
              = ptySetScrollRegion (scrollRegionTop s) (scrollRegionBottom s)
                  (ptyScrollForward count
                     (ptySetScrollRegion (cursorRow s) (scrollRegionBottom s) s)))
       \<and> scrollRegionTop (ptyInsertLines count s) = scrollRegionTop s
       \<and> scrollRegionBottom (ptyInsertLines count s) = scrollRegionBottom s
       \<and> regtop (ptyInsertLines count s) = regtop s
       \<and> regbottom (ptyInsertLines count s) = regbottom s
       \<and> scrollRegionTop (ptyDeleteLines count s) = scrollRegionTop s
       \<and> scrollRegionBottom (ptyDeleteLines count s) = scrollRegionBottom s
       \<and> regtop (ptyDeleteLines count s) = regtop s
       \<and> regbottom (ptyDeleteLines count s) = regbottom s"
proof (cases "ptyAmWithinScrollRegion s")
  case False
  then show ?thesis by (simp add: ptyInsertLines_def ptyDeleteLines_def)
next
  case True
  let ?s1 = "ptySetScrollRegion (cursorRow s) (scrollRegionBottom s) s"
  have ok1: "screen_ok ?s1" using ok by (rule screen_ok_ptySetScrollRegion)
  have i: "ptyInsertLines count s
             = ptySetScrollRegion (scrollRegionTop s) (scrollRegionBottom s)
                 (ptyScrollBackward count ?s1)"
    and d: "ptyDeleteLines count s
             = ptySetScrollRegion (scrollRegionTop s) (scrollRegionBottom s)
                 (ptyScrollForward count ?s1)"
    using True by (simp_all add: ptyInsertLines_def ptyDeleteLines_def Let_def)
  note bwd = narrowed_scroll_restores_region [OF ok reg True frame_ptyScrollBackward [OF ok1]]
  note fwd = narrowed_scroll_restores_region [OF ok reg True frame_ptyScrollForward [OF ok1]]
  show ?thesis
    using True by (simp only: i d bwd fwd) simp
qed

theorem insert_delete_lines_witness:
  "screen_ok example \<and> region_ok example \<and> ptyAmWithinScrollRegion example
   \<and> scrollRegionTop (ptyInsertLines 2 example) = 0
   \<and> scrollRegionBottom (ptyInsertLines 2 example) = 23
   \<and> regtop (ptyDeleteLines 2 example) = 0
   \<and> regbottom (ptyDeleteLines 2 example) = 23
   \<and> screen_ok (example\<lparr>scrollRegionTop := 5, regtop := 5\<rparr>)
   \<and> region_ok (example\<lparr>scrollRegionTop := 5, regtop := 5\<rparr>)
   \<and> \<not> ptyAmWithinScrollRegion (example\<lparr>scrollRegionTop := 5, regtop := 5\<rparr>)
   \<and> ptyInsertLines 2 (example\<lparr>scrollRegionTop := 5, regtop := 5\<rparr>)
        = example\<lparr>scrollRegionTop := 5, regtop := 5\<rparr>"
proof -
  let ?out = "example\<lparr>scrollRegionTop := 5, regtop := 5\<rparr>"
  have r: "region_ok example"
    by (simp add: region_ok_def example_def)
  have w: "ptyAmWithinScrollRegion example"
    by (simp add: ptyAmWithinScrollRegion_def isWithinScrollRegion_def example_def)
  have ok2: "screen_ok ?out"
    by (simp add: screen_ok_def example_def)
  have r2: "region_ok ?out"
    by (simp add: region_ok_def example_def)
  have w2: "\<not> ptyAmWithinScrollRegion ?out"
    by (simp add: ptyAmWithinScrollRegion_def isWithinScrollRegion_def example_def)
  have v: "scrollRegionTop example = 0" "scrollRegionBottom example = 23"
    "regtop example = 0" "regbottom example = 23"
    by (simp_all add: example_def)
  note a = insert_delete_lines [OF screen_ok_example r, of 2]
  note b = insert_delete_lines [OF ok2 r2, of 2]
  have 1: "scrollRegionTop (ptyInsertLines 2 example) = 0"
    "scrollRegionBottom (ptyInsertLines 2 example) = 23"
    "regtop (ptyDeleteLines 2 example) = 0"
    "regbottom (ptyDeleteLines 2 example) = 23"
    using a by (simp_all only: v)
  have 2: "ptyInsertLines 2 ?out = ?out"
    using b w2 by (rule conjunct1 [THEN mp, THEN conjunct1])
  show ?thesis
    by (intro conjI) (fact screen_ok_example r w 1 ok2 r2 w2 2)+
qed

section \<open>Starting a session\<close>

text \<open>Initialising the colours touches neither the session's resources nor the call record.\<close>

lemma initializePair_session:
  "events (initializePair f b s) = events s"
  "haveTerminalMessageQueue (initializePair f b s) = haveTerminalMessageQueue s"
  "haveTerminalInputHandler (initializePair f b s) = haveTerminalInputHandler s"
  "segmentExists (initializePair f b s) = segmentExists s"
  "queueExists (initializePair f b s) = queueExists s"
  "cursesActive (initializePair f b s) = cursesActive s"
  by (simp_all add: initializePair_def init_pair_def split: option.split)

lemma fold_initializePair_session:
  "events (fold (initializePair f) bs s) = events s
   \<and> haveTerminalMessageQueue (fold (initializePair f) bs s) = haveTerminalMessageQueue s
   \<and> haveTerminalInputHandler (fold (initializePair f) bs s) = haveTerminalInputHandler s
   \<and> segmentExists (fold (initializePair f) bs s) = segmentExists s
   \<and> queueExists (fold (initializePair f) bs s) = queueExists s
   \<and> cursesActive (fold (initializePair f) bs s) = cursesActive s"
  by (induction bs arbitrary: s) (simp_all add: initializePair_session)

lemma fold_fold_initializePair_session:
  "events (fold (\<lambda>f. fold (initializePair f) bs) fs s) = events s
   \<and> haveTerminalMessageQueue (fold (\<lambda>f. fold (initializePair f) bs) fs s) = haveTerminalMessageQueue s
   \<and> haveTerminalInputHandler (fold (\<lambda>f. fold (initializePair f) bs) fs s) = haveTerminalInputHandler s
   \<and> segmentExists (fold (\<lambda>f. fold (initializePair f) bs) fs s) = segmentExists s
   \<and> queueExists (fold (\<lambda>f. fold (initializePair f) bs) fs s) = queueExists s
   \<and> cursesActive (fold (\<lambda>f. fold (initializePair f) bs) fs s) = cursesActive s"
  by (induction fs arbitrary: s) (simp_all add: fold_initializePair_session)

lemma initializeColorPairs_session:
  "events (initializeColorPairs s) = events s"
  "haveTerminalMessageQueue (initializeColorPairs s) = haveTerminalMessageQueue s"
  "haveTerminalInputHandler (initializeColorPairs s) = haveTerminalInputHandler s"
  "segmentExists (initializeColorPairs s) = segmentExists s"
  "queueExists (initializeColorPairs s) = queueExists s"
  "cursesActive (initializeColorPairs s) = cursesActive s"
  by (simp_all add: initializeColorPairs_def Let_def initializeColors_def
      fold_fold_initializePair_session split: option.split)

text \<open>The state in which \<open>ptyBeginScreen\<close> calls \<open>createSegment\<close>.\<close>

lemma ptyBeginScreen_failed_initscr:
  assumes "\<not> initscr_ok e"
  shows "ptyBeginScreen e s
           = (False, s\<lparr>haveTerminalMessageQueue := False, haveTerminalInputHandler := False,
                        events := events s @ [Initscr]\<rparr>)"
  using assms by (simp add: ptyBeginScreen_def initscr_def Let_def)

lemma createSegment_failed:
  assumes "\<not> (key_ok e \<and> segment_ok e)"
  shows "fst (createSegment e s) = False"
    and "events (snd (createSegment e s))
           = events s @ (if key_ok e then [MakeTerminalKey, CreateScreenSegment] else [MakeTerminalKey])"
    and "haveTerminalMessageQueue (snd (createSegment e s)) = haveTerminalMessageQueue s"
    and "haveTerminalInputHandler (snd (createSegment e s)) = haveTerminalInputHandler s"
    and "segmentExists (snd (createSegment e s)) = segmentExists s"
    and "queueExists (snd (createSegment e s)) = queueExists s"
    and "cursesActive (snd (createSegment e s)) = cursesActive s"
  using assms by (auto simp add: createSegment_def Let_def)

lemma ptyBeginScreen_failed_segment:
  assumes i: "initscr_ok e" and f: "\<not> (key_ok e \<and> segment_ok e)"
  shows "fst (ptyBeginScreen e s) = False"
    and "events (snd (ptyBeginScreen e s))
           = events s @ [Initscr, MakeTerminalKey]
               @ (if key_ok e then [CreateScreenSegment] else []) @ [Endwin]"
    and "\<not> haveTerminalMessageQueue (snd (ptyBeginScreen e s))"
    and "\<not> haveTerminalInputHandler (snd (ptyBeginScreen e s))"
    and "segmentExists (snd (ptyBeginScreen e s)) = segmentExists s"
    and "queueExists (snd (ptyBeginScreen e s)) = queueExists s"
    and "\<not> cursesActive (snd (ptyBeginScreen e s))"
  using i
  by (simp_all add: ptyBeginScreen_def Let_def createSegment_failed [OF f] endwin_def
      initializeColorPairs_session start_color_def initializeColors_def initscr_def)

text \<open>
  C8. When \<open>initscr\<close> fails, \<open>ptyBeginScreen\<close> returns failure, its only call is
  \<open>initscr\<close> (no key is made, no segment and no queue is created), and no segment or
  queue exists that did not exist before. When \<open>initscr\<close> succeeds and the segment is
  not created, because the key cannot be made or the creation fails,
  \<open>ptyBeginScreen\<close> returns failure, its last call is \<open>endwin\<close>, curses is no
  longer active, no message queue was created and none is recorded, no input handler
  is recorded, and no segment or queue exists that did not exist before.
\<close>

theorem ptyBeginScreen_failure:
  "(\<not> initscr_ok e \<longrightarrow>
       fst (ptyBeginScreen e s) = False
     \<and> events (snd (ptyBeginScreen e s)) = events s @ [Initscr]
     \<and> segmentExists (snd (ptyBeginScreen e s)) = segmentExists s
     \<and> queueExists (snd (ptyBeginScreen e s)) = queueExists s
     \<and> \<not> haveTerminalMessageQueue (snd (ptyBeginScreen e s))
     \<and> \<not> haveTerminalInputHandler (snd (ptyBeginScreen e s)))
   \<and> (initscr_ok e \<and> \<not> (key_ok e \<and> segment_ok e) \<longrightarrow>
       fst (ptyBeginScreen e s) = False
     \<and> events (snd (ptyBeginScreen e s))
         = events s @ [Initscr, MakeTerminalKey]
             @ (if key_ok e then [CreateScreenSegment] else []) @ [Endwin]
     \<and> \<not> cursesActive (snd (ptyBeginScreen e s))
     \<and> segmentExists (snd (ptyBeginScreen e s)) = segmentExists s
     \<and> queueExists (snd (ptyBeginScreen e s)) = queueExists s
     \<and> \<not> haveTerminalMessageQueue (snd (ptyBeginScreen e s))
     \<and> \<not> haveTerminalInputHandler (snd (ptyBeginScreen e s)))"
proof (intro conjI impI)
  assume a: "\<not> initscr_ok e"
  show "fst (ptyBeginScreen e s) = False"
    and "events (snd (ptyBeginScreen e s)) = events s @ [Initscr]"
    and "segmentExists (snd (ptyBeginScreen e s)) = segmentExists s"
    and "queueExists (snd (ptyBeginScreen e s)) = queueExists s"
    and "\<not> haveTerminalMessageQueue (snd (ptyBeginScreen e s))"
    and "\<not> haveTerminalInputHandler (snd (ptyBeginScreen e s))"
    by (simp_all add: ptyBeginScreen_failed_initscr [OF a])
next
  assume a: "initscr_ok e \<and> \<not> (key_ok e \<and> segment_ok e)"
  then have i: "initscr_ok e" and f: "\<not> (key_ok e \<and> segment_ok e)" by blast+
  show "fst (ptyBeginScreen e s) = False"
    and "events (snd (ptyBeginScreen e s))
         = events s @ [Initscr, MakeTerminalKey]
             @ (if key_ok e then [CreateScreenSegment] else []) @ [Endwin]"
    and "\<not> cursesActive (snd (ptyBeginScreen e s))"
    and "segmentExists (snd (ptyBeginScreen e s)) = segmentExists s"
    and "queueExists (snd (ptyBeginScreen e s)) = queueExists s"
    and "\<not> haveTerminalMessageQueue (snd (ptyBeginScreen e s))"
    and "\<not> haveTerminalInputHandler (snd (ptyBeginScreen e s))"
    by (rule ptyBeginScreen_failed_segment [OF i f])+
qed

theorem ptyBeginScreen_failure_witness:
  "\<not> initscr_ok env_no_terminal
   \<and> fst (ptyBeginScreen env_no_terminal idle) = False
   \<and> events (snd (ptyBeginScreen env_no_terminal idle)) = [Initscr]
   \<and> \<not> segmentExists (snd (ptyBeginScreen env_no_terminal idle))
   \<and> initscr_ok env_no_segment \<and> \<not> (key_ok env_no_segment \<and> segment_ok env_no_segment)
   \<and> fst (ptyBeginScreen env_no_segment idle) = False
   \<and> events (snd (ptyBeginScreen env_no_segment idle))
       = [Initscr, MakeTerminalKey, CreateScreenSegment, Endwin]
   \<and> \<not> cursesActive (snd (ptyBeginScreen env_no_segment idle))
   \<and> \<not> segmentExists (snd (ptyBeginScreen env_no_segment idle))
   \<and> \<not> queueExists (snd (ptyBeginScreen env_no_segment idle))
   \<and> \<not> haveTerminalMessageQueue (snd (ptyBeginScreen env_no_segment idle))"
proof -
  have h: "\<not> initscr_ok env_no_terminal" "initscr_ok env_no_segment"
    "\<not> (key_ok env_no_segment \<and> segment_ok env_no_segment)" "key_ok env_no_segment"
    by (simp_all add: env_no_terminal_def env_no_segment_def env_fine_def)
  have v: "events idle = []" "\<not> segmentExists idle" "\<not> queueExists idle"
    by (simp_all add: idle_def example_def)
  show ?thesis
    using ptyBeginScreen_failure [of env_no_terminal idle]
      ptyBeginScreen_failure [of env_no_segment idle] h v
    by simp
qed

section \<open>Tearing a session down\<close>

lemma destroySegment_twice:
  "snd (destroySegment (snd (destroySegment s)))
     = (snd (destroySegment s))\<lparr>events := events (snd (destroySegment s)) @ [DestroyScreenSegment]\<rparr>"
  by (simp add: destroySegment_def Let_def)

lemma destroySegment_no_queue:
  "\<not> haveTerminalMessageQueue s \<Longrightarrow>
   snd (destroySegment s) = s\<lparr>segmentExists := False, events := events s @ [DestroyScreenSegment]\<rparr>"
  by (simp add: destroySegment_def Let_def)

lemma destroySegment_queue:
  "haveTerminalMessageQueue s \<Longrightarrow>
   snd (destroySegment s)
     = s\<lparr>queueExists := False, haveTerminalMessageQueue := False, segmentExists := False,
         events := events s @ [DestroyMessageQueue, DestroyScreenSegment]\<rparr>"
  by (simp add: destroySegment_def Let_def)

lemma queue_balance_destroySegment:
  "queue_balance s \<Longrightarrow> queue_balance (snd (destroySegment s))"
  by (cases "haveTerminalMessageQueue s")
    (simp_all add: destroySegment_queue destroySegment_no_queue queue_balance_def
      queue_destructions_def queue_creations_def)

lemma queue_balance_events:
  assumes "queue_balance s"
    and "haveTerminalMessageQueue s' = haveTerminalMessageQueue s"
    and "events s' = events s @ es"
    and "DestroyMessageQueue \<notin> set es"
  shows "queue_balance s'"
proof -
  have "filter (\<lambda>c. c = DestroyMessageQueue) es = []"
    using assms(4) by (induction es) auto
  then show ?thesis
    using assms(1-3) by (simp add: queue_balance_def queue_destructions_def queue_creations_def)
qed

lemma queue_balance_ptyEndScreen:
  assumes "queue_balance s"
  shows "queue_balance (ptyEndScreen s)"
proof -
  let ?s2 = "(endwin s)\<lparr>events := events (endwin s) @ [DetachScreenSegment]\<rparr>"
  have "queue_balance ?s2"
    using assms by (rule queue_balance_events [where es = "[Endwin, DetachScreenSegment]"])
      (simp_all add: endwin_def)
  then have "queue_balance (snd (destroySegment ?s2))"
    by (rule queue_balance_destroySegment)
  then show ?thesis by (simp add: ptyEndScreen_def Let_def)
qed

lemma queue_balance_ptyRefreshScreen:
  assumes "queue_balance s"
  shows "queue_balance (ptyRefreshScreen s)"
  using assms
  by (rule queue_balance_events
      [where es = "if haveTerminalMessageQueue s then [SendMessage] else []"])
    (simp_all add: ptyRefreshScreen_def sendTerminalMessage_def)

text \<open>
  \<open>ptyBeginScreen\<close> forgets the recorded queue before anything else, and records one
  again only with a creation that succeeded.
\<close>

lemma queue_balance_ptyBeginScreen:
  assumes "queue_balance s"
  shows "queue_balance (snd (ptyBeginScreen e s))"
proof -
  have d: "queue_destructions s \<le> queue_creations s"
    using assms by (simp add: queue_balance_def split: if_splits)
  show ?thesis
  proof (cases "initscr_ok e")
    case False
    then show ?thesis
      using d by (simp add: ptyBeginScreen_failed_initscr queue_balance_def
          queue_destructions_def queue_creations_def)
  next
    case True
    show ?thesis
    proof (cases "key_ok e \<and> segment_ok e")
      case False
      have "events (snd (ptyBeginScreen e s))
              = events s @ [Initscr, MakeTerminalKey]
                  @ (if key_ok e then [CreateScreenSegment] else []) @ [Endwin]"
        and "\<not> haveTerminalMessageQueue (snd (ptyBeginScreen e s))"
        by (rule ptyBeginScreen_failed_segment [OF True False])+
      then show ?thesis
        using d by (simp add: queue_balance_def queue_destructions_def queue_creations_def)
    next
      case ok: True
      have "events (snd (ptyBeginScreen e s))
              = events s @ [Initscr, MakeTerminalKey, CreateScreenSegment, CreateMessageQueue (queue_ok e)]
                  @ (if queue_ok e then [StartMessageReceiver] else [])"
        and "haveTerminalMessageQueue (snd (ptyBeginScreen e s)) = queue_ok e"
        using True ok
        by (simp_all add: ptyBeginScreen_def Let_def createSegment_def enableMessages_def
            startTerminalMessageReceiver_def storeCursorPosition_def
            initializeColorPairs_session start_color_def initializeColors_def initscr_def)
      then show ?thesis
        using d by (simp add: queue_balance_def queue_destructions_def queue_creations_def)
    qed
  qed
qed

lemma queue_balance_session_step:
  "queue_balance s \<Longrightarrow> queue_balance (session_step c s)"
  by (cases c)
    (simp_all add: queue_balance_ptyBeginScreen queue_balance_ptyEndScreen
      queue_balance_destroySegment queue_balance_ptyRefreshScreen)

lemma queue_balance_session_run:
  "queue_balance s \<Longrightarrow> queue_balance (session_run cs s)"
  by (induction cs arbitrary: s) (simp_all add: queue_balance_session_step)

lemma queue_balance_idle: "queue_balance idle"
  by (simp add: queue_balance_def queue_destructions_def queue_creations_def idle_def example_def)

text \<open>
  C9, as the code has it. \<open>destroySegment\<close> returns the status of the destruction of
  the segment: success exactly when the segment existed, so a second
  \<open>destroySegment\<close> in a row reports failure. That second call changes nothing but
  the record of calls, to which it adds the destruction of the segment and no
  destruction of the queue; after any \<open>destroySegment\<close> no queue is recorded; a
  \<open>destroySegment\<close> without a recorded queue calls no destruction of the queue; and
  in every run of the module's session functions from the idle state the queue has
  been destroyed at most as often as it has been created.
\<close>

theorem destroySegment_idempotent:
  "fst (destroySegment s) = segmentExists s
   \<and> \<not> fst (destroySegment (snd (destroySegment s)))
   \<and> snd (destroySegment (snd (destroySegment s)))
     = (snd (destroySegment s))\<lparr>events := events (snd (destroySegment s)) @ [DestroyScreenSegment]\<rparr>
   \<and> queue_destructions (snd (destroySegment (snd (destroySegment s))))
       = queue_destructions (snd (destroySegment s))
   \<and> \<not> haveTerminalMessageQueue (snd (destroySegment s))
   \<and> (\<not> haveTerminalMessageQueue s \<longrightarrow>
        events (snd (destroySegment s)) = events s @ [DestroyScreenSegment]
      \<and> queue_destructions (snd (destroySegment s)) = queue_destructions s)
   \<and> queue_destructions (session_run cs idle) \<le> queue_creations (session_run cs idle)"
proof -
  have "queue_balance (session_run cs idle)"
    using queue_balance_idle by (rule queue_balance_session_run)
  then have "queue_destructions (session_run cs idle) \<le> queue_creations (session_run cs idle)"
    by (simp add: queue_balance_def split: if_splits)
  moreover have "\<not> haveTerminalMessageQueue (snd (destroySegment s))"
    by (simp add: destroySegment_def Let_def)
  moreover have "queue_destructions (snd (destroySegment (snd (destroySegment s))))
       = queue_destructions (snd (destroySegment s))"
    by (simp add: destroySegment_twice queue_destructions_def)
  moreover have "\<not> haveTerminalMessageQueue s \<longrightarrow>
        events (snd (destroySegment s)) = events s @ [DestroyScreenSegment]
      \<and> queue_destructions (snd (destroySegment s)) = queue_destructions s"
    by (simp add: destroySegment_no_queue queue_destructions_def)
  moreover have "fst (destroySegment s) = segmentExists s"
    "\<not> fst (destroySegment (snd (destroySegment s)))"
    by (simp_all add: destroySegment_def Let_def)
  ultimately show ?thesis
    using destroySegment_twice [of s] by blast
qed

theorem destroySegment_idempotent_witness:
  "\<not> haveTerminalMessageQueue idle
   \<and> fst (destroySegment example)
   \<and> \<not> fst (destroySegment (snd (destroySegment example)))
   \<and> events (snd (destroySegment idle)) = [DestroyScreenSegment]
   \<and> queue_destructions (snd (destroySegment idle)) = 0
   \<and> events (snd (destroySegment (snd (destroySegment example))))
       = [DestroyMessageQueue, DestroyScreenSegment, DestroyScreenSegment]
   \<and> queue_destructions (snd (destroySegment (snd (destroySegment example)))) = 1
   \<and> queue_destructions (session_run [BeginScreen env_fine, EndScreen, DestroySegment] idle)
       \<le> queue_creations (session_run [BeginScreen env_fine, EndScreen, DestroySegment] idle)"
proof -
  have h: "\<not> haveTerminalMessageQueue idle" "events idle = []"
    by (simp_all add: idle_def example_def)
  have q0: "queue_destructions idle = 0"
    by (simp add: queue_destructions_def h)
  have e1: "events (snd (destroySegment example)) = [DestroyMessageQueue, DestroyScreenSegment]"
    by (simp add: destroySegment_def Let_def example_def)
  have q1: "queue_destructions (snd (destroySegment example)) = 1"
    by (simp add: queue_destructions_def e1)
  note a = destroySegment_idempotent [of idle "[BeginScreen env_fine, EndScreen, DestroySegment]"]
  note b = destroySegment_idempotent [of example "[]"]
  have "events (snd (destroySegment (snd (destroySegment example))))
       = [DestroyMessageQueue, DestroyScreenSegment, DestroyScreenSegment]"
    using b [THEN conjunct2, THEN conjunct2, THEN conjunct1] by (simp add: e1)
  moreover have "queue_destructions (snd (destroySegment (snd (destroySegment example)))) = 1"
    using b [THEN conjunct2, THEN conjunct2, THEN conjunct2, THEN conjunct1] by (simp only: q1)
  moreover have "fst (destroySegment example)"
    using b [THEN conjunct1] by (simp add: example_def)
  moreover have "\<not> fst (destroySegment (snd (destroySegment example)))"
    using b [THEN conjunct2, THEN conjunct1] .
  moreover have "events (snd (destroySegment idle)) = [DestroyScreenSegment]"
    "queue_destructions (snd (destroySegment idle)) = 0"
    using a h q0 by simp_all
  moreover have "queue_destructions (session_run [BeginScreen env_fine, EndScreen, DestroySegment] idle)
       \<le> queue_creations (session_run [BeginScreen env_fine, EndScreen, DestroySegment] idle)"
    using a by blast
  ultimately show ?thesis using h by blast
qed

text \<open>
  C9, as the claim states it, fails on the example session: the first
  \<open>destroySegment\<close> succeeds and the second one in a row fails.
\<close>

theorem destroySegment_idempotent_counterexample:
  "fst (destroySegment example) \<and> \<not> fst (destroySegment (snd (destroySegment example)))"
  by (simp add: destroySegment_def Let_def example_def)

section \<open>The cursor stays inside the grid\<close>

lemma running_frame: "screen_frame s s' \<Longrightarrow> running s \<Longrightarrow> running s'"
  by (simp add: running_def screen_ok_frame screen_frame_fields)

lemma running_ptySetCursorPosition:
  assumes "running s"
  shows "running (ptySetCursorPosition row column s)"
proof -
  from ptySetCursorPosition_cases [of row column s] show ?thesis
  proof
    assume "ptySetCursorPosition row column s = s\<lparr>cursorRow := cury s, cursorColumn := curx s\<rparr>"
    then show ?thesis using assms by (simp add: running_def screen_ok_def)
  next
    assume "\<exists>y x. y < LINES s \<and> x < COLS s \<and>
        ptySetCursorPosition row column s = s\<lparr>cury := y, curx := x, cursorRow := y, cursorColumn := x\<rparr>"
    then obtain y x where "y < LINES s" "x < COLS s"
      "ptySetCursorPosition row column s = s\<lparr>cury := y, curx := x, cursorRow := y, cursorColumn := x\<rparr>"
      by blast
    then show ?thesis using assms by (simp add: running_def screen_ok_def)
  qed
qed

lemma running_ptySetScrollRegion:
  assumes "running s"
  shows "running (ptySetScrollRegion rtop rbottom s)"
proof -
  have "regbottom (ptySetScrollRegion rtop rbottom s) < LINES s"
    using assms by (auto simp add: running_def ptySetScrollRegion_def setscrreg_def)
  then show ?thesis
    using assms by (simp add: running_def screen_ok_ptySetScrollRegion ptySetScrollRegion_fields)
qed

lemma running_updates:
  "running (s\<lparr>fault := f\<rparr>) = running s"
  "running (s\<lparr>wattrs := a\<rparr>) = running s"
  "running (s\<lparr>wtext := w\<rparr>) = running s"
  "running (s\<lparr>currentForegroundColor := c\<rparr>) = running s"
  "running (s\<lparr>currentBackgroundColor := c\<rparr>) = running s"
  "running (s\<lparr>savedCursorRow := y, savedCursorColumn := x\<rparr>) = running s"
  by (simp_all add: running_def screen_ok_def)

text \<open>Whatever the byte, \<open>addch\<close> leaves the cursor inside the window.\<close>

lemma window_kept_ok: "window_kept s s' \<Longrightarrow> window_ok s \<Longrightarrow> window_ok s'"
  by (simp add: window_kept_def window_ok_def)

lemma window_kept_trans: "window_kept s s1 \<Longrightarrow> window_kept s1 s2 \<Longrightarrow> window_kept s s2"
  by (simp add: window_kept_def)

lemma window_kept_refl: "window_ok s \<Longrightarrow> window_kept s s"
  by (simp add: window_kept_def window_ok_def)

lemma window_kept_wrap_to_next_line:
  "window_ok s \<Longrightarrow> window_kept s (snd (wrap_to_next_line s))"
  by (auto simp add: window_kept_def window_ok_def wrap_to_next_line_def scrl_def)

lemma window_kept_waddch_store:
  assumes "window_ok s"
  shows "window_kept s (snd (waddch_store c s))"
proof (cases "Suc (curx s) < COLS s")
  case True
  then show ?thesis
    using assms by (simp add: waddch_store_def Let_def window_kept_def window_ok_def)
next
  case False
  let ?s1 = "s\<lparr>wtext := (\<lambda>y x. if y = cury s \<and> x = curx s then c else wtext s y x)\<rparr>"
  have ok1: "window_ok ?s1" using assms by (simp add: window_ok_def)
  have "window_kept ?s1 (snd (wrap_to_next_line ?s1))"
    using ok1 by (rule window_kept_wrap_to_next_line)
  then have "window_kept s (snd (wrap_to_next_line ?s1))"
    by (simp add: window_kept_def)
  then show ?thesis using False by (simp add: waddch_store_def Let_def)
qed

lemma window_kept_waddch_string:
  "window_ok s \<Longrightarrow> window_kept s (snd (waddch_string cs s))"
proof (induction cs arbitrary: s)
  case Nil
  then show ?case by (simp add: window_kept_refl)
next
  case (Cons c cs)
  let ?s1 = "snd (waddch_store (render s c) s)"
  have k1: "window_kept s ?s1" using Cons.prems by (rule window_kept_waddch_store)
  then have ok1: "window_ok ?s1" using Cons.prems by (rule window_kept_ok)
  show ?case
  proof (cases "fst (waddch_store (render s c) s)")
    case True
    have "window_kept ?s1 (snd (waddch_string cs ?s1))" using ok1 by (rule Cons.IH)
    with k1 have "window_kept s (snd (waddch_string cs ?s1))" by (rule window_kept_trans)
    then show ?thesis using True by simp
  next
    case False
    then show ?thesis using k1 by simp
  qed
qed

lemma window_kept_waddch_literal:
  assumes "window_ok s"
  shows "window_kept s (snd (waddch_literal ch s))"
proof (cases "addch_work s \<noteq> [] \<or> 0x80 \<le> ch")
  case False
  then show ?thesis
    using window_kept_waddch_store [OF assms] by (simp add: waddch_literal_def)
next
  case True
  let ?s2 = "s\<lparr>addch_x := curx s, addch_y := cury s, addch_work := []\<rparr>"
  have k2: "window_kept s (s\<lparr>addch_x := curx s, addch_y := cury s, addch_work := w\<rparr>)"
    "window_ok (s\<lparr>addch_x := curx s, addch_y := cury s, addch_work := w\<rparr>)" for w
    using assms by (simp_all add: window_kept_def window_ok_def)
  have a: "window_kept s (snd (waddch_store c ?s2))" for c
    using k2(1) window_kept_waddch_store [OF k2(2)] by (rule window_kept_trans)
  have b: "window_kept s (snd (waddch_string cs ?s2))" for cs
    using k2(1) window_kept_waddch_string [OF k2(2)] by (rule window_kept_trans)
  show ?thesis
    using True by (simp add: waddch_literal_def Let_def a b k2 split: mbresult.split)
qed

lemma window_kept_clrtoeol: "window_ok s \<Longrightarrow> window_kept s (clrtoeol s)"
  by (simp add: clrtoeol_def window_kept_def window_ok_def)

lemma window_kept_line_feed:
  assumes "window_ok s"
  shows "window_kept s
           (if fst (newline_forces_scroll s (cury s))
            then (if wscroll s
                  then (scrl 1 s)\<lparr>curx := 0, cury := snd (newline_forces_scroll s (cury s))\<rparr>
                  else s\<lparr>curx := COLS s - 1, cury := snd (newline_forces_scroll s (cury s))\<rparr>)
            else s\<lparr>curx := 0, cury := snd (newline_forces_scroll s (cury s))\<rparr>)"
  using assms
  by (auto simp add: window_kept_def window_ok_def newline_forces_scroll_def scrl_def)

lemma window_kept_waddch_newline:
  assumes "window_ok s"
  shows "window_kept s (waddch_newline s)"
proof -
  have k1: "window_kept s (clrtoeol s)" using assms by (rule window_kept_clrtoeol)
  then have ok1: "window_ok (clrtoeol s)" using assms by (rule window_kept_ok)
  have "window_kept (clrtoeol s) (waddch_newline s)"
    using ok1
    by (auto simp add: waddch_newline_def Let_def window_kept_def window_ok_def
        newline_forces_scroll_def scrl_def)
  with k1 show ?thesis by (rule window_kept_trans)
qed

lemma window_kept_tab_blanks:
  "window_ok s \<Longrightarrow> window_kept s (snd (tab_blanks n x s))"
proof (induction n arbitrary: s)
  case 0
  then show ?case by (simp add: window_kept_refl)
next
  case (Suc n)
  let ?s1 = "snd (waddch_store (render s 0x20) s)"
  have k1: "window_kept s ?s1" using Suc.prems by (rule window_kept_waddch_store)
  then have ok1: "window_ok ?s1" using Suc.prems by (rule window_kept_ok)
  have "window_kept ?s1 (snd (tab_blanks n x ?s1))" using ok1 by (rule Suc.IH)
  with k1 have "window_kept s (snd (tab_blanks n x ?s1))" by (rule window_kept_trans)
  then show ?case
    using k1 Suc.prems by (simp add: window_kept_refl)
qed

lemma tab_blanks_column:
  assumes "window_ok s" and "x < COLS s \<or> (\<not> wscroll s \<and> cury s = regbottom s)"
    and "x - curx s \<le> n"
  shows "fst (tab_blanks n x s) < COLS s"
  using assms
proof (induction n arbitrary: s)
  case 0
  then show ?case by (simp add: window_ok_def)
next
  case (Suc n)
  show ?case
  proof (cases "curx s < x")
    case False
    then show ?thesis using Suc.prems(1) by (simp add: window_ok_def)
  next
    case lt: True
    show ?thesis
    proof (cases "Suc (curx s) < COLS s")
      case True
      let ?s1 = "s\<lparr>wtext := (\<lambda>y x. if y = cury s \<and> x = curx s then render s 0x20 else wtext s y x),
                     curx := Suc (curx s)\<rparr>"
      have st: "waddch_store (render s 0x20) s = (True, ?s1)"
        using True by (simp add: waddch_store_def Let_def)
      have "fst (tab_blanks n x ?s1) < COLS ?s1"
      proof (rule Suc.IH)
        show "window_ok ?s1" using Suc.prems(1) True by (simp add: window_ok_def)
        show "x < COLS ?s1 \<or> (\<not> wscroll ?s1 \<and> cury ?s1 = regbottom ?s1)"
          using Suc.prems(2) by simp
        show "x - curx ?s1 \<le> n" using Suc.prems(3) lt by simp
      qed
      then show ?thesis using lt by (simp add: st)
    next
      case False
      then have "\<not> x < COLS s" using lt by simp
      then have ns: "\<not> wscroll s" "cury s = regbottom s" using Suc.prems(2) by simp_all
      have "waddch_store (render s 0x20) s
              = (False, s\<lparr>wtext := (\<lambda>y x. if y = cury s \<and> x = curx s then render s 0x20
                                           else wtext s y x),
                           cury := regbottom s, curx := COLS s - 1\<rparr>)"
        using False ns by (simp add: waddch_store_def Let_def wrap_to_next_line_def)
      then show ?thesis using lt Suc.prems(1) by (simp add: window_ok_def)
    qed
  qed
qed

lemma window_kept_waddch_tab:
  assumes ok: "window_ok s"
  shows "window_kept s (waddch_tab s)"
proof (cases "TABSIZE s = 0")
  case True
  then show ?thesis using ok by (simp add: waddch_tab_def window_kept_def window_ok_def)
next
  case False
  define x where "x = curx s + (TABSIZE s - curx s mod TABSIZE s)"
  show ?thesis
  proof (cases "(\<not> wscroll s \<and> cury s = regbottom s) \<or> x < COLS s")
    case True
    have k: "window_kept s (snd (tab_blanks (x - curx s) x s))"
      using ok by (rule window_kept_tab_blanks)
    have c: "fst (tab_blanks (x - curx s) x s) < COLS s"
      using ok True by (intro tab_blanks_column) auto
    have "waddch_tab s = (snd (tab_blanks (x - curx s) x s))
                           \<lparr>curx := fst (tab_blanks (x - curx s) x s), cury := cury s\<rparr>"
      using False True by (simp add: waddch_tab_def Let_def x_def)
    then show ?thesis using k c ok by (simp add: window_kept_def window_ok_def)
  next
    case no: False
    have k1: "window_kept s (clrtoeol s)" using ok by (rule window_kept_clrtoeol)
    then have ok1: "window_ok (clrtoeol s)" using ok by (rule window_kept_ok)
    have "waddch_tab s
            = (if fst (newline_forces_scroll (clrtoeol s) (cury (clrtoeol s)))
               then (if wscroll (clrtoeol s)
                     then (scrl 1 (clrtoeol s))
                            \<lparr>curx := 0,
                              cury := snd (newline_forces_scroll (clrtoeol s) (cury (clrtoeol s)))\<rparr>
                     else (clrtoeol s)
                            \<lparr>curx := COLS (clrtoeol s) - 1,
                              cury := snd (newline_forces_scroll (clrtoeol s) (cury (clrtoeol s)))\<rparr>)
               else (clrtoeol s)
                      \<lparr>curx := 0,
                        cury := snd (newline_forces_scroll (clrtoeol s) (cury (clrtoeol s)))\<rparr>)"
      using False no by (auto simp add: waddch_tab_def Let_def x_def)
    then have "window_kept (clrtoeol s) (waddch_tab s)"
      using window_kept_line_feed [OF ok1] by simp
    with k1 show ?thesis by (rule window_kept_trans)
  qed
qed

lemma window_kept_addch:
  assumes ok: "window_ok s"
  shows "window_kept s (addch ch s)"
proof -
  have "window_kept s (s\<lparr>curx := 0\<rparr>)" "window_kept s (s\<lparr>curx := curx s - 1\<rparr>)"
    using ok by (auto simp add: window_kept_def window_ok_def)
  then show ?thesis
    using window_kept_waddch_literal [OF ok] window_kept_waddch_tab [OF ok]
      window_kept_waddch_newline [OF ok] window_kept_waddch_string [OF ok]
      window_kept_refl [OF ok]
    by (simp add: addch_def)
qed

lemma running_addch:
  assumes "running s"
  shows "running (storeCursorPosition (addch ch s))"
proof -
  have "window_ok s" using assms by (simp add: running_def screen_ok_def window_ok_def)
  then have "window_kept s (addch ch s)" by (rule window_kept_addch)
  then show ?thesis
    using assms
    by (simp add: running_def screen_ok_def window_kept_def storeCursorPosition_def
        getcury_def getcurx_def)
qed

lemma running_ptyAddCharacter:
  assumes "running s"
  shows "running (ptyAddCharacter character s)"
proof -
  let ?s1 = "storeCursorPosition (addch character s)"
  have r: "running ?s1" using assms by (rule running_addch)
  then have "screen_ok ?s1" by (simp add: running_def)
  then have "screen_frame ?s1 (snd (setCharacter (cursorRow s) (cursorColumn s) ?s1))"
    by (rule frame_setCharacter)
  then have "running (snd (setCharacter (cursorRow s) (cursorColumn s) ?s1))"
    using r by (rule running_frame)
  then show ?thesis by (simp add: ptyAddCharacter_def Let_def)
qed

lemma running_clearLoop:
  assumes "clearLoop column s = Some s'"
  shows "running s \<longrightarrow> running s'"
  using assms
proof (rule clearLoop.raw_induct [rotated, where P = "\<lambda>column s s'. running s \<longrightarrow> running s'"],
    goal_cases)
  case (1 f column s s')
  show ?case
  proof
    assume r: "running s"
    then have r1: "running (ptyAddCharacter 32 s)" by (rule running_ptyAddCharacter)
    show "running s'"
    proof (cases "column < cursorColumn (ptyAddCharacter 32 s)")
      case True
      then have "s' = ptyAddCharacter 32 s" using 1(2) by (simp add: Let_def)
      then show ?thesis using r1 by simp
    next
      case False
      then have "f column (ptyAddCharacter 32 s) = Some s'"
        using 1(2) by (simp add: Let_def)
      then show ?thesis using 1(1) r1 by blast
    qed
  qed
qed

lemma frame_ptyInsertCharacters:
  assumes ok: "screen_ok s"
  shows "screen_frame s (ptyInsertCharacters count s)"
proof -
  define n where "n = (if fst (getCurrentCharacter s) + count > snd (getCurrentCharacter s)
                       then ptrdiff_u32 (snd (getCurrentCharacter s)) (fst (getCurrentCharacter s))
                       else count)"
  define s1 where "s1 = moveScreenCharacters (fst (getCurrentCharacter s) + n)
                          (fst (getCurrentCharacter s))
                          (ptrdiff_size (snd (getCurrentCharacter s)) (fst (getCurrentCharacter s) + n)) s"
  define s2 where "s2 = insch_loop n s1"
  have f1: "screen_frame s s1" unfolding s1_def by (rule frame_moveScreenCharacters)
  have f2: "screen_frame s1 s2" unfolding s2_def by (rule frame_insch_loop)
  have f12: "screen_frame s s2" using f1 f2 by (rule screen_frame_trans)
  have "screen_ok s2" using f12 ok by (rule screen_ok_frame)
  then have f3: "screen_frame s2 (fillCharacters (cursorRow s2) (cursorColumn s2) n s2)"
    by (rule frame_fillCharacters)
  have "ptyInsertCharacters count s = fillCharacters (cursorRow s2) (cursorColumn s2) n s2"
    by (simp add: ptyInsertCharacters_def Let_def n_def s1_def s2_def)
  then show ?thesis using screen_frame_trans [OF f12 f3] by simp
qed

lemma frame_ptyDeleteCharacters:
  assumes ok: "screen_ok s"
  shows "screen_frame s (ptyDeleteCharacters count s)"
proof -
  define n where "n = (if fst (getCurrentCharacter s) + count > snd (getCurrentCharacter s)
                       then ptrdiff_u32 (snd (getCurrentCharacter s)) (fst (getCurrentCharacter s))
                       else count)"
  define s1 where "s1 = (if fst (getCurrentCharacter s) + n < snd (getCurrentCharacter s)
                         then moveScreenCharacters (fst (getCurrentCharacter s))
                                (fst (getCurrentCharacter s) + n)
                                (ptrdiff_size (snd (getCurrentCharacter s)) (fst (getCurrentCharacter s) + n)) s
                         else s)"
  define s2 where "s2 = delch_loop n s1"
  have f1: "screen_frame s s1" unfolding s1_def by (simp add: frame_moveScreenCharacters)
  have f2: "screen_frame s1 s2" unfolding s2_def by (rule frame_delch_loop)
  have f12: "screen_frame s s2" using f1 f2 by (rule screen_frame_trans)
  have "screen_ok s2" using f12 ok by (rule screen_ok_frame)
  then have f3: "screen_frame s2 (fillCharacters (cursorRow s2) (usub (COLS s2) n) n s2)"
    by (rule frame_fillCharacters)
  have "ptyDeleteCharacters count s = fillCharacters (cursorRow s2) (usub (COLS s2) n) n s2"
    by (simp add: ptyDeleteCharacters_def Let_def n_def s1_def s2_def)
  then show ?thesis using screen_frame_trans [OF f12 f3] by simp
qed

lemma frame_clrtobot: "screen_frame s (clrtobot s)"
  by (simp add: clrtobot_def screen_frame_def)

lemma frame_clrtoeol: "screen_frame s (clrtoeol s)"
  by (simp add: clrtoeol_def screen_frame_def)

lemma frame_ptyClearToEndOfDisplay:
  assumes ok: "screen_ok s"
  shows "screen_frame s (ptyClearToEndOfDisplay s)"
proof -
  have f1: "screen_frame s (clrtobot s)" by (rule frame_clrtobot)
  then have "screen_ok (clrtobot s)" using ok by (rule screen_ok_frame)
  then have f2: "screen_frame (clrtobot s) (snd (setCurrentCharacter (clrtobot s)))"
    unfolding setCurrentCharacter_def by (rule frame_setCharacter)
  have "screen_frame s (snd (setCurrentCharacter (clrtobot s)))"
    using f1 f2 by (rule screen_frame_trans)
  then show ?thesis
    unfolding ptyClearToEndOfDisplay_def Let_def
    by (rule screen_frame_trans [OF _ frame_propagateScreenCharacter])
qed

lemma frame_ptyClearToEndOfLine:
  assumes ok: "screen_ok s"
  shows "screen_frame s (ptyClearToEndOfLine s)"
proof -
  have f1: "screen_frame s (clrtoeol s)" by (rule frame_clrtoeol)
  then have "screen_ok (clrtoeol s)" using ok by (rule screen_ok_frame)
  then have f2: "screen_frame (clrtoeol s) (snd (setCurrentCharacter (clrtoeol s)))"
    unfolding setCurrentCharacter_def by (rule frame_setCharacter)
  have "screen_frame s (snd (setCurrentCharacter (clrtoeol s)))"
    using f1 f2 by (rule screen_frame_trans)
  then show ?thesis
    unfolding ptyClearToEndOfLine_def Let_def
    by (rule screen_frame_trans [OF _ frame_propagateScreenCharacter])
qed

lemma running_setCharacterColors:
  "running s \<Longrightarrow> running (setCharacterColors s)"
  by (simp add: setCharacterColors_def Let_def attroff_def attron_def running_updates
      split: option.split)

lemma running_engine_step:
  assumes r: "running s" and st: "engine_step c s = Some s'"
  shows "running s'"
proof -
  have ok: "screen_ok s" using r by (simp add: running_def)
  show ?thesis
  proof (cases c)
    case (SetCursorPosition row column)
    then show ?thesis using st r by (auto simp add: running_ptySetCursorPosition)
  next
    case (SetCursorRow row)
    then show ?thesis using st r by (auto simp add: ptySetCursorRow_def running_ptySetCursorPosition)
  next
    case (SetCursorColumn column)
    then show ?thesis using st r by (auto simp add: ptySetCursorColumn_def running_ptySetCursorPosition)
  next
    case SaveCursorPosition
    then show ?thesis using st r by (auto simp add: ptySaveCursorPosition_def running_updates)
  next
    case RestoreCursorPosition
    then show ?thesis using st r by (auto simp add: ptyRestoreCursorPosition_def running_ptySetCursorPosition)
  next
    case (SetScrollRegion rtop rbottom)
    then show ?thesis using st r by (auto simp add: running_ptySetScrollRegion)
  next
    case (ScrollBackward count)
    then show ?thesis using st running_frame [OF frame_ptyScrollBackward [OF ok] r] by auto
  next
    case (ScrollForward count)
    then show ?thesis using st running_frame [OF frame_ptyScrollForward [OF ok] r] by auto
  next
    case (MoveCursorUp amount)
    then show ?thesis
      using st r by (auto simp add: ptyMoveCursorUp_def Let_def ptySetCursorRow_def
          running_ptySetCursorPosition)
  next
    case (MoveCursorDown amount)
    then show ?thesis
      using st r by (auto simp add: ptyMoveCursorDown_def Let_def ptySetCursorRow_def
          running_ptySetCursorPosition)
  next
    case (MoveCursorLeft amount)
    then show ?thesis
      using st r by (auto simp add: ptyMoveCursorLeft_def Let_def ptySetCursorColumn_def
          running_ptySetCursorPosition)
  next
    case (MoveCursorRight amount)
    then show ?thesis
      using st r by (auto simp add: ptyMoveCursorRight_def Let_def ptySetCursorColumn_def
          running_ptySetCursorPosition)
  next
    case MoveUp1
    then show ?thesis
      using st r running_frame [OF frame_ptyScrollBackward [OF ok] r]
      by (auto simp add: ptyMoveUp1_def ptyMoveCursorUp_def Let_def ptySetCursorRow_def
          running_ptySetCursorPosition)
  next
    case MoveDown1
    then show ?thesis
      using st r running_frame [OF frame_ptyScrollForward [OF ok] r]
      by (auto simp add: ptyMoveDown1_def ptyMoveCursorDown_def Let_def ptySetCursorRow_def
          running_ptySetCursorPosition)
  next
    case TabBackward
    then show ?thesis
      using st r by (auto simp add: ptyTabBackward_def ptySetCursorColumn_def
          running_ptySetCursorPosition running_updates)
  next
    case TabForward
    then show ?thesis
      using st r by (auto simp add: ptyTabForward_def ptySetCursorColumn_def
          running_ptySetCursorPosition running_updates)
  next
    case (InsertLines count)
    let ?s1 = "ptySetScrollRegion (cursorRow s) (scrollRegionBottom s) s"
    have r1: "running ?s1" using r by (rule running_ptySetScrollRegion)
    then have "screen_ok ?s1" by (simp add: running_def)
    then have "running (ptyScrollBackward count ?s1)"
      using r1 by (intro running_frame [OF frame_ptyScrollBackward])
    then have "running (ptyInsertLines count s)"
      using r by (simp add: ptyInsertLines_def Let_def running_ptySetScrollRegion)
    then show ?thesis using st InsertLines by auto
  next
    case (DeleteLines count)
    let ?s1 = "ptySetScrollRegion (cursorRow s) (scrollRegionBottom s) s"
    have r1: "running ?s1" using r by (rule running_ptySetScrollRegion)
    then have "screen_ok ?s1" by (simp add: running_def)
    then have "running (ptyScrollForward count ?s1)"
      using r1 by (intro running_frame [OF frame_ptyScrollForward])
    then have "running (ptyDeleteLines count s)"
      using r by (simp add: ptyDeleteLines_def Let_def running_ptySetScrollRegion)
    then show ?thesis using st DeleteLines by auto
  next
    case (InsertCharacters count)
    then show ?thesis using st running_frame [OF frame_ptyInsertCharacters [OF ok] r] by auto
  next
    case (DeleteCharacters count)
    then show ?thesis using st running_frame [OF frame_ptyDeleteCharacters [OF ok] r] by auto
  next
    case (AddCharacter character)
    then show ?thesis using st r by (auto simp add: running_ptyAddCharacter)
  next
    case (SetCursorVisibility visibility)
    then show ?thesis using st r by (auto simp add: ptySetCursorVisibility_def)
  next
    case (SetAttributes attributes)
    then show ?thesis using st r by (auto simp add: ptySetAttributes_def attrset_def running_updates)
  next
    case (AddAttributes attributes)
    then show ?thesis using st r by (auto simp add: ptyAddAttributes_def attron_def running_updates)
  next
    case (RemoveAttributes attributes)
    then show ?thesis using st r by (auto simp add: ptyRemoveAttributes_def attroff_def running_updates)
  next
    case (SetForegroundColor color)
    then show ?thesis
      using st r by (auto simp add: ptySetForegroundColor_def Let_def running_setCharacterColors
          running_updates)
  next
    case (SetBackgroundColor color)
    then show ?thesis
      using st r by (auto simp add: ptySetBackgroundColor_def Let_def running_setCharacterColors
          running_updates)
  next
    case ClearToEndOfDisplay
    then show ?thesis using st running_frame [OF frame_ptyClearToEndOfDisplay [OF ok] r] by auto
  next
    case ClearToEndOfLine
    then show ?thesis using st running_frame [OF frame_ptyClearToEndOfLine [OF ok] r] by auto
  next
    case ClearToBeginningOfLine
    let ?s1 = "if cursorColumn s > 0 then ptySetCursorColumn 0 s else s"
    have r1: "running ?s1"
      using r by (simp add: ptySetCursorColumn_def running_ptySetCursorPosition)
    from st ClearToBeginningOfLine obtain s2 where
      l: "clearLoop (cursorColumn s) ?s1 = Some s2" and e: "s' = ptySetCursorColumn (cursorColumn s) s2"
      by (auto simp add: ptyClearToBeginningOfLine_def Let_def split: option.splits)
    have "running s2" using running_clearLoop [OF l] r1 by blast
    then show ?thesis
      by (simp add: e ptySetCursorColumn_def running_ptySetCursorPosition)
  qed
qed

lemma ptySetCursorRow_inside:
  assumes ok: "screen_ok s" and y: "y < LINES s"
  shows "ptySetCursorRow y s = s\<lparr>cury := y, cursorRow := y\<rparr>"
proof -
  have b: "LINES s < 2147483648" "COLS s < 2147483648"
    using ok by (rule screen_ok_bounds)+
  have g: "curx s < COLS s" "cursorColumn s = curx s"
    using ok by (simp_all add: screen_ok_def)
  have "ptySetCursorPosition y (curx s) s
          = s\<lparr>cury := y, curx := curx s, cursorRow := y, cursorColumn := curx s\<rparr>"
    using y g b by (intro ptySetCursorPosition_inside) simp_all
  then show ?thesis using g by (simp add: ptySetCursorRow_def cursor_only_update)
qed

lemma ptySetCursorColumn_inside:
  assumes ok: "screen_ok s" and x: "x < COLS s"
  shows "ptySetCursorColumn x s = s\<lparr>curx := x, cursorColumn := x\<rparr>"
proof -
  have b: "LINES s < 2147483648" "COLS s < 2147483648"
    using ok by (rule screen_ok_bounds)+
  have g: "cury s < LINES s" "cursorRow s = cury s"
    using ok by (simp_all add: screen_ok_def)
  have "ptySetCursorPosition (cury s) x s
          = s\<lparr>cury := cury s, curx := x, cursorRow := cury s, cursorColumn := x\<rparr>"
    using x g b by (intro ptySetCursorPosition_inside) simp_all
  moreover have "s\<lparr>cury := cury s, curx := x, cursorRow := cury s, cursorColumn := x\<rparr>
                   = s\<lparr>curx := x, cursorColumn := x\<rparr>"
    using g by (intro pty.equality) simp_all
  ultimately show ?thesis using g by (simp add: ptySetCursorColumn_def)
qed

lemma cursor_row_same:
  "screen_ok s \<Longrightarrow> s\<lparr>cury := cursorRow s, cursorRow := cursorRow s\<rparr> = s"
  by (intro pty.equality) (simp_all add: screen_ok_def)

lemma cursor_column_same:
  "screen_ok s \<Longrightarrow> s\<lparr>curx := cursorColumn s, cursorColumn := cursorColumn s\<rparr> = s"
  by (intro pty.equality) (simp_all add: screen_ok_def)

lemma ptyMoveCursorUp_clamps:
  assumes ok: "screen_ok s"
  shows "ptyMoveCursorUp amount s
           = s\<lparr>cury := cursorRow s - amount, cursorRow := cursorRow s - amount\<rparr>"
proof -
  have b: "LINES s < 2147483648" using ok by (rule screen_ok_bounds)
  have g: "cursorRow s < LINES s" using ok by (simp add: screen_ok_def)
  define n where "n = (if amount > cursorRow s then cursorRow s else amount)"
  have n: "n \<le> cursorRow s" "cursorRow s - amount = cursorRow s - n" by (simp_all add: n_def)
  show ?thesis
  proof (cases "n > 0")
    case True
    have u: "usub (cursorRow s) n = cursorRow s - n"
      using n g b by (intro usub_in_range) simp_all
    have "ptySetCursorRow (cursorRow s - n) s
            = s\<lparr>cury := cursorRow s - n, cursorRow := cursorRow s - n\<rparr>"
      using g by (intro ptySetCursorRow_inside [OF ok]) simp
    then show ?thesis
      using True u n(2) by (simp add: ptyMoveCursorUp_def Let_def n_def [symmetric])
  next
    case False
    then have "cursorRow s - amount = cursorRow s" using n by simp
    then show ?thesis
      using False cursor_row_same [OF ok]
      by (simp add: ptyMoveCursorUp_def Let_def n_def [symmetric])
  qed
qed

lemma ptyMoveCursorLeft_clamps:
  assumes ok: "screen_ok s"
  shows "ptyMoveCursorLeft amount s
           = s\<lparr>curx := cursorColumn s - amount, cursorColumn := cursorColumn s - amount\<rparr>"
proof -
  have b: "COLS s < 2147483648" using ok by (rule screen_ok_bounds)
  have g: "cursorColumn s < COLS s" using ok by (simp add: screen_ok_def)
  define n where "n = (if amount > cursorColumn s then cursorColumn s else amount)"
  have n: "n \<le> cursorColumn s" "cursorColumn s - amount = cursorColumn s - n"
    by (simp_all add: n_def)
  show ?thesis
  proof (cases "n > 0")
    case True
    have u: "usub (cursorColumn s) n = cursorColumn s - n"
      using n g b by (intro usub_in_range) simp_all
    have "ptySetCursorColumn (cursorColumn s - n) s
            = s\<lparr>curx := cursorColumn s - n, cursorColumn := cursorColumn s - n\<rparr>"
      using g by (intro ptySetCursorColumn_inside [OF ok]) simp
    then show ?thesis
      using True u n(2) by (simp add: ptyMoveCursorLeft_def Let_def n_def [symmetric])
  next
    case False
    then have "cursorColumn s - amount = cursorColumn s" using n by simp
    then show ?thesis
      using False cursor_column_same [OF ok]
      by (simp add: ptyMoveCursorLeft_def Let_def n_def [symmetric])
  qed
qed

lemma ptyMoveCursorDown_to:
  assumes ok: "screen_ok s"
  shows "ptyMoveCursorDown amount s
           = s\<lparr>cury := min (u32 (cursorRow s + amount)) (LINES s - 1),
               cursorRow := min (u32 (cursorRow s + amount)) (LINES s - 1)\<rparr>"
proof -
  have b: "LINES s < 2147483648" using ok by (rule screen_ok_bounds)
  have g: "0 < LINES s" using ok by (simp add: screen_ok_def)
  have u: "usub (LINES s) 1 = LINES s - 1"
    using g b by (intro usub_in_range) simp_all
  define y where "y = min (u32 (cursorRow s + amount)) (LINES s - 1)"
  have y: "y < LINES s" using g by (simp add: y_def)
  have d: "ptyMoveCursorDown amount s = (if y \<noteq> cursorRow s then ptySetCursorRow y s else s)"
    by (simp only: ptyMoveCursorDown_def Let_def u y_def)
  have "ptyMoveCursorDown amount s = s\<lparr>cury := y, cursorRow := y\<rparr>"
  proof (cases "y = cursorRow s")
    case True
    then show ?thesis using cursor_row_same [OF ok] by (simp add: d)
  next
    case False
    then show ?thesis using ptySetCursorRow_inside [OF ok y] by (simp add: d)
  qed
  then show ?thesis by (simp only: y_def)
qed

lemma ptyMoveCursorRight_to:
  assumes ok: "screen_ok s"
  shows "ptyMoveCursorRight amount s
           = s\<lparr>curx := min (u32 (cursorColumn s + amount)) (COLS s - 1),
               cursorColumn := min (u32 (cursorColumn s + amount)) (COLS s - 1)\<rparr>"
proof -
  have b: "COLS s < 2147483648" using ok by (rule screen_ok_bounds)
  have g: "0 < COLS s" using ok by (simp add: screen_ok_def)
  have u: "usub (COLS s) 1 = COLS s - 1"
    using g b by (intro usub_in_range) simp_all
  define x where "x = min (u32 (cursorColumn s + amount)) (COLS s - 1)"
  have x: "x < COLS s" using g by (simp add: x_def)
  have d: "ptyMoveCursorRight amount s
             = (if x \<noteq> cursorColumn s then ptySetCursorColumn x s else s)"
    by (simp only: ptyMoveCursorRight_def Let_def u x_def)
  have "ptyMoveCursorRight amount s = s\<lparr>curx := x, cursorColumn := x\<rparr>"
  proof (cases "x = cursorColumn s")
    case True
    then show ?thesis using cursor_column_same [OF ok] by (simp add: d)
  next
    case False
    then show ?thesis using ptySetCursorColumn_inside [OF ok x] by (simp add: d)
  qed
  then show ?thesis by (simp only: x_def)
qed

lemma engine_step_returns:
  "c \<noteq> ClearToBeginningOfLine \<Longrightarrow> \<exists>s'. engine_step c s = Some s'"
  by (cases c) simp_all

text \<open>
  In a running session every operation of the engine other than
  \<open>ptyClearToBeginningOfLine\<close> returns, and after every operation that returns the
  session is still running, so that the cursor fields of the segment header are
  inside the grid. \<open>ptyMoveCursorUp\<close> and \<open>ptyMoveCursorLeft\<close> change nothing but the
  cursor row, respectively column, which they decrease by the amount, stopping at 0.
  \<open>ptyMoveCursorDown\<close> and \<open>ptyMoveCursorRight\<close> change nothing but the cursor row,
  respectively column, which becomes the sum of the old value and the amount, reduced
  as the 32-bit sum of the code is, or the last row, respectively column, when that is
  less; where the sum does not overflow this is the old value increased by the amount,
  stopping at the last row, respectively column.
\<close>

theorem cursor_stays_in_grid:
  assumes r: "running s"
  shows "(c \<noteq> ClearToBeginningOfLine \<longrightarrow> (\<exists>s'. engine_step c s = Some s'))
       \<and> (\<forall>s'. engine_step c s = Some s' \<longrightarrow>
             running s' \<and> cursorRow s' < screenHeight s' \<and> cursorColumn s' < screenWidth s')
       \<and> ptyMoveCursorUp amount s
           = s\<lparr>cury := cursorRow s - amount, cursorRow := cursorRow s - amount\<rparr>
       \<and> ptyMoveCursorLeft amount s
           = s\<lparr>curx := cursorColumn s - amount, cursorColumn := cursorColumn s - amount\<rparr>
       \<and> ptyMoveCursorDown amount s
           = s\<lparr>cury := min (u32 (cursorRow s + amount)) (LINES s - 1),
               cursorRow := min (u32 (cursorRow s + amount)) (LINES s - 1)\<rparr>
       \<and> ptyMoveCursorRight amount s
           = s\<lparr>curx := min (u32 (cursorColumn s + amount)) (COLS s - 1),
               cursorColumn := min (u32 (cursorColumn s + amount)) (COLS s - 1)\<rparr>
       \<and> (cursorRow s + amount < 4294967296 \<longrightarrow>
             u32 (cursorRow s + amount) = cursorRow s + amount)
       \<and> (cursorColumn s + amount < 4294967296 \<longrightarrow>
             u32 (cursorColumn s + amount) = cursorColumn s + amount)"
proof -
  have ok: "screen_ok s" using r by (simp add: running_def)
  have "\<forall>s'. engine_step c s = Some s' \<longrightarrow>
             running s' \<and> cursorRow s' < screenHeight s' \<and> cursorColumn s' < screenWidth s'"
  proof (intro allI impI)
    fix s'
    assume "engine_step c s = Some s'"
    with r have "running s'" by (rule running_engine_step)
    then show "running s' \<and> cursorRow s' < screenHeight s' \<and> cursorColumn s' < screenWidth s'"
      by (simp add: running_def screen_ok_def)
  qed
  then show ?thesis
    using engine_step_returns [of c s]
    by (simp add: ptyMoveCursorUp_clamps [OF ok] ptyMoveCursorLeft_clamps [OF ok]
        ptyMoveCursorDown_to [OF ok] ptyMoveCursorRight_to [OF ok])
qed

theorem cursor_stays_in_grid_witness:
  "running (example\<lparr>curx := 79, cursorColumn := 79\<rparr>)
   \<and> engine_step TabForward (example\<lparr>curx := 79, cursorColumn := 79\<rparr>)
       = Some (ptyTabForward (example\<lparr>curx := 79, cursorColumn := 79\<rparr>))
   \<and> cursorColumn (ptyTabForward (example\<lparr>curx := 79, cursorColumn := 79\<rparr>))
       < screenWidth (ptyTabForward (example\<lparr>curx := 79, cursorColumn := 79\<rparr>))
   \<and> cursorColumn (ptyTabForward (example\<lparr>curx := 79, cursorColumn := 79\<rparr>)) = 79
   \<and> cursorColumn (ptyMoveCursorRight 5 (example\<lparr>curx := 79, cursorColumn := 79\<rparr>)) = 79
   \<and> running example
   \<and> engine_step TabBackward example = Some (ptyTabBackward example)
   \<and> cursorColumn (ptyTabBackward example) < screenWidth (ptyTabBackward example)
   \<and> cursorColumn (ptyTabBackward example) = 0
   \<and> cursorRow (ptyMoveCursorDown 100 example) = 23"
proof -
  let ?edge = "example\<lparr>curx := 79, cursorColumn := 79\<rparr>"
  have r1: "running ?edge"
    by (simp add: running_def screen_ok_def example_def)
  have r2: "running example"
    by (simp add: running_def screen_ok_def example_def)
  have s1: "engine_step TabForward ?edge = Some (ptyTabForward ?edge)"
    and s2: "engine_step TabBackward example = Some (ptyTabBackward example)"
    by simp_all
  note a = cursor_stays_in_grid [OF r1, of TabForward 5]
  note b = cursor_stays_in_grid [OF r2, of TabBackward 100]
  have 1: "cursorColumn (ptyTabForward ?edge) < screenWidth (ptyTabForward ?edge)"
    using a s1 by blast
  have 2: "cursorColumn (ptyTabBackward example) < screenWidth (ptyTabBackward example)"
    using b s2 by blast
  have 3: "cursorColumn (ptyTabForward ?edge) = 79"
    by (simp add: ptyTabForward_def ptySetCursorColumn_def ptySetCursorPosition_def move_def
        to_int_def u32_def storeCursorPosition_def getcurx_def getcury_def example_def)
  have 4: "cursorColumn (ptyTabBackward example) = 0"
    by (simp add: ptyTabBackward_def ptySetCursorColumn_def ptySetCursorPosition_def move_def
        to_int_def u32_def usub_def storeCursorPosition_def getcurx_def getcury_def example_def)
  have "ptyMoveCursorRight 5 ?edge
           = ?edge\<lparr>curx := min (u32 (cursorColumn ?edge + 5)) (COLS ?edge - 1),
               cursorColumn := min (u32 (cursorColumn ?edge + 5)) (COLS ?edge - 1)\<rparr>"
    using a by blast
  then have 5: "cursorColumn (ptyMoveCursorRight 5 ?edge) = 79"
    by (simp add: example_def u32_def)
  have "ptyMoveCursorDown 100 example
           = example\<lparr>cury := min (u32 (cursorRow example + 100)) (LINES example - 1),
               cursorRow := min (u32 (cursorRow example + 100)) (LINES example - 1)\<rparr>"
    using b by blast
  then have 6: "cursorRow (ptyMoveCursorDown 100 example) = 23"
    by (simp add: example_def u32_def)
  show ?thesis
    by (intro conjI) (fact r1 r2 s1 s2 1 2 3 4 5 6)+
qed

section \<open>The content of the segment after a scroll\<close>

lemma segmentCharacter_frame:
  "screen_frame s s' \<Longrightarrow> segmentCharacter s' w = segmentCharacter s w"
  by (simp add: segmentCharacter_def pairColors_def pair_content_def screen_frame_fields)

lemma region_facts:
  assumes ok: "screen_ok s" and reg: "region_ok s"
  shows "scrollRegionTop s \<le> scrollRegionBottom s" and "scrollRegionBottom s < LINES s"
    and "u32 (scrollRegionBottom s + 1) = scrollRegionBottom s + 1"
    and "usub (scrollRegionBottom s + 1) (scrollRegionTop s)
           = scrollRegionBottom s + 1 - scrollRegionTop s"
proof -
  have b: "LINES s < 2147483648" using ok by (rule screen_ok_bounds)
  show 1: "scrollRegionTop s \<le> scrollRegionBottom s" and 2: "scrollRegionBottom s < LINES s"
    using reg by (simp_all add: region_ok_def)
  show 3: "u32 (scrollRegionBottom s + 1) = scrollRegionBottom s + 1"
    using 2 b by (intro u32_in_range) simp
  show "usub (scrollRegionBottom s + 1) (scrollRegionTop s)
          = scrollRegionBottom s + 1 - scrollRegionTop s"
    using 1 2 b by (intro usub_in_range) simp_all
qed

text \<open>Positions of the grid and addresses of cells.\<close>

lemma rows_le_cells:
  assumes "k \<le> (h::nat)"
  shows "k * w \<le> h * w"
  using assms by (rule mult_le_mono1)

lemma address_in_rows:
  assumes c: "column < (w::nat)"
  shows "(a * w \<le> row * w + column \<and> row * w + column < a * w + k * w) = (a \<le> row \<and> row < a + k)"
proof -
  have 1: "(a * w \<le> row * w + column) = (a \<le> row)"
  proof
    assume l: "a * w \<le> row * w + column"
    show "a \<le> row"
    proof (rule ccontr)
      assume "\<not> a \<le> row"
      then have "Suc row \<le> a" by simp
      then have "Suc row * w \<le> a * w" by (rule mult_le_mono1)
      then show False using l c by simp
    qed
  next
    assume "a \<le> row"
    then have "a * w \<le> row * w" by (rule mult_le_mono1)
    then show "a * w \<le> row * w + column" by (rule trans_le_add1)
  qed
  have 2: "(row * w + column < (a + k) * w) = (row < a + k)"
  proof
    assume l: "row * w + column < (a + k) * w"
    show "row < a + k"
    proof (rule ccontr)
      assume "\<not> row < a + k"
      then have "a + k \<le> row" by simp
      then have "(a + k) * w \<le> row * w" by (rule mult_le_mono1)
      then show False using l by linarith
    qed
  next
    assume "row < a + k"
    then show "row * w + column < (a + k) * w" using c by (rule cell_index_less)
  qed
  have "a * w + k * w = (a + k) * w" by (simp add: add_mult_distrib)
  then show ?thesis using 1 2 by simp
qed

lemma address_shift:
  assumes "a \<le> (row::nat)"
  shows "f * w + (row * w + column - a * w) = (f + (row - a)) * w + column"
proof -
  have "row = a + (row - a)" using assms by simp
  then have "row * w = a * w + (row - a) * w" by (metis add_mult_distrib)
  then have "row * w + column - a * w = (row - a) * w + column" by simp
  then show ?thesis by (simp add: add_mult_distrib)
qed

text \<open>
  \<open>moveRows\<close> and \<open>fillRows\<close> on rows that lie inside the segment, cell by cell.
\<close>

lemma moveRows_inside:
  assumes w: "screenWidth s = w" "COLS s = w" and sz: "segmentSize s = z"
    and lt: "count * w < 4294967296"
    and src: "from * w + count * w \<le> z" and dst: "to * w + count * w \<le> z"
  shows "characters (moveRows from to count s)
           = (\<lambda>i. if to * w \<le> i \<and> i < to * w + count * w
                  then characters s (from * w + (i - to * w)) else characters s i)"
    and "fault (moveRows from to count s) = fault s"
    and "wtext (moveRows from to count s) = wtext s"
proof -
  have u: "u32 (count * w) = count * w" using lt by (rule u32_in_range)
  show "characters (moveRows from to count s)
           = (\<lambda>i. if to * w \<le> i \<and> i < to * w + count * w
                  then characters s (from * w + (i - to * w)) else characters s i)"
    using src dst
    by (auto simp add: moveRows_def moveScreenCharacters_def getScreenRow_def w sz u fun_eq_iff)
  show "fault (moveRows from to count s) = fault s"
    using src dst
    by (simp add: moveRows_def moveScreenCharacters_def getScreenRow_def w sz u)
  show "wtext (moveRows from to count s) = wtext s"
    by (simp add: moveRows_def moveScreenCharacters_def)
qed

lemma fillRows_inside:
  assumes ok: "screen_ok s" and w: "COLS s = w" and r: "row < LINES s"
    and pos: "0 < count" and lt: "count * w < 4294967296"
    and dst: "row * w + count * w \<le> LINES s * w"
  shows "characters (fillRows row count s)
           = (\<lambda>i. if row * w \<le> i \<and> i < row * w + count * w
                  then segmentCharacter s (wtext s row 0) else characters s i)"
    and "fault (fillRows row count s) = fault s"
    and "wtext (fillRows row count s) = wtext s"
proof -
  have u: "u32 (count * w) = count * w" using lt by (rule u32_in_range)
  have g: "0 < w" "screenHeight s = LINES s" "screenWidth s = w"
    using ok w by (simp_all add: screen_ok_def)
  have c0: "0 < COLS s" using g w by simp
  have st: "snd (setCharacter row 0 s)
              = s\<lparr>characters := (characters s)(row * w := segmentCharacter s (wtext s row 0))\<rparr>"
    and lc: "fst (fst (setCharacter row 0 s)) = row * w"
    using setCharacter_inside [OF ok r c0] by (simp_all add: w)
  have cw: "0 < count * w" using pos g by simp
  define s1 where "s1 = snd (setCharacter row 0 s)"
  have sz: "segmentSize s1 = LINES s * w"
    by (simp add: s1_def st segmentSize_def g)
  have fr: "fillRows row count s = propagateScreenCharacter (row * w) (row * w + count * w) s1"
    by (simp add: fillRows_def fillCharacters_def Let_def w u lc s1_def)
  have pr: "propagateScreenCharacter (row * w) (row * w + count * w) s1
              = s1\<lparr>characters := (\<lambda>i. if row * w \<le> i \<and> i < row * w + count * w
                                       then characters s1 (row * w) else characters s1 i)\<rparr>"
    using cw dst by (simp add: propagateScreenCharacter_def sz)
  have c1: "characters s1 = (characters s)(row * w := segmentCharacter s (wtext s row 0))"
    and f1: "fault s1 = fault s" and w1: "wtext s1 = wtext s"
    by (simp_all add: s1_def st)
  show "characters (fillRows row count s)
           = (\<lambda>i. if row * w \<le> i \<and> i < row * w + count * w
                  then segmentCharacter s (wtext s row 0) else characters s i)"
  proof (rule ext)
    fix i
    show "characters (fillRows row count s) i
            = (if row * w \<le> i \<and> i < row * w + count * w
               then segmentCharacter s (wtext s row 0) else characters s i)"
      using cw by (simp add: fr pr c1)
  qed
  show "fault (fillRows row count s) = fault s"
    by (simp add: fr pr f1)
  show "wtext (fillRows row count s) = wtext s"
    by (simp add: fr pr w1)
qed

text \<open>
  The quantities of a scroll in a running session: the limited count \<open>n\<close> is at most
  the size of the region, and \<open>m\<close> rows survive.
\<close>

lemma scroll_quantities:
  assumes ok: "screen_ok s" and reg: "region_ok s"
    and n: "n = scroll_count s count"
    and t: "t = scrollRegionTop s" and b: "b = scrollRegionBottom s" and w: "w = COLS s"
    and m: "m = b + 1 - t - n"
  shows "t + n + m = b + 1" and "b < LINES s" and "t \<le> b"
    and "n = (if count > b + 1 - t then b + 1 - t else count)"
    and "usub (b + 1 - t) n = m" and "usub (b + 1) n = b + 1 - n" and "u32 (t + n) = t + n"
    and "n < 2147483648"
    and "m * w < 4294967296" and "n * w < 4294967296"
    and "(t + n) * w + m * w \<le> LINES s * w" and "t * w + m * w \<le> LINES s * w"
    and "(b + 1 - n) * w + n * w \<le> LINES s * w"
    and "t * w + n * w \<le> LINES s * w"
proof -
  have lim: "LINES s < 2147483648" using ok by (rule screen_ok_bounds)
  have g: "LINES s * w < 2147483648" using ok by (simp add: screen_ok_def w)
  show r: "b < LINES s" "t \<le> b"
    unfolding t b by (rule region_facts [OF ok reg])+
  show n3: "n = (if count > b + 1 - t then b + 1 - t else count)"
    by (auto simp add: n scroll_count_def t b min_def)
  have n2: "n \<le> b + 1 - t" by (simp add: n scroll_count_def t b)
  show rows: "t + n + m = b + 1" using n2 r by (simp add: m)
  show "usub (b + 1 - t) n = m" "usub (b + 1) n = b + 1 - n" "u32 (t + n) = t + n"
    using n2 r lim by (simp_all add: m usub_in_range)
  show "n < 2147483648" using n2 r lim by linarith
  have le: "m \<le> LINES s" "n \<le> LINES s" "t + n + m \<le> LINES s" "t + m \<le> LINES s"
    "b + 1 - n + n \<le> LINES s"
    using rows r n2 by linarith+
  have "m * w \<le> LINES s * w" "n * w \<le> LINES s * w"
    by (rule rows_le_cells [OF le(1)], rule rows_le_cells [OF le(2)])
  then show "m * w < 4294967296" "n * w < 4294967296"
    using g by linarith+
  have "(t + n + m) * w \<le> LINES s * w" using le(3) by (rule rows_le_cells)
  then show "(t + n) * w + m * w \<le> LINES s * w" by (simp add: add_mult_distrib)
  have "(t + m) * w \<le> LINES s * w" using le(4) by (rule rows_le_cells)
  then show "t * w + m * w \<le> LINES s * w" by (simp add: add_mult_distrib)
  have "(b + 1 - n + n) * w \<le> LINES s * w" using le(5) by (rule rows_le_cells)
  then show "(b + 1 - n) * w + n * w \<le> LINES s * w" by (simp only: add_mult_distrib)
  have "t + n \<le> LINES s" using le(3) by linarith
  then have "(t + n) * w \<le> LINES s * w" by (rule rows_le_cells)
  then show "t * w + n * w \<le> LINES s * w" by (simp only: add_mult_distrib)
qed

lemma ptyScrollForward_cells:
  assumes ok: "screen_ok s" and reg: "region_ok s" and c1: "1 \<le> count"
    and row: "row < LINES s" and col: "column < COLS s"
  shows "segment_cell (ptyScrollForward count s) row column
           = (if scrollRegionTop s \<le> row \<and> row + scroll_count s count \<le> scrollRegionBottom s
              then segment_cell s (row + scroll_count s count) column
              else if scrollRegionTop s \<le> row \<and> row \<le> scrollRegionBottom s
              then blank_character s
              else segment_cell s row column)"
    and "fault (ptyScrollForward count s) = fault s"
    and "wtext (ptyScrollForward count s) = wtext (scrl (int (scroll_count s count)) s)"
proof -
  define n where "n = scroll_count s count"
  define t where "t = scrollRegionTop s"
  define b where "b = scrollRegionBottom s"
  define w where "w = COLS s"
  define m where "m = b + 1 - t - n"
  note q = scroll_quantities [OF ok reg n_def t_def b_def w_def m_def]
  have n1: "1 \<le> n" using c1 q(3) by (auto simp add: q(4))
  have rc: "wscroll s" "regtop s = t" "regbottom s = b"
    using reg by (simp_all add: region_ok_def t_def b_def)
  define s1 where "s1 = scrl (int n) s"
  define s2 where "s2 = moveRows (t + n) t m s1"
  define s3 where "s3 = fillRows (b + 1 - n) n s2"
  have sf: "ptyScrollForward count s = s3"
    by (simp only: ptyScrollForward_def Let_def t_def [symmetric] b_def [symmetric]
        region_facts(3,4) [OF ok reg, folded t_def b_def]
        q(4) [symmetric] q(5,6,7) to_int_small [OF q(8)] s1_def s2_def s3_def)
  have f1: "screen_frame s s1" unfolding s1_def by (rule frame_scrl)
  have f2: "screen_frame s1 s2" unfolding s2_def by (rule frame_moveRows)
  have f12: "screen_frame s s2" using f1 f2 by (rule screen_frame_trans)
  have ok2: "screen_ok s2" using f12 ok by (rule screen_ok_frame)
  have g1: "screenWidth s1 = w" "COLS s1 = w" "segmentSize s1 = LINES s * w"
    using f1 ok by (simp_all add: segmentSize_def screen_frame_fields w_def screen_ok_def)
  have c1s: "characters s1 = characters s" "fault s1 = fault s"
    by (simp_all add: s1_def scrl_def)
  note mv = moveRows_inside [OF g1 q(9) q(11) q(12), folded s2_def]
  have g2: "COLS s2 = w" "LINES s2 = LINES s"
    using f12 by (simp_all add: screen_frame_fields w_def)
  have r2: "b + 1 - n < LINES s2" using n1 q(2) by (simp add: g2)
  have n0: "0 < n" using n1 by simp
  note fl = fillRows_inside [OF ok2 g2(1) r2 n0 q(10) q(13) [folded g2(2)], folded s3_def]
  have y: "t \<le> b + 1 - n" "b + 1 - n \<le> b" "\<not> b + 1 - n + n \<le> b" "0 < int n"
    using q(1) n1 by linarith+
  have rd: "wtext s2 (b + 1 - n) 0 = wbkgd s"
    using y by (simp add: mv(3) s1_def scrl_def rc)
  have bl: "segmentCharacter s2 (wbkgd s) = blank_character s"
    using f12 by (simp add: segmentCharacter_frame blank_character_def)
  have sw: "screenWidth s3 = w" "screenWidth s = w"
    using screen_frame_trans [OF f12 frame_fillRows [OF ok2], of "b + 1 - n" n] ok
    by (simp_all add: s3_def screen_frame_fields w_def screen_ok_def)
  have colw: "column < w" using col by (simp add: w_def)
  have cell: "segment_cell s3 row column
                = (if b + 1 - n \<le> row \<and> row < b + 1 - n + n then blank_character s
                   else if t \<le> row \<and> row < t + m
                   then characters s ((t + n) * w + (row * w + column - t * w))
                   else characters s (row * w + column))"
    using bl [folded rd]
    by (simp add: segment_cell_def getScreenCharacter_def getScreenRow_def sw fl(1) mv(1)
        c1s address_in_rows [OF colw])
  have sc: "segment_cell s r c = characters s (r * w + c)" for r c
    by (simp add: segment_cell_def getScreenCharacter_def getScreenRow_def sw)
  have "segment_cell s3 row column
          = (if t \<le> row \<and> row + n \<le> b then segment_cell s (row + n) column
             else if t \<le> row \<and> row \<le> b then blank_character s
             else segment_cell s row column)"
  proof -
    consider (moved) "t \<le> row" "row + n \<le> b" | (filled) "t \<le> row" "row \<le> b" "b < row + n"
      | (above) "row < t" | (below) "b < row"
      by linarith
    then show ?thesis
    proof cases
      case moved
      then have 1: "\<not> (b + 1 - n \<le> row \<and> row < b + 1 - n + n)" "t \<le> row \<and> row < t + m"
        using q(1) by linarith+
      have "t + n + (row - t) = row + n" using moved by simp
      then have "(t + n) * w + (row * w + column - t * w) = (row + n) * w + column"
        using address_shift [OF moved(1), of "t + n" w column] by simp
      then show ?thesis
        using moved 1 by (simp add: cell sc)
    next
      case filled
      then have "b + 1 - n \<le> row \<and> row < b + 1 - n + n" using q(1) by linarith
      then show ?thesis using filled by (simp add: cell)
    next
      case above
      then have "\<not> t \<le> row" "\<not> b + 1 - n \<le> row"
        using q(1) by linarith+
      then show ?thesis by (simp add: cell sc)
    next
      case below
      then have "\<not> row \<le> b" "\<not> row + n \<le> b" "\<not> row < t + m" "\<not> row < b + 1 - n + n"
        using q(1) by linarith+
      then show ?thesis by (simp add: cell sc)
    qed
  qed
  then show "segment_cell (ptyScrollForward count s) row column
           = (if scrollRegionTop s \<le> row \<and> row + scroll_count s count \<le> scrollRegionBottom s
              then segment_cell s (row + scroll_count s count) column
              else if scrollRegionTop s \<le> row \<and> row \<le> scrollRegionBottom s
              then blank_character s
              else segment_cell s row column)"
    by (simp only: sf n_def t_def b_def)
  show "fault (ptyScrollForward count s) = fault s"
    by (simp add: sf fl(2) mv(2) c1s)
  show "wtext (ptyScrollForward count s) = wtext (scrl (int (scroll_count s count)) s)"
    by (simp add: sf fl(3) mv(3) s1_def n_def)
qed

lemma to_int_negated:
  assumes "1 \<le> n" and "n < 2147483648"
  shows "to_int (usub 0 n) = - int n"
proof -
  have "usub 0 n = 4294967296 - n"
    using assms by (simp add: usub_def u32_def)
  then show ?thesis using assms by (simp add: to_int_def u32_def)
qed

lemma ptyScrollBackward_cells:
  assumes ok: "screen_ok s" and reg: "region_ok s" and c1: "1 \<le> count"
    and row: "row < LINES s" and col: "column < COLS s"
  shows "segment_cell (ptyScrollBackward count s) row column
           = (if scrollRegionTop s + scroll_count s count \<le> row \<and> row \<le> scrollRegionBottom s
              then segment_cell s (row - scroll_count s count) column
              else if scrollRegionTop s \<le> row \<and> row \<le> scrollRegionBottom s
              then blank_character s
              else segment_cell s row column)"
    and "fault (ptyScrollBackward count s) = fault s"
    and "wtext (ptyScrollBackward count s) = wtext (scrl (- int (scroll_count s count)) s)"
proof -
  define n where "n = scroll_count s count"
  define t where "t = scrollRegionTop s"
  define b where "b = scrollRegionBottom s"
  define w where "w = COLS s"
  define m where "m = b + 1 - t - n"
  note q = scroll_quantities [OF ok reg n_def t_def b_def w_def m_def]
  have n1: "1 \<le> n" using c1 q(3) by (auto simp add: q(4))
  have rc: "wscroll s" "regtop s = t" "regbottom s = b"
    using reg by (simp_all add: region_ok_def t_def b_def)
  define s1 where "s1 = scrl (- int n) s"
  define s2 where "s2 = moveRows t (t + n) m s1"
  define s3 where "s3 = fillRows t n s2"
  have sf: "ptyScrollBackward count s = s3"
    by (simp only: ptyScrollBackward_def Let_def t_def [symmetric] b_def [symmetric]
        region_facts(3,4) [OF ok reg, folded t_def b_def]
        q(4) [symmetric] q(5,6,7) to_int_negated [OF n1 q(8)] s1_def s2_def s3_def)
  have f1: "screen_frame s s1" unfolding s1_def by (rule frame_scrl)
  have f2: "screen_frame s1 s2" unfolding s2_def by (rule frame_moveRows)
  have f12: "screen_frame s s2" using f1 f2 by (rule screen_frame_trans)
  have ok2: "screen_ok s2" using f12 ok by (rule screen_ok_frame)
  have g1: "screenWidth s1 = w" "COLS s1 = w" "segmentSize s1 = LINES s * w"
    using f1 ok by (simp_all add: segmentSize_def screen_frame_fields w_def screen_ok_def)
  have c1s: "characters s1 = characters s" "fault s1 = fault s"
    by (simp_all add: s1_def scrl_def)
  note mv = moveRows_inside [OF g1 q(9) q(12) q(11), folded s2_def]
  have g2: "COLS s2 = w" "LINES s2 = LINES s"
    using f12 by (simp_all add: screen_frame_fields w_def)
  have r2: "t < LINES s2" using q(2,3) by (simp add: g2)
  have n0: "0 < n" using n1 by simp
  note fl = fillRows_inside [OF ok2 g2(1) r2 n0 q(10) q(14) [folded g2(2)], folded s3_def]
  have y: "t \<le> b" "\<not> t + n \<le> t" "\<not> - int n = 0" "\<not> 0 < - int n"
    using q(3) n1 by linarith+
  have rd: "wtext s2 t 0 = wbkgd s"
    using y by (simp add: mv(3) s1_def scrl_def rc)
  have bl: "segmentCharacter s2 (wbkgd s) = blank_character s"
    using f12 by (simp add: segmentCharacter_frame blank_character_def)
  have sw: "screenWidth s3 = w" "screenWidth s = w"
    using screen_frame_trans [OF f12 frame_fillRows [OF ok2], of t n] ok
    by (simp_all add: s3_def screen_frame_fields w_def screen_ok_def)
  have colw: "column < w" using col by (simp add: w_def)
  have cell: "segment_cell s3 row column
                = (if t \<le> row \<and> row < t + n then blank_character s
                   else if t + n \<le> row \<and> row < t + n + m
                   then characters s (t * w + (row * w + column - (t + n) * w))
                   else characters s (row * w + column))"
    using bl [folded rd]
    by (simp add: segment_cell_def getScreenCharacter_def getScreenRow_def sw fl(1) mv(1)
        c1s address_in_rows [OF colw])
  have sc: "segment_cell s r c = characters s (r * w + c)" for r c
    by (simp add: segment_cell_def getScreenCharacter_def getScreenRow_def sw)
  have "segment_cell s3 row column
          = (if t + n \<le> row \<and> row \<le> b then segment_cell s (row - n) column
             else if t \<le> row \<and> row \<le> b then blank_character s
             else segment_cell s row column)"
  proof -
    consider (moved) "t + n \<le> row" "row \<le> b" | (filled) "t \<le> row" "row < t + n" "row \<le> b"
      | (above) "row < t" | (below) "b < row"
      using q(1) by linarith
    then show ?thesis
    proof cases
      case moved
      then have 1: "\<not> (t \<le> row \<and> row < t + n)" "t + n \<le> row \<and> row < t + n + m"
        using q(1) by linarith+
      have "t + (row - (t + n)) = row - n" using moved by simp
      then have "t * w + (row * w + column - (t + n) * w) = (row - n) * w + column"
        using address_shift [OF moved(1), of t w column] by simp
      then show ?thesis
        using moved 1 by (simp add: cell sc)
    next
      case filled
      then have "\<not> t + n \<le> row" by simp
      then show ?thesis using filled by (simp add: cell)
    next
      case above
      then have "\<not> t \<le> row" "\<not> t + n \<le> row"
        by linarith+
      then show ?thesis by (simp add: cell sc)
    next
      case below
      then have "\<not> row \<le> b" "\<not> row < t + n + m" "\<not> row < t + n"
        using q(1) by linarith+
      then show ?thesis by (simp add: cell sc)
    qed
  qed
  then show "segment_cell (ptyScrollBackward count s) row column
           = (if scrollRegionTop s + scroll_count s count \<le> row \<and> row \<le> scrollRegionBottom s
              then segment_cell s (row - scroll_count s count) column
              else if scrollRegionTop s \<le> row \<and> row \<le> scrollRegionBottom s
              then blank_character s
              else segment_cell s row column)"
    by (simp only: sf n_def t_def b_def)
  show "fault (ptyScrollBackward count s) = fault s"
    by (simp add: sf fl(2) mv(2) c1s)
  show "wtext (ptyScrollBackward count s) = wtext (scrl (- int (scroll_count s count)) s)"
    by (simp add: sf fl(3) mv(3) s1_def n_def)
qed


section \<open>Inserting and deleting characters\<close>

lemma ptrdiff_size_in_range:
  assumes "q \<le> p" and "p < 2147483648"
  shows "ptrdiff_size p q = p - q"
proof -
  have 1: "0 \<le> int p - int q" using assms by simp
  have 2: "int p - int q < 18446744073709551616" using assms by linarith
  have "(int p - int q) mod 18446744073709551616 = int p - int q"
    using 1 2 by (rule mod_pos_pos_trivial)
  then have "ptrdiff_size p q = nat (int p - int q)"
    by (simp only: ptrdiff_size_def)
  also have "\<dots> = p - q" by linarith
  finally show ?thesis .
qed

lemma delch_loop_wtext:
  "x < COLS s \<Longrightarrow>
   wtext (delch_loop n s) y x
     = (if y = cury s \<and> curx s \<le> x
        then (if x + n < COLS s then wtext s y (x + n) else wbkgd s)
        else wtext s y x)"
proof (induction n arbitrary: s)
  case 0
  then show ?case by simp
next
  case (Suc n)
  have "x < COLS (delch s)" using Suc.prems by (simp add: delch_def)
  then show ?case
    using Suc.IH [of "delch s"] by (simp add: delch_def)
qed

lemma insch_loop_cells:
  "characters (insch_loop n s) = characters s \<and> fault (insch_loop n s) = fault s"
  by (induction n arbitrary: s) (simp_all add: insch_def)

lemma delch_loop_cells:
  "characters (delch_loop n s) = characters s \<and> fault (delch_loop n s) = fault s"
  by (induction n arbitrary: s) (simp_all add: delch_def)

lemma fillCharacters_inside:
  assumes ok: "screen_ok s" and w: "COLS s = w" and r: "row < LINES s" and c: "column < w"
    and pos: "0 < count" and dst: "row * w + column + count \<le> LINES s * w"
  shows "characters (fillCharacters row column count s)
           = (\<lambda>i. if row * w + column \<le> i \<and> i < row * w + column + count
                  then segmentCharacter s (wtext s row column) else characters s i)"
    and "fault (fillCharacters row column count s) = fault s"
    and "wtext (fillCharacters row column count s) = wtext s"
proof -
  have g: "screenHeight s = LINES s" "screenWidth s = w"
    using ok w by (simp_all add: screen_ok_def)
  have c0: "column < COLS s" using c w by simp
  have st: "snd (setCharacter row column s)
              = s\<lparr>characters := (characters s)(row * w + column
                     := segmentCharacter s (wtext s row column))\<rparr>"
    and lc: "fst (fst (setCharacter row column s)) = row * w + column"
    using setCharacter_inside [OF ok r c0] by (simp_all add: w)
  define s1 where "s1 = snd (setCharacter row column s)"
  have sz: "segmentSize s1 = LINES s * w"
    by (simp add: s1_def st segmentSize_def g)
  have fr: "fillCharacters row column count s
              = propagateScreenCharacter (row * w + column) (row * w + column + count) s1"
    by (simp add: fillCharacters_def Let_def lc s1_def)
  have pr: "propagateScreenCharacter (row * w + column) (row * w + column + count) s1
              = s1\<lparr>characters := (\<lambda>i. if row * w + column \<le> i \<and> i < row * w + column + count
                                       then characters s1 (row * w + column) else characters s1 i)\<rparr>"
    using pos dst by (simp add: propagateScreenCharacter_def sz)
  have c1: "characters s1 = (characters s)(row * w + column := segmentCharacter s (wtext s row column))"
    and f1: "fault s1 = fault s" and w1: "wtext s1 = wtext s"
    by (simp_all add: s1_def st)
  show "characters (fillCharacters row column count s)
           = (\<lambda>i. if row * w + column \<le> i \<and> i < row * w + column + count
                  then segmentCharacter s (wtext s row column) else characters s i)"
  proof (rule ext)
    fix i
    show "characters (fillCharacters row column count s) i
            = (if row * w + column \<le> i \<and> i < row * w + column + count
               then segmentCharacter s (wtext s row column) else characters s i)"
      using pos by (simp add: fr pr c1)
  qed
  show "fault (fillCharacters row column count s) = fault s"
    by (simp add: fr pr f1)
  show "wtext (fillCharacters row column count s) = wtext s"
    by (simp add: fr pr w1)
qed

text \<open>
  The addresses of a row in a running session: \<open>a\<close> is the address of the cursor's
  cell, \<open>e\<close> the address one past the end of the cursor's row, \<open>k\<close> the number of
  cells from the cursor to the end of the row that survive a shift by \<open>n\<close>.
\<close>

lemma row_quantities:
  assumes ok: "screen_ok s" and fit: "cursorColumn s + n \<le> COLS s"
    and a: "a = cursorRow s * COLS s + cursorColumn s"
    and e: "e = cursorRow s * COLS s + COLS s"
    and k: "k = COLS s - cursorColumn s - n"
  shows "getCurrentCharacter s = (a, e)" and "a + n + k = e" and "e \<le> LINES s * COLS s"
    and "e < 2147483648" and "\<not> a + n > e" and "usub (COLS s) n = COLS s - n"
    and "cursorRow s * COLS s + (COLS s - n) + n = e"
proof -
  have g: "screenWidth s = COLS s" "cursorRow s < LINES s" "cursorColumn s < COLS s"
    "LINES s * COLS s < 2147483648"
    using ok by (simp_all add: screen_ok_def)
  show "getCurrentCharacter s = (a, e)"
    by (simp add: getCurrentCharacter_def getScreenCharacter_def getScreenRow_def g a e)
  show 1: "a + n + k = e" using fit by (simp add: a e k)
  have "Suc (cursorRow s) \<le> LINES s" using g by simp
  then have "Suc (cursorRow s) * COLS s \<le> LINES s * COLS s" by (rule rows_le_cells)
  then show 2: "e \<le> LINES s * COLS s" by (simp add: e)
  show "e < 2147483648" using 2 g by linarith
  show "\<not> a + n > e" using 1 by linarith
  have "COLS s < 2147483648" using ok by (rule screen_ok_bounds)
  then show "usub (COLS s) n = COLS s - n" using fit by (intro usub_in_range) simp_all
  show "cursorRow s * COLS s + (COLS s - n) + n = e" using fit by (simp add: e)
qed

lemma ptyInsertCharacters_characters:
  assumes ok: "screen_ok s" and n1: "1 \<le> n" and fit: "cursorColumn s + n \<le> COLS s"
    and a: "a = cursorRow s * COLS s + cursorColumn s"
    and e: "e = cursorRow s * COLS s + COLS s"
  shows "\<not> (a \<le> i \<and> i < a + n) \<Longrightarrow>
         characters (ptyInsertCharacters n s) i
           = (if a + n \<le> i \<and> i < e then characters s (i - n) else characters s i)"
    and "fault (ptyInsertCharacters n s) = fault s"
proof -
  define k where "k = COLS s - cursorColumn s - n"
  note q = row_quantities [OF ok fit a e k_def]
  have pd: "ptrdiff_size e (a + n) = k"
    using q(2) q(4) by (simp add: ptrdiff_size_in_range)
  define s1 where "s1 = moveScreenCharacters (a + n) a k s"
  define s2 where "s2 = insch_loop n s1"
  have ins: "ptyInsertCharacters n s = fillCharacters (cursorRow s2) (cursorColumn s2) n s2"
    using q(5) by (simp add: ptyInsertCharacters_def Let_def q(1) pd s1_def s2_def)
  have f1: "screen_frame s s1" unfolding s1_def by (rule frame_moveScreenCharacters)
  have f2: "screen_frame s1 s2" unfolding s2_def by (rule frame_insch_loop)
  have f12: "screen_frame s s2" using f1 f2 by (rule screen_frame_trans)
  have ok2: "screen_ok s2" using f12 ok by (rule screen_ok_frame)
  have same: "cursorRow s2 = cursorRow s" "cursorColumn s2 = cursorColumn s" "COLS s2 = COLS s"
    "LINES s2 = LINES s"
    using f12 by (simp_all add: screen_frame_fields)
  have g: "cursorRow s < LINES s" "cursorColumn s < COLS s"
    "screenHeight s = LINES s" "screenWidth s = COLS s"
    using ok by (simp_all add: screen_ok_def)
  have sz: "segmentSize s = LINES s * COLS s" by (simp add: segmentSize_def g)
  have c1: "characters s1 = (\<lambda>i. if a + n \<le> i \<and> i < a + n + k
                                  then characters s (a + (i - (a + n))) else characters s i)"
    and fl1: "fault s1 = fault s"
    using q(2) q(3) by (auto simp add: s1_def moveScreenCharacters_def sz fun_eq_iff)
  have c2: "characters s2 = characters s1" and fl2: "fault s2 = fault s1"
    by (simp_all add: s2_def insch_loop_cells)
  have n0: "0 < n" using n1 by simp
  have dst: "cursorRow s * COLS s + cursorColumn s + n \<le> LINES s2 * COLS s"
    using q(2) q(3) by (simp add: same a [symmetric])
  have r2: "cursorRow s < LINES s2" using g by (simp add: same)
  note fl = fillCharacters_inside [OF ok2 same(3) r2 g(2) n0 dst, folded a]
  have ins2: "ptyInsertCharacters n s = fillCharacters (cursorRow s) (cursorColumn s) n s2"
    by (simp add: ins same)
  show "fault (ptyInsertCharacters n s) = fault s"
    by (simp add: ins2 fl(2) fl2 fl1)
  assume out: "\<not> (a \<le> i \<and> i < a + n)"
  have "characters (ptyInsertCharacters n s) i = characters s1 i"
    using out by (auto simp add: ins2 fl(1) c2)
  also have "\<dots> = (if a + n \<le> i \<and> i < e then characters s (i - n) else characters s i)"
    using q(2) by (auto simp add: c1)
  finally show "characters (ptyInsertCharacters n s) i
           = (if a + n \<le> i \<and> i < e then characters s (i - n) else characters s i)" .
qed

lemma ptyDeleteCharacters_characters:
  assumes ok: "screen_ok s" and n1: "1 \<le> n" and fit: "cursorColumn s + n \<le> COLS s"
    and a: "a = cursorRow s * COLS s + cursorColumn s"
    and e: "e = cursorRow s * COLS s + COLS s"
  shows "characters (ptyDeleteCharacters n s) i
           = (if e - n \<le> i \<and> i < e then blank_character s
              else if a \<le> i \<and> i < e - n then characters s (i + n)
              else characters s i)"
    and "fault (ptyDeleteCharacters n s) = fault s"
proof -
  define k where "k = COLS s - cursorColumn s - n"
  note q = row_quantities [OF ok fit a e k_def]
  have pd: "ptrdiff_size e (a + n) = k"
    using q(2) q(4) by (simp add: ptrdiff_size_in_range)
  define s1 where "s1 = (if a + n < e then moveScreenCharacters a (a + n) k s else s)"
  define s2 where "s2 = delch_loop n s1"
  have del: "ptyDeleteCharacters n s = fillCharacters (cursorRow s2) (usub (COLS s2) n) n s2"
    using q(5) by (simp add: ptyDeleteCharacters_def Let_def q(1) pd s1_def s2_def)
  have f1: "screen_frame s s1" unfolding s1_def by (simp add: frame_moveScreenCharacters)
  have f2: "screen_frame s1 s2" unfolding s2_def by (rule frame_delch_loop)
  have f12: "screen_frame s s2" using f1 f2 by (rule screen_frame_trans)
  have ok2: "screen_ok s2" using f12 ok by (rule screen_ok_frame)
  have same: "cursorRow s2 = cursorRow s" "cursorColumn s2 = cursorColumn s" "COLS s2 = COLS s"
    "LINES s2 = LINES s"
    using f12 by (simp_all add: screen_frame_fields)
  have same1: "cury s1 = cury s" "curx s1 = curx s" "COLS s1 = COLS s" "wbkgd s1 = wbkgd s"
    using f1 by (simp_all add: screen_frame_fields)
  have g: "cursorRow s < LINES s" "cursorColumn s < COLS s"
    "screenHeight s = LINES s" "screenWidth s = COLS s"
    "cursorRow s = cury s" "cursorColumn s = curx s"
    using ok by (simp_all add: screen_ok_def)
  have sz: "segmentSize s = LINES s * COLS s" by (simp add: segmentSize_def g)
  have c1: "characters s1 = (\<lambda>i. if a \<le> i \<and> i < a + k
                                  then characters s (a + n + (i - a)) else characters s i)"
    and fl1: "fault s1 = fault s"
    using q(2) q(3) by (auto simp add: s1_def moveScreenCharacters_def sz fun_eq_iff)
  have c2: "characters s2 = characters s1" and fl2: "fault s2 = fault s1"
    by (simp_all add: s2_def delch_loop_cells)
  have n0: "0 < n" using n1 by simp
  have cn: "COLS s - n < COLS s" using n1 g by linarith
  have dst: "cursorRow s * COLS s + (COLS s - n) + n \<le> LINES s2 * COLS s"
    using q(3) by (simp only: q(7) same)
  have r2: "cursorRow s < LINES s2" using g by (simp add: same)
  note fl = fillCharacters_inside [OF ok2 same(3) r2 cn n0 dst]
  have del2: "ptyDeleteCharacters n s = fillCharacters (cursorRow s) (COLS s - n) n s2"
    by (simp add: del same q(6))
  have x: "COLS s - n < COLS s1" "curx s \<le> COLS s - n" "\<not> COLS s - n + n < COLS s"
    using cn fit g by (simp_all add: same1)
  have rd: "wtext s2 (cursorRow s) (COLS s - n) = wbkgd s"
    using x(2,3) by (simp add: s2_def delch_loop_wtext [OF x(1)] same1 g)
  have bl: "segmentCharacter s2 (wbkgd s) = blank_character s"
    using f12 by (simp add: segmentCharacter_frame blank_character_def)
  have en: "cursorRow s * COLS s + (COLS s - n) = e - n" "e - n + n = e" "a + k = e - n"
    using q(2) q(7) by linarith+
  show "fault (ptyDeleteCharacters n s) = fault s"
    by (simp add: del2 fl(2) fl2 fl1)
  have "characters (ptyDeleteCharacters n s) i
          = (if e - n \<le> i \<and> i < e then blank_character s else characters s1 i)"
    by (simp add: del2 fl(1) rd bl c2 en)
  also have "\<dots> = (if e - n \<le> i \<and> i < e then blank_character s
              else if a \<le> i \<and> i < e - n then characters s (i + n)
              else characters s i)"
    by (auto simp add: c1 en add.commute add.left_commute)
  finally show "characters (ptyDeleteCharacters n s) i
           = (if e - n \<le> i \<and> i < e then blank_character s
              else if a \<le> i \<and> i < e - n then characters s (i + n)
              else characters s i)" .
qed

text \<open>
  Inserting \<open>n\<close> characters and deleting \<open>n\<close> characters at the same cursor, with
  \<open>n\<close> at least one and at most the columns from the cursor to the end of the row: the
  last \<open>n\<close> cells of the cursor's row become blank and every other cell is as before.
\<close>

lemma insert_delete_characters_cells:
  assumes ok: "screen_ok s" and n1: "1 \<le> n" and fit: "cursorColumn s + n \<le> COLS s"
    and row: "row < LINES s" and col: "column < COLS s"
  shows "segment_cell (ptyDeleteCharacters n (ptyInsertCharacters n s)) row column
           = (if row = cursorRow s \<and> COLS s - n \<le> column then blank_character s
              else segment_cell s row column)"
    and "fault (ptyDeleteCharacters n (ptyInsertCharacters n s)) = fault s"
proof -
  let ?i = "ptyInsertCharacters n s"
  define a where "a = cursorRow s * COLS s + cursorColumn s"
  define e where "e = cursorRow s * COLS s + COLS s"
  define k where "k = COLS s - cursorColumn s - n"
  note q = row_quantities [OF ok fit a_def e_def k_def]
  have fr: "screen_frame s ?i" using ok by (rule frame_ptyInsertCharacters)
  have oki: "screen_ok ?i" using fr ok by (rule screen_ok_frame)
  have same: "cursorRow ?i = cursorRow s" "cursorColumn ?i = cursorColumn s" "COLS ?i = COLS s"
    "screenWidth ?i = screenWidth s"
    using fr by (simp_all add: screen_frame_fields)
  have bl: "blank_character ?i = blank_character s"
    using fr by (simp add: blank_character_def segmentCharacter_frame screen_frame_fields)
  have fiti: "cursorColumn ?i + n \<le> COLS ?i" using fit by (simp add: same)
  have ai: "a = cursorRow ?i * COLS ?i + cursorColumn ?i"
    and ei: "e = cursorRow ?i * COLS ?i + COLS ?i"
    by (simp_all add: a_def e_def same)
  note d = ptyDeleteCharacters_characters [OF oki n1 fiti ai ei]
  note ins = ptyInsertCharacters_characters [OF ok n1 fit a_def e_def]
  show "fault (ptyDeleteCharacters n ?i) = fault s"
    by (simp add: d(2) ins(2))
  have all: "characters (ptyDeleteCharacters n ?i) i
          = (if e - n \<le> i \<and> i < e then blank_character s else characters s i)" for i
  proof -
    consider (blank) "e - n \<le> i" "i < e" | (kept) "a \<le> i" "i < e - n" | (left) "i < a"
      | (right) "e \<le> i"
      by linarith
    then show ?thesis
    proof cases
      case blank
      then show ?thesis by (simp add: d(1) bl)
    next
      case kept
      then have 1: "\<not> (a \<le> i + n \<and> i + n < a + n)" by linarith
      have 2: "i + n < e" "\<not> e - n \<le> i"
        using kept by linarith+
      show ?thesis
        using kept 2 by (simp add: d(1) ins(1) [OF 1])
    next
      case left
      then have 1: "\<not> (a \<le> i \<and> i < a + n)" by linarith
      have 2: "\<not> a \<le> i" "\<not> a + n \<le> i" "\<not> e - n \<le> i"
        using left q(2) by linarith+
      show ?thesis
        using 2 by (simp add: d(1) ins(1) [OF 1])
    next
      case right
      then have 1: "\<not> (a \<le> i \<and> i < a + n)" using q(2) by linarith
      have 2: "\<not> i < e" "\<not> i < a + n" "\<not> i < e - n"
        using right q(2) by linarith+
      show ?thesis
        using 2 by (simp add: d(1) ins(1) [OF 1])
    qed
  qed
  have w: "screenWidth s = COLS s" "screenWidth (ptyDeleteCharacters n ?i) = COLS s"
    using ok screen_frame_trans [OF fr frame_ptyDeleteCharacters [OF oki], of n]
    by (simp_all add: screen_ok_def screen_frame_fields)
  have rng: "(e - n \<le> row * COLS s + column \<and> row * COLS s + column < e)
               = (row = cursorRow s \<and> COLS s - n \<le> column)"
  proof -
    have r: "(cursorRow s * COLS s \<le> row * COLS s + column
               \<and> row * COLS s + column < cursorRow s * COLS s + 1 * COLS s)
             = (cursorRow s \<le> row \<and> row < cursorRow s + 1)"
      using col by (rule address_in_rows)
    have en: "e - n = cursorRow s * COLS s + (COLS s - n)" using q(7) by linarith
    show ?thesis
    proof (cases "row = cursorRow s")
      case True
      show ?thesis
        unfolding True en unfolding e_def using col by simp
    next
      case False
      then have "\<not> (cursorRow s * COLS s \<le> row * COLS s + column
               \<and> row * COLS s + column < cursorRow s * COLS s + 1 * COLS s)"
        using r by simp
      then have "\<not> (e - n \<le> row * COLS s + column \<and> row * COLS s + column < e)"
        unfolding en unfolding e_def by simp
      then show ?thesis using False by simp
    qed
  qed
  show "segment_cell (ptyDeleteCharacters n ?i) row column
           = (if row = cursorRow s \<and> COLS s - n \<le> column then blank_character s
              else segment_cell s row column)"
    using rng
    by (simp add: segment_cell_def getScreenCharacter_def getScreenRow_def w all)
qed

lemma screen_ok_numbered_example: "screen_ok numbered_example"
  by (simp add: screen_ok_def numbered_example_def example_def)

lemma blank_character_numbered_example:
  "blank_character numbered_example
     = \<lparr>ctext = 32, foreground = \<lparr>red = 0xAA, green = 0xAA, blue = 0xAA\<rparr>,
        background = \<lparr>red = 0, green = 0, blue = 0\<rparr>, blink = False, underline = False\<rparr>"
  by (simp add: blank_character_def segmentCharacter_def Let_def pairColors_def pair_content_def setColor_def
      numbered_example_def example_def blank_cell_def
      A_REVERSE_def A_BOLD_def A_STANDOUT_def A_DIM_def A_BLINK_def A_UNDERLINE_def
      COLOR_RED_def COLOR_GREEN_def COLOR_BLUE_def)

lemma segment_cell_numbered_example:
  "segment_cell numbered_example row column
     = \<lparr>ctext = word_of_nat (row * 80 + column),
        foreground = \<lparr>red = 0xAA, green = 0xAA, blue = 0xAA\<rparr>,
        background = \<lparr>red = 0, green = 0, blue = 0\<rparr>, blink = False, underline = False\<rparr>"
  by (simp add: segment_cell_def getScreenCharacter_def getScreenRow_def
      numbered_example_def example_def)

text \<open>
  C2, as the code has it. In a running session, for a count \<open>n\<close> of at least one and
  at most the number of columns from the cursor to the end of its row,
  \<open>ptyInsertCharacters n\<close> followed by \<open>ptyDeleteCharacters n\<close> leaves every cell of
  the segment as it was except the last \<open>n\<close> cells of the cursor's row, which hold the
  blank cell: what the insertion pushed over the end of the row is lost. The cursor
  fields and the fault flag are unchanged.
\<close>

theorem insert_delete_characters_round_trip:
  assumes ok: "screen_ok s" and n1: "1 \<le> n" and fit: "cursorColumn s + n \<le> COLS s"
    and row: "row < LINES s" and col: "column < COLS s"
  shows "segment_cell (ptyDeleteCharacters n (ptyInsertCharacters n s)) row column
           = (if row = cursorRow s \<and> COLS s - n \<le> column then blank_character s
              else segment_cell s row column)
       \<and> fault (ptyDeleteCharacters n (ptyInsertCharacters n s)) = fault s
       \<and> cursorRow (ptyDeleteCharacters n (ptyInsertCharacters n s)) = cursorRow s
       \<and> cursorColumn (ptyDeleteCharacters n (ptyInsertCharacters n s)) = cursorColumn s"
proof -
  have f1: "screen_frame s (ptyInsertCharacters n s)"
    using ok by (rule frame_ptyInsertCharacters)
  then have "screen_ok (ptyInsertCharacters n s)" using ok by (rule screen_ok_frame)
  then have "screen_frame (ptyInsertCharacters n s) (ptyDeleteCharacters n (ptyInsertCharacters n s))"
    by (rule frame_ptyDeleteCharacters)
  with f1 have "screen_frame s (ptyDeleteCharacters n (ptyInsertCharacters n s))"
    by (rule screen_frame_trans)
  then show ?thesis
    using insert_delete_characters_cells [OF ok n1 fit row col]
    by (simp add: screen_frame_fields)
qed

theorem insert_delete_characters_round_trip_witness:
  "screen_ok numbered_example
   \<and> (1::nat) \<le> 1 \<and> cursorColumn numbered_example + 1 \<le> COLS numbered_example
   \<and> (0::nat) < LINES numbered_example \<and> (5::nat) < COLS numbered_example
   \<and> (79::nat) < COLS numbered_example
   \<and> ctext (segment_cell (ptyDeleteCharacters 1 (ptyInsertCharacters 1 numbered_example)) 0 5) = 5
   \<and> ctext (segment_cell (ptyDeleteCharacters 1 (ptyInsertCharacters 1 numbered_example)) 0 79) = 32
   \<and> cursorColumn (ptyDeleteCharacters 1 (ptyInsertCharacters 1 numbered_example)) = 0"
proof -
  have n1: "(1::nat) \<le> 1" by simp
  have fit: "cursorColumn numbered_example + 1 \<le> COLS numbered_example"
    and row: "(0::nat) < LINES numbered_example"
    and c5: "(5::nat) < COLS numbered_example" and c79: "(79::nat) < COLS numbered_example"
    by (simp_all add: numbered_example_def example_def)
  have v: "cursorRow numbered_example = 0" "cursorColumn numbered_example = 0"
    "COLS numbered_example = 80"
    by (simp_all add: numbered_example_def example_def)
  note a = insert_delete_characters_round_trip [OF screen_ok_numbered_example n1 fit row c5]
  note b = insert_delete_characters_round_trip [OF screen_ok_numbered_example n1 fit row c79]
  have 1: "ctext (segment_cell (ptyDeleteCharacters 1 (ptyInsertCharacters 1 numbered_example)) 0 5) = 5"
    using a by (simp add: v segment_cell_numbered_example)
  have 2: "ctext (segment_cell (ptyDeleteCharacters 1 (ptyInsertCharacters 1 numbered_example)) 0 79) = 32"
    using b by (simp add: v blank_character_numbered_example)
  have 3: "cursorColumn (ptyDeleteCharacters 1 (ptyInsertCharacters 1 numbered_example)) = 0"
    using a by (simp add: v)
  show ?thesis
    by (intro conjI) (fact screen_ok_numbered_example n1 fit row c5 c79 1 2 3)+
qed

text \<open>
  C2, as the claim states it, fails on the numbered example: with the cursor at the
  origin and one column inserted and deleted, the last cell of the row no longer holds
  what it held.
\<close>

theorem insert_delete_characters_round_trip_counterexample:
  "cursorColumn numbered_example + 1 \<le> COLS numbered_example
   \<and> segment_cell (ptyDeleteCharacters 1 (ptyInsertCharacters 1 numbered_example))
         (cursorRow numbered_example) 79
       \<noteq> segment_cell numbered_example (cursorRow numbered_example) 79"
proof -
  have n1: "(1::nat) \<le> 1" by simp
  have fit: "cursorColumn numbered_example + 1 \<le> COLS numbered_example"
    and row: "(0::nat) < LINES numbered_example"
    and c79: "(79::nat) < COLS numbered_example"
    by (simp_all add: numbered_example_def example_def)
  have v: "cursorRow numbered_example = 0" "COLS numbered_example = 80"
    by (simp_all add: numbered_example_def example_def)
  have "segment_cell (ptyDeleteCharacters 1 (ptyInsertCharacters 1 numbered_example)) 0 79
          = blank_character numbered_example"
    using insert_delete_characters_cells(1) [OF screen_ok_numbered_example n1 fit row c79]
    by (simp add: v)
  then have "segment_cell (ptyDeleteCharacters 1 (ptyInsertCharacters 1 numbered_example)) 0 79
              \<noteq> segment_cell numbered_example 0 79"
    by (simp add: blank_character_numbered_example segment_cell_numbered_example)
  then show ?thesis using fit by (simp add: v)
qed

section \<open>A scroll by no rows\<close>

text \<open>
  \<open>fillCharacters\<close> stores the cell at its position before it fills, also when the
  count is zero. \<open>ptyScrollForward\<close> with the count zero therefore stores a cell at
  column 0 of the row below the scroll region; when the region ends at the last row of
  the window that cell lies outside the segment. \<open>ptyScrollBackward\<close> with the count
  zero stores the cell at column 0 of the top row of the region.
\<close>

lemma ptyScrollForward_zero_outside:
  assumes ok: "screen_ok s" and reg: "region_ok s" and last: "scrollRegionBottom s + 1 = LINES s"
  shows "fault (ptyScrollForward 0 s)"
proof -
  have lim: "LINES s < 2147483648" using ok by (rule screen_ok_bounds)
  have g: "screenHeight s = LINES s" "screenWidth s = COLS s" "cursorRow s < LINES s"
    using ok by (simp_all add: screen_ok_def)
  have r: "scrollRegionTop s \<le> scrollRegionBottom s"
    using reg by (simp add: region_ok_def)
  have u: "u32 (scrollRegionBottom s + 1) = LINES s" "u32 (scrollRegionTop s + 0) = scrollRegionTop s"
    "usub (LINES s) 0 = LINES s" "to_int 0 = 0"
    using lim r last by (simp_all add: usub_in_range)
  have sf: "ptyScrollForward 0 s = fillCharacters (LINES s) 0 0 s"
    using u by (simp add: ptyScrollForward_def Let_def scrl_def moveRows_def fillRows_def)
  have mv: "LINES s \<noteq> cursorRow s" using g by simp
  have st: "snd (setCharacter (LINES s) 0 s) = s\<lparr>fault := True\<rparr>"
    and lc: "fst (fst (setCharacter (LINES s) 0 s)) = LINES s * COLS s"
    using mv
    by (simp_all add: setCharacter_def Let_def ptySetCursorPosition_there_and_back [OF ok]
        getScreenCharacter_def getScreenRow_def storeCharacter_def segmentSize_def g)
  show ?thesis
    by (simp add: sf fillCharacters_def Let_def st lc propagateScreenCharacter_def)
qed



lemma region_ok_example: "region_ok example"
  by (simp add: region_ok_def example_def)

text \<open>
  C4 at the count zero. In the example session, whose scroll region is the whole
  window, \<open>ptyScrollForward 0\<close> stores a cell outside the segment.
\<close>

theorem ptyScrollForward_zero_example:
  "screen_ok example \<and> region_ok example \<and> \<not> fault example
   \<and> scroll_count example 0 = 0 \<and> fault (ptyScrollForward 0 example)"
proof -
  have "scrollRegionBottom example + 1 = LINES example" by (simp add: example_def)
  then have "fault (ptyScrollForward 0 example)"
    by (rule ptyScrollForward_zero_outside [OF screen_ok_example region_ok_example])
  moreover have "\<not> fault example" "scroll_count example 0 = 0"
    by (simp_all add: example_def scroll_count_def)
  ultimately show ?thesis using screen_ok_example region_ok_example by blast
qed

section \<open>The example sessions mirror their screens\<close>

lemma mirrored_example: "mirrored example"
  by (simp add: mirrored_def segment_cell_def getScreenCharacter_def getScreenRow_def
      segmentCharacter_def Let_def pairColors_def pair_content_def setColor_def example_def blank_cell_def
      A_REVERSE_def A_BOLD_def A_STANDOUT_def A_DIM_def A_BLINK_def A_UNDERLINE_def
      COLOR_RED_def COLOR_GREEN_def COLOR_BLUE_def)


section \<open>Deleting no characters\<close>

text \<open>
  \<open>ptyDeleteCharacters\<close> with the count zero fills from column \<open>COLS\<close> of the cursor's
  row: the cursor cannot be moved there, so the cell read is the one under the cursor,
  and it is stored at column 0 of the next row.
\<close>

lemma moveScreenCharacters_same:
  assumes "p + count \<le> segmentSize s"
  shows "moveScreenCharacters p p count s = s"
proof -
  have "(\<lambda>i. if p \<le> i \<and> i < p + count then characters s (p + (i - p)) else characters s i)
          = characters s"
    by (rule ext) simp
  then have "s\<lparr>characters := (\<lambda>i. if p \<le> i \<and> i < p + count
                                   then characters s (p + (i - p)) else characters s i)\<rparr> = s"
    by simp
  then show ?thesis using assms by (simp add: moveScreenCharacters_def)
qed

lemma ptyDeleteCharacters_zero_example:
  "ctext (segment_cell numbered_example 1 0) = 80
   \<and> ctext (segment_cell (ptyDeleteCharacters 0 numbered_example) 1 0) = 0"
proof -
  have v: "cursorRow numbered_example = 0" "cursorColumn numbered_example = 0"
    "COLS numbered_example = 80" "LINES numbered_example = 24"
    "screenHeight numbered_example = 24" "screenWidth numbered_example = 80"
    "cury numbered_example = 0" "curx numbered_example = 0"
    by (simp_all add: numbered_example_def example_def)
  have mv: "ptySetCursorPosition 0 80 numbered_example = numbered_example"
    by (simp add: ptySetCursorPosition_def move_def storeCursorPosition_def getcury_def
        getcurx_def numbered_example_def example_def)
  have mb: "ptySetCursorPosition 0 0 numbered_example = numbered_example"
    by (simp add: ptySetCursorPosition_def move_def storeCursorPosition_def getcury_def
        getcurx_def numbered_example_def example_def)
  have st: "snd (setCharacter 0 80 numbered_example)
              = numbered_example\<lparr>characters := (characters numbered_example)
                   (80 := segmentCharacter numbered_example (wtext numbered_example 0 0))\<rparr>"
    and lc: "fst (fst (setCharacter 0 80 numbered_example)) = 80"
    by (simp_all add: setCharacter_def Let_def v mv mb in_wch_def getScreenCharacter_def
        getScreenRow_def storeCharacter_def segmentSize_def)
  have mm: "moveScreenCharacters 0 0 80 numbered_example = numbered_example"
    by (rule moveScreenCharacters_same) (simp add: segmentSize_def v)
  have pd: "ptrdiff_size 80 0 = 80" "usub 80 0 = 80"
    by (simp_all add: ptrdiff_size_def usub_def u32_def)
  have dz: "ptyDeleteCharacters 0 numbered_example = fillCharacters 0 80 0 numbered_example"
    by (simp add: ptyDeleteCharacters_def Let_def getCurrentCharacter_def getScreenCharacter_def
        getScreenRow_def v pd mm)
  have "characters (ptyDeleteCharacters 0 numbered_example) 80
          = segmentCharacter numbered_example (wtext numbered_example 0 0)"
    by (simp add: dz fillCharacters_def Let_def st lc propagateScreenCharacter_def)
  moreover have "screenWidth (ptyDeleteCharacters 0 numbered_example) = 80"
    by (simp add: dz fillCharacters_def Let_def st lc propagateScreenCharacter_def v)
  moreover have "chars0 (wtext numbered_example 0 0) = 0"
    by (simp add: numbered_example_def example_def)
  ultimately have "ctext (segment_cell (ptyDeleteCharacters 0 numbered_example) 1 0) = 0"
    by (simp add: segment_cell_def getScreenCharacter_def getScreenRow_def
        segmentCharacter_def Let_def)
  then show ?thesis by (simp add: segment_cell_numbered_example)
qed

section \<open>Moving the cursor by an amount that overflows\<close>

text \<open>
  C7 at an amount whose sum with the cursor position overflows 32 bits. With the
  cursor on row 5, respectively column 5, of the example session and the amount
  \<open>4294967295\<close>, \<open>ptyMoveCursorDown\<close> moves the cursor up to row 4 and
  \<open>ptyMoveCursorRight\<close> moves it left to column 4, where \<open>ptyMoveCursorUp\<close> and
  \<open>ptyMoveCursorLeft\<close> with the same amount stop at row, respectively column, 0.
\<close>

theorem ptyMoveCursorDown_overflow_example:
  "running (example\<lparr>cury := 5, cursorRow := 5\<rparr>)
   \<and> cursorRow (ptyMoveCursorDown 4294967295 (example\<lparr>cury := 5, cursorRow := 5\<rparr>)) = 4
   \<and> cursorRow (ptyMoveCursorUp 4294967295 (example\<lparr>cury := 5, cursorRow := 5\<rparr>)) = 0
   \<and> running (example\<lparr>curx := 5, cursorColumn := 5\<rparr>)
   \<and> cursorColumn (ptyMoveCursorRight 4294967295 (example\<lparr>curx := 5, cursorColumn := 5\<rparr>)) = 4
   \<and> cursorColumn (ptyMoveCursorLeft 4294967295 (example\<lparr>curx := 5, cursorColumn := 5\<rparr>)) = 0"
proof -
  let ?r = "example\<lparr>cury := 5, cursorRow := 5\<rparr>"
  let ?c = "example\<lparr>curx := 5, cursorColumn := 5\<rparr>"
  have r1: "running ?r" and r2: "running ?c"
    by (simp_all add: running_def screen_ok_def example_def)
  have ok1: "screen_ok ?r" and ok2: "screen_ok ?c"
    using r1 r2 by (simp_all add: running_def)
  have v: "cursorRow ?r = 5" "LINES ?r = 24" "cursorColumn ?c = 5" "COLS ?c = 80"
    by (simp_all add: example_def)
  have w: "u32 4294967300 = 4" by (simp add: u32_def)
  have 1: "cursorRow (ptyMoveCursorDown 4294967295 ?r) = 4"
    by (simp add: ptyMoveCursorDown_to [OF ok1] v w)
  have 2: "cursorRow (ptyMoveCursorUp 4294967295 ?r) = 0"
    by (simp add: ptyMoveCursorUp_clamps [OF ok1] v)
  have 3: "cursorColumn (ptyMoveCursorRight 4294967295 ?c) = 4"
    by (simp add: ptyMoveCursorRight_to [OF ok2] v w)
  have 4: "cursorColumn (ptyMoveCursorLeft 4294967295 ?c) = 0"
    by (simp add: ptyMoveCursorLeft_clamps [OF ok2] v)
  show ?thesis
    by (intro conjI) (fact r1 r2 1 2 3 4)+
qed

section \<open>Inserting a line on the bottom row of the scroll region\<close>

text \<open>
  With the cursor on the bottom row of the scroll region the region that
  \<open>ptyInsertLines\<close> narrows to has a single row. Curses refuses such a region and
  keeps the one it had, \<open>ptySetScrollRegion\<close> does not look at the outcome, and the
  scroll that follows moves the lines of the whole curses region while the module
  fills the cursor's row of the segment from the curses cell that is now in its first
  column: the cell that was above it.
\<close>

lemma screen_ok_bottom_row_example: "screen_ok bottom_row_example"
  by (simp add: screen_ok_def bottom_row_example_def numbered_example_def example_def)

lemma ptyInsertLines_bottom_row:
  "characters (ptyInsertLines (Suc 0) bottom_row_example)
     = (\<lambda>i. if 1840 \<le> i \<and> i < 1920
            then segmentCharacter bottom_row_example (wtext bottom_row_example 22 0)
            else characters bottom_row_example i)"
  "wtext (ptyInsertLines (Suc 0) bottom_row_example) 5 0 = wtext bottom_row_example 4 0"
  "screenWidth (ptyInsertLines (Suc 0) bottom_row_example) = 80"
proof -
  let ?st = "bottom_row_example"
  define s1 where "s1 = ptySetScrollRegion 23 23 ?st"
  define sc where "sc = scrl (- 1) s1"
  have v: "cursorRow ?st = 23" "scrollRegionTop ?st = 0" "scrollRegionBottom ?st = 23"
    "LINES ?st = 24" "COLS ?st = 80" "regtop ?st = 0" "regbottom ?st = 23" "wscroll ?st"
    "screenWidth ?st = 80"
    by (simp_all add: bottom_row_example_def numbered_example_def example_def)
  have within: "ptyAmWithinScrollRegion ?st"
    by (simp add: ptyAmWithinScrollRegion_def isWithinScrollRegion_def v)
  have s1: "s1 = ?st\<lparr>scrollRegionTop := 23, scrollRegionBottom := 23\<rparr>"
    by (simp add: s1_def ptySetScrollRegion_def setscrreg_def v)
  have ok1: "screen_ok s1"
    unfolding s1_def using screen_ok_bottom_row_example by (rule screen_ok_ptySetScrollRegion)
  have fsc: "screen_frame s1 sc" unfolding sc_def by (rule frame_scrl)
  have oksc: "screen_ok sc" using fsc ok1 by (rule screen_ok_frame)
  have g: "LINES sc = 24" "COLS sc = 80" "characters sc = characters ?st" "screenWidth sc = 80"
    by (simp_all add: sc_def scrl_def s1 v)
  have wsc: "wtext sc 23 0 = wtext ?st 22 0" "wtext sc 5 0 = wtext ?st 4 0"
    by (simp_all add: sc_def scrl_def s1 v)
  have q: "u32 (Suc 23) = 24" "usub 24 23 = Suc 0" "usub 0 (Suc 0) = 4294967295"
    "to_int 4294967295 = - 1" "usub (Suc 0) (Suc 0) = 0" "u32 80 = 80"
    by (simp_all add: u32_def usub_def to_int_def)
  have sb: "ptyScrollBackward (Suc 0) s1 = fillCharacters 23 0 80 sc"
    by (simp add: ptyScrollBackward_def Let_def s1 v q moveRows_def fillRows_def
        sc_def [unfolded s1, symmetric] g)
  have r: "(23::nat) < LINES sc" and c: "(0::nat) < 80" and pos: "(0::nat) < 80"
    and dst: "23 * 80 + 0 + 80 \<le> LINES sc * 80"
    by (simp_all add: g)
  note fc = fillCharacters_inside [OF oksc g(2) r c pos dst]
  have sg: "segmentCharacter sc (wtext sc 23 0) = segmentCharacter ?st (wtext ?st 22 0)"
  proof -
    have "segmentCharacter sc w = segmentCharacter ?st w" for w
      by (simp add: segmentCharacter_def pairColors_def pair_content_def sc_def scrl_def s1 v)
    then show ?thesis by (simp add: wsc)
  qed
  have il: "ptyInsertLines (Suc 0) ?st = ptySetScrollRegion 0 23 (fillCharacters 23 0 80 sc)"
    using within by (simp add: ptyInsertLines_def Let_def v s1_def [symmetric] sb)
  have ff: "screen_frame sc (fillCharacters 23 0 80 sc)"
    using oksc by (rule frame_fillCharacters)
  have lf: "LINES (fillCharacters 23 0 80 sc) = 24" "screenWidth (fillCharacters 23 0 80 sc) = 80"
    using ff by (simp_all add: screen_frame_fields g)
  note ch = fc(1) [unfolded sg g(3)]
  show "characters (ptyInsertLines (Suc 0) ?st)
     = (\<lambda>i. if 1840 \<le> i \<and> i < 1920
            then segmentCharacter ?st (wtext ?st 22 0) else characters ?st i)"
    using ch by (simp add: il ptySetScrollRegion_def setscrreg_def lf)
  show "wtext (ptyInsertLines (Suc 0) ?st) 5 0 = wtext ?st 4 0"
    by (simp add: il ptySetScrollRegion_def setscrreg_def lf fc(3) wsc)
  show "screenWidth (ptyInsertLines (Suc 0) ?st) = 80"
    by (simp add: il ptySetScrollRegion_def setscrreg_def lf)
qed

text \<open>
  C5 with the cursor on the bottom row of the scroll region. In the numbered example
  with the cursor on row 23, the bottom row of the region, \<open>ptyInsertLines 1\<close> leaves in
  the cursor's row of the segment copies of the cell that was at column 0 of row 22,
  not the blank cell, and the curses lines above the cursor's row have moved down by
  one.
\<close>

theorem ptyInsertLines_bottom_row_example:
  "screen_ok bottom_row_example \<and> region_ok bottom_row_example
   \<and> ptyAmWithinScrollRegion bottom_row_example
   \<and> cursorRow bottom_row_example = scrollRegionBottom bottom_row_example
   \<and> ctext (blank_character bottom_row_example) = 32
   \<and> ctext (segment_cell bottom_row_example 22 0) = 1760
   \<and> ctext (segment_cell (ptyInsertLines 1 bottom_row_example) 23 5) = 1760
   \<and> wtext (ptyInsertLines 1 bottom_row_example) 5 0 = wtext bottom_row_example 4 0"
proof -
  have 1: "region_ok bottom_row_example" "ptyAmWithinScrollRegion bottom_row_example"
    "cursorRow bottom_row_example = scrollRegionBottom bottom_row_example"
    by (simp_all add: region_ok_def ptyAmWithinScrollRegion_def isWithinScrollRegion_def
        bottom_row_example_def numbered_example_def example_def)
  have 2: "ctext (blank_character bottom_row_example) = 32"
    by (simp add: blank_character_def segmentCharacter_def Let_def bottom_row_example_def
        numbered_example_def example_def blank_cell_def)
  have 3: "ctext (segment_cell bottom_row_example 22 0) = 1760"
    by (simp add: segment_cell_def getScreenCharacter_def getScreenRow_def
        bottom_row_example_def numbered_example_def example_def)
  have "ctext (segment_cell (ptyInsertLines 1 bottom_row_example) 23 5)
          = chars0 (wtext bottom_row_example 22 0)"
    using ptyInsertLines_bottom_row(1,3)
    by (simp add: segment_cell_def getScreenCharacter_def getScreenRow_def
        segmentCharacter_def Let_def)
  then have 4: "ctext (segment_cell (ptyInsertLines 1 bottom_row_example) 23 5) = 1760"
    by (simp add: bottom_row_example_def numbered_example_def example_def)
  have 5: "wtext (ptyInsertLines 1 bottom_row_example) 5 0 = wtext bottom_row_example 4 0"
    using ptyInsertLines_bottom_row(2) by simp
  show ?thesis
    by (intro conjI) (fact screen_ok_bottom_row_example 1 2 3 4 5)+
qed

section \<open>A scroll forward and back by any count\<close>





section \<open>Clearing to the beginning of the line from the last column\<close>

text \<open>
  \<open>ptyClearToBeginningOfLine\<close> adds blanks until the cursor column is greater than
  the column it was called at. Called in the last column it does not return, as the
  cursor column of a running session is never greater than that.
\<close>

lemma COLS_ptyAddCharacter:
  assumes "running s"
  shows "COLS (ptyAddCharacter character s) = COLS s"
proof -
  let ?s1 = "storeCursorPosition (addch character s)"
  have "window_ok s" using assms by (simp add: running_def screen_ok_def window_ok_def)
  then have "window_kept s (addch character s)" by (rule window_kept_addch)
  then have c: "COLS ?s1 = COLS s" by (simp add: window_kept_def storeCursorPosition_def)
  have "running ?s1" using assms by (rule running_addch)
  then have "screen_ok ?s1" by (simp add: running_def)
  then have "screen_frame ?s1 (snd (setCharacter (cursorRow s) (cursorColumn s) ?s1))"
    by (rule frame_setCharacter)
  then show ?thesis using c by (simp add: ptyAddCharacter_def Let_def screen_frame_fields)
qed

lemma clearLoop_last_column:
  assumes "clearLoop column s = Some s'"
  shows "\<not> (running s \<and> COLS s \<le> Suc column)"
  using assms
proof (rule clearLoop.raw_induct [rotated,
      where P = "\<lambda>column s s'. \<not> (running s \<and> COLS s \<le> Suc column)"], goal_cases)
  case (1 f column s s')
  show ?case
  proof
    assume a: "running s \<and> COLS s \<le> Suc column"
    then have r1: "running (ptyAddCharacter 32 s)" by (simp add: running_ptyAddCharacter)
    have c1: "COLS (ptyAddCharacter 32 s) = COLS s" using a by (simp add: COLS_ptyAddCharacter)
    have "cursorColumn (ptyAddCharacter 32 s) < COLS (ptyAddCharacter 32 s)"
      using r1 by (simp add: running_def screen_ok_def)
    then have "\<not> column < cursorColumn (ptyAddCharacter 32 s)" using a c1 by simp
    then have "f column (ptyAddCharacter 32 s) = Some s'"
      using 1(2) by (simp add: Let_def)
    then have "\<not> (running (ptyAddCharacter 32 s) \<and> COLS (ptyAddCharacter 32 s) \<le> Suc column)"
      by (rule 1(1))
    then show False using r1 c1 a by simp
  qed
qed

lemma ptyClearToBeginningOfLine_last_column:
  assumes r: "running s" and last: "Suc (cursorColumn s) = COLS s"
  shows "ptyClearToBeginningOfLine s = None"
proof -
  define s1 where "s1 = (if cursorColumn s > 0 then ptySetCursorColumn 0 s else s)"
  have r1: "running s1"
    using r by (simp add: s1_def ptySetCursorColumn_def running_ptySetCursorPosition)
  have ok: "screen_ok s" using r by (simp add: running_def)
  have c1: "COLS s1 = COLS s"
    using ok by (simp add: s1_def ptySetCursorColumn_inside screen_ok_def)
  have "clearLoop (cursorColumn s) s1 = None"
  proof (cases "clearLoop (cursorColumn s) s1")
    case None
    then show ?thesis .
  next
    case (Some s')
    then have "\<not> (running s1 \<and> COLS s1 \<le> Suc (cursorColumn s))"
      by (rule clearLoop_last_column)
    then show ?thesis using r1 c1 last by simp
  qed
  then show ?thesis by (simp add: ptyClearToBeginningOfLine_def Let_def s1_def)
qed

lemma ptyClearToBeginningOfLine_last_column_example:
  "running (example\<lparr>curx := 79, cursorColumn := 79\<rparr>)
   \<and> engine_step ClearToBeginningOfLine (example\<lparr>curx := 79, cursorColumn := 79\<rparr>) = None"
proof -
  have r: "running (example\<lparr>curx := 79, cursorColumn := 79\<rparr>)"
    by (simp add: running_def screen_ok_def example_def)
  have "Suc (cursorColumn (example\<lparr>curx := 79, cursorColumn := 79\<rparr>))
          = COLS (example\<lparr>curx := 79, cursorColumn := 79\<rparr>)"
    by (simp add: example_def)
  with r have "ptyClearToBeginningOfLine (example\<lparr>curx := 79, cursorColumn := 79\<rparr>) = None"
    by (rule ptyClearToBeginningOfLine_last_column)
  then show ?thesis using r by simp
qed

section \<open>Lines inserted and deleted above the bottom row of the region\<close>

text \<open>
  With the cursor inside the scroll region and above its bottom row, curses accepts
  the narrowed region, and \<open>ptyInsertLines\<close> and \<open>ptyDeleteLines\<close> leave in the
  segment what a scroll of the rows from the cursor's row to the bottom of the region
  leaves: the rows moved by the count, limited to the number of these rows, blank
  rows where the lines were inserted, respectively at the bottom, and every other
  row as it was.
\<close>

lemma narrowed_region:
  assumes ok: "screen_ok s" and reg: "region_ok s" and within: "ptyAmWithinScrollRegion s"
    and above: "cursorRow s < scrollRegionBottom s"
  shows "screen_ok (ptySetScrollRegion (cursorRow s) (scrollRegionBottom s) s)"
    and "region_ok (ptySetScrollRegion (cursorRow s) (scrollRegionBottom s) s)"
    and "ptySetScrollRegion (cursorRow s) (scrollRegionBottom s) s
           = s\<lparr>scrollRegionTop := cursorRow s, regtop := cursorRow s\<rparr>"
proof -
  have b: "LINES s < 2147483648" using ok by (rule screen_ok_bounds)
  have r: "scrollRegionBottom s = regbottom s" "regbottom s < LINES s" "wscroll s"
    using reg by (simp_all add: region_ok_def)
  have c: "cursorRow s < LINES s" using above r by linarith
  show eq: "ptySetScrollRegion (cursorRow s) (scrollRegionBottom s) s
           = s\<lparr>scrollRegionTop := cursorRow s, regtop := cursorRow s\<rparr>"
    using above r b c
    by (intro pty.equality) (simp_all add: ptySetScrollRegion_def setscrreg_def)
  show "screen_ok (ptySetScrollRegion (cursorRow s) (scrollRegionBottom s) s)"
    using ok by (rule screen_ok_ptySetScrollRegion)
  have "region_ok (s\<lparr>scrollRegionTop := cursorRow s, regtop := cursorRow s\<rparr>)"
    using above r by (simp add: region_ok_def)
  then show "region_ok (ptySetScrollRegion (cursorRow s) (scrollRegionBottom s) s)"
    by (simp only: eq)
qed

lemma ptyInsertLines_cells:
  assumes ok: "screen_ok s" and reg: "region_ok s" and within: "ptyAmWithinScrollRegion s"
    and above: "cursorRow s < scrollRegionBottom s" and c1: "1 \<le> count"
    and row: "row < LINES s" and col: "column < COLS s"
    and n: "n = min count (scrollRegionBottom s + 1 - cursorRow s)"
  shows "segment_cell (ptyInsertLines count s) row column
           = (if cursorRow s + n \<le> row \<and> row \<le> scrollRegionBottom s
              then segment_cell s (row - n) column
              else if cursorRow s \<le> row \<and> row \<le> scrollRegionBottom s
              then blank_character s
              else segment_cell s row column)"
proof -
  let ?s1 = "ptySetScrollRegion (cursorRow s) (scrollRegionBottom s) s"
  note nr = narrowed_region [OF ok reg within above]
  have f: "LINES ?s1 = LINES s" "COLS ?s1 = COLS s" "scrollRegionTop ?s1 = cursorRow s"
    "scrollRegionBottom ?s1 = scrollRegionBottom s" "blank_character ?s1 = blank_character s"
    "segment_cell ?s1 r c = segment_cell s r c" "scroll_count ?s1 count = n" for r c
    by (simp_all add: nr(3) n blank_character_def segmentCharacter_def pairColors_def
        pair_content_def segment_cell_def getScreenCharacter_def getScreenRow_def scroll_count_def)
  have row1: "row < LINES ?s1" and col1: "column < COLS ?s1" using row col by (simp_all add: f)
  note cells = ptyScrollBackward_cells(1) [OF nr(1) nr(2) c1 row1 col1, unfolded f]
  have "ptyInsertLines count s
          = ptySetScrollRegion (scrollRegionTop s) (scrollRegionBottom s)
              (ptyScrollBackward count ?s1)"
    using within by (simp add: ptyInsertLines_def Let_def)
  then have "segment_cell (ptyInsertLines count s) row column
               = segment_cell (ptyScrollBackward count ?s1) row column"
    by (simp add: segment_cell_def getScreenCharacter_def getScreenRow_def
        ptySetScrollRegion_def setscrreg_def)
  then show ?thesis by (simp only: cells)
qed

lemma ptyDeleteLines_cells:
  assumes ok: "screen_ok s" and reg: "region_ok s" and within: "ptyAmWithinScrollRegion s"
    and above: "cursorRow s < scrollRegionBottom s" and c1: "1 \<le> count"
    and row: "row < LINES s" and col: "column < COLS s"
    and n: "n = min count (scrollRegionBottom s + 1 - cursorRow s)"
  shows "segment_cell (ptyDeleteLines count s) row column
           = (if cursorRow s \<le> row \<and> row + n \<le> scrollRegionBottom s
              then segment_cell s (row + n) column
              else if cursorRow s \<le> row \<and> row \<le> scrollRegionBottom s
              then blank_character s
              else segment_cell s row column)"
proof -
  let ?s1 = "ptySetScrollRegion (cursorRow s) (scrollRegionBottom s) s"
  note nr = narrowed_region [OF ok reg within above]
  have f: "LINES ?s1 = LINES s" "COLS ?s1 = COLS s" "scrollRegionTop ?s1 = cursorRow s"
    "scrollRegionBottom ?s1 = scrollRegionBottom s" "blank_character ?s1 = blank_character s"
    "segment_cell ?s1 r c = segment_cell s r c" "scroll_count ?s1 count = n" for r c
    by (simp_all add: nr(3) n blank_character_def segmentCharacter_def pairColors_def
        pair_content_def segment_cell_def getScreenCharacter_def getScreenRow_def scroll_count_def)
  have row1: "row < LINES ?s1" and col1: "column < COLS ?s1" using row col by (simp_all add: f)
  note cells = ptyScrollForward_cells(1) [OF nr(1) nr(2) c1 row1 col1, unfolded f]
  have "ptyDeleteLines count s
          = ptySetScrollRegion (scrollRegionTop s) (scrollRegionBottom s)
              (ptyScrollForward count ?s1)"
    using within by (simp add: ptyDeleteLines_def Let_def)
  then have "segment_cell (ptyDeleteLines count s) row column
               = segment_cell (ptyScrollForward count ?s1) row column"
    by (simp add: segment_cell_def getScreenCharacter_def getScreenRow_def
        ptySetScrollRegion_def setscrreg_def)
  then show ?thesis by (simp only: cells)
qed

section \<open>Bytes that are no printable character\<close>

lemma waddch_store_inside:
  "Suc (curx s) < COLS s \<Longrightarrow>
   waddch_store c s
     = (True, s\<lparr>wtext := (\<lambda>y x. if y = cury s \<and> x = curx s then c else wtext s y x),
                 curx := Suc (curx s)\<rparr>)"
  by (simp add: waddch_store_def Let_def)

lemma tab_blanks_inside:
  "x < COLS s \<Longrightarrow> curx s + n = x \<Longrightarrow>
   fst (tab_blanks n x s) = x \<and> cury (snd (tab_blanks n x s)) = cury s"
proof (induction n arbitrary: s)
  case 0
  then show ?case by simp
next
  case (Suc n)
  let ?s1 = "s\<lparr>wtext := (\<lambda>y x. if y = cury s \<and> x = curx s then render s 0x20 else wtext s y x),
                 curx := Suc (curx s)\<rparr>"
  have lt: "curx s < x" "Suc (curx s) < COLS s" using Suc.prems by simp_all
  have st: "waddch_store (render s 0x20) s = (True, ?s1)"
    using lt(2) by (rule waddch_store_inside)
  have "fst (tab_blanks n x ?s1) = x \<and> cury (snd (tab_blanks n x ?s1)) = cury ?s1"
    using Suc.prems by (intro Suc.IH) simp_all
  then show ?case using lt by (simp add: st)
qed

lemma ex_v: "LINES example = 24" "COLS example = 80" "TABSIZE example = 8" "wscroll example"
  "cury example = 0" "curx example = 0" "regtop example = 0" "regbottom example = 23"
  "addch_work example = []" "mbrtowc example = utf8" "wattrs example = 0"
  "screenWidth example = 80"
  by (simp_all add: example_def)

lemma ex_tab: "curx (addch 0x09 example) = 8 \<and> cury (addch 0x09 example) = 0"
proof -
  have "fst (tab_blanks 8 8 example) = 8 \<and> cury (snd (tab_blanks 8 8 example)) = cury example"
    by (rule tab_blanks_inside) (simp_all add: ex_v)
  then show ?thesis
    by (simp add: addch_def waddch_tab_def Let_def ex_v)
qed

lemma utf8_examples:
  "utf8 [0xC3] = Incomplete" "utf8 [0xC3, 0xA9] = Complete 0xE9" "utf8 [0xA9] = Illegal"
  by (simp_all add: continuation_def payload_def)

lemma unctrl_examples: "unctrl 0x07 = [0x5E, 0x47]" "unctrl 0xA9 = [0x4D, 0x2D, 0x29]"
  by (simp_all add: unctrl_def)

text \<open>What \<open>addch\<close> leaves unchanged.\<close>

lemma addch_frameI:
  "s' = s\<lparr>wtext := a, cury := b, curx := c, addch_work := d, addch_y := e, addch_x := f,
          fault := g\<rparr> \<Longrightarrow> addch_frame s s'"
  by (simp add: addch_frame_def)

lemma addch_frame_refl: "addch_frame s s"
  by (simp add: addch_frame_def)

lemma addch_frame_trans:
  assumes "addch_frame s s1" and "addch_frame s1 s2"
  shows "addch_frame s s2"
proof -
  have 1: "s1 = s\<lparr>wtext := wtext s1, cury := cury s1, curx := curx s1,
            addch_work := addch_work s1, addch_y := addch_y s1, addch_x := addch_x s1,
            fault := fault s1\<rparr>"
    using assms(1) by (simp add: addch_frame_def)
  have 2: "s2 = s1\<lparr>wtext := wtext s2, cury := cury s2, curx := curx s2,
            addch_work := addch_work s2, addch_y := addch_y s2, addch_x := addch_x s2,
            fault := fault s2\<rparr>"
    using assms(2) by (simp add: addch_frame_def)
  show ?thesis
    by (rule addch_frameI [where a = "wtext s2" and b = "cury s2" and c = "curx s2"
          and d = "addch_work s2" and e = "addch_y s2" and f = "addch_x s2" and g = "fault s2"])
      (subst 2, subst 1, simp)
qed

lemma addch_frame_fields:
  assumes "addch_frame s s'"
  shows "characters s' = characters s" "pairs s' = pairs s" "coloron s' = coloron s"
    "COLOR_PAIRS s' = COLOR_PAIRS s" "indeterminate_foreground s' = indeterminate_foreground s"
    "indeterminate_background s' = indeterminate_background s"
    "SCREEN_SEGMENT_COLOR_LEVEL s' = SCREEN_SEGMENT_COLOR_LEVEL s"
    "cursorRow s' = cursorRow s" "cursorColumn s' = cursorColumn s"
    "wattrs s' = wattrs s" "mbrtowc s' = mbrtowc s" "events s' = events s"
    "scrollRegionTop s' = scrollRegionTop s" "scrollRegionBottom s' = scrollRegionBottom s"
    "regtop s' = regtop s" "TABSIZE s' = TABSIZE s"
proof -
  have 1: "s' = s\<lparr>wtext := wtext s', cury := cury s', curx := curx s',
            addch_work := addch_work s', addch_y := addch_y s', addch_x := addch_x s',
            fault := fault s'\<rparr>"
    using assms by (simp add: addch_frame_def)
  show "characters s' = characters s" "pairs s' = pairs s" "coloron s' = coloron s"
    "COLOR_PAIRS s' = COLOR_PAIRS s" "indeterminate_foreground s' = indeterminate_foreground s"
    "indeterminate_background s' = indeterminate_background s"
    "SCREEN_SEGMENT_COLOR_LEVEL s' = SCREEN_SEGMENT_COLOR_LEVEL s"
    "cursorRow s' = cursorRow s" "cursorColumn s' = cursorColumn s"
    "wattrs s' = wattrs s" "mbrtowc s' = mbrtowc s" "events s' = events s"
    "scrollRegionTop s' = scrollRegionTop s" "scrollRegionBottom s' = scrollRegionBottom s"
    "regtop s' = regtop s" "TABSIZE s' = TABSIZE s"
    by (subst 1, simp)+
qed

lemma addch_frame_scrl: "addch_frame s (scrl n s)"
  by (simp add: scrl_def addch_frame_def)

lemma addch_frame_wrap_to_next_line: "addch_frame s (snd (wrap_to_next_line s))"
  by (simp add: wrap_to_next_line_def scrl_def addch_frame_def)

lemma addch_frame_waddch_store: "addch_frame s (snd (waddch_store c s))"
  by (simp add: waddch_store_def Let_def wrap_to_next_line_def scrl_def addch_frame_def)

lemma addch_frame_waddch_string: "addch_frame s (snd (waddch_string cs s))"
proof (induction cs arbitrary: s)
  case Nil
  show ?case by (simp add: addch_frame_refl)
next
  case (Cons c cs)
  have "addch_frame s (snd (waddch_string cs (snd (waddch_store (render s c) s))))"
    using addch_frame_waddch_store Cons.IH by (rule addch_frame_trans)
  then show ?case by (simp add: addch_frame_waddch_store)
qed

lemma addch_frame_waddch_literal: "addch_frame s (snd (waddch_literal ch s))"
proof -
  have k: "addch_frame s (s\<lparr>addch_x := curx s, addch_y := cury s, addch_work := w\<rparr>)" for w
    by (simp add: addch_frame_def)
  have a: "addch_frame s (snd (waddch_store c
             (s\<lparr>addch_x := curx s, addch_y := cury s, addch_work := []\<rparr>)))" for c
    using k addch_frame_waddch_store by (rule addch_frame_trans)
  have b: "addch_frame s (snd (waddch_string cs
             (s\<lparr>addch_x := curx s, addch_y := cury s, addch_work := []\<rparr>)))" for cs
    using k addch_frame_waddch_string by (rule addch_frame_trans)
  show ?thesis
    by (simp add: waddch_literal_def Let_def a b k addch_frame_waddch_store
        split: mbresult.split)
qed

lemma addch_frame_tab_blanks: "addch_frame s (snd (tab_blanks n x s))"
proof (induction n arbitrary: s)
  case 0
  show ?case by (simp add: addch_frame_refl)
next
  case (Suc n)
  have "addch_frame s (snd (tab_blanks n x (snd (waddch_store (render s 0x20) s))))"
    using addch_frame_waddch_store Suc.IH by (rule addch_frame_trans)
  then show ?case by (simp add: addch_frame_waddch_store addch_frame_refl)
qed

lemma addch_frame_cursor:
  assumes "addch_frame s s'"
  shows "addch_frame s (s'\<lparr>curx := x, cury := y\<rparr>)"
proof -
  have "addch_frame s' (s'\<lparr>curx := x, cury := y\<rparr>)" by (simp add: addch_frame_def)
  with assms show ?thesis by (rule addch_frame_trans)
qed

lemma addch_frame_waddch_newline: "addch_frame s (waddch_newline s)"
proof -
  have c: "addch_frame s (clrtoeol s)" by (simp add: clrtoeol_def addch_frame_def)
  have "addch_frame s (scrl 1 (clrtoeol s))"
    using c addch_frame_scrl by (rule addch_frame_trans)
  then show ?thesis
    by (simp add: waddch_newline_def Let_def c addch_frame_cursor)
qed

lemma addch_frame_waddch_tab: "addch_frame s (waddch_tab s)"
proof -
  have c: "addch_frame s (clrtoeol s)" by (simp add: clrtoeol_def addch_frame_def)
  have "addch_frame s (scrl 1 (clrtoeol s))"
    using c addch_frame_scrl by (rule addch_frame_trans)
  moreover have "addch_frame s (s\<lparr>fault := True\<rparr>)" by (simp add: addch_frame_def)
  ultimately show ?thesis
    by (simp add: waddch_tab_def Let_def c addch_frame_cursor addch_frame_tab_blanks)
qed

lemma addch_frame_addch: "addch_frame s (addch ch s)"
proof -
  have "addch_frame s (s\<lparr>curx := x\<rparr>)" for x by (simp add: addch_frame_def)
  then show ?thesis
    by (simp add: addch_def addch_frame_waddch_literal addch_frame_waddch_tab
        addch_frame_waddch_newline addch_frame_waddch_string addch_frame_refl)
qed

text \<open>
  \<open>ptyAddCharacter\<close> mirrors one cell into the segment, the one the cursor was on
  before the call, whatever \<open>addch\<close> has stored.
\<close>

lemma ptyAddCharacter_mirrors:
  assumes r: "running s"
  shows "ptyAddCharacter character s
           = (storeCursorPosition (addch character s))
               \<lparr>characters := (characters s)(cursorRow s * COLS s + cursorColumn s
                  := segmentCharacter s (wtext (addch character s) (cursorRow s) (cursorColumn s)))\<rparr>"
proof -
  let ?a = "addch character s"
  let ?s1 = "storeCursorPosition ?a"
  have w: "window_ok s" using r by (simp add: running_def screen_ok_def window_ok_def)
  have k: "window_kept s ?a" using w by (rule window_kept_addch)
  have g: "LINES ?s1 = LINES s" "COLS ?s1 = COLS s"
    using k by (simp_all add: window_kept_def storeCursorPosition_def)
  have "running ?s1" using r by (rule running_addch)
  then have ok1: "screen_ok ?s1" by (simp add: running_def)
  have c: "cursorRow s < LINES ?s1" "cursorColumn s < COLS ?s1"
    using r by (simp_all add: g running_def screen_ok_def)
  have other: "characters ?a = characters s" "pairs ?a = pairs s" "coloron ?a = coloron s"
    "COLOR_PAIRS ?a = COLOR_PAIRS s" "indeterminate_foreground ?a = indeterminate_foreground s"
    "indeterminate_background ?a = indeterminate_background s"
    "SCREEN_SEGMENT_COLOR_LEVEL ?a = SCREEN_SEGMENT_COLOR_LEVEL s"
    by (rule addch_frame_fields [OF addch_frame_addch])+
  have sc: "segmentCharacter ?s1 x = segmentCharacter s x" for x
    by (simp add: segmentCharacter_def pairColors_def pair_content_def other
        storeCursorPosition_def)
  show ?thesis
    by (simp add: ptyAddCharacter_def Let_def setCharacter_inside(1) [OF ok1 c] g sc)
      (simp add: storeCursorPosition_def other)
qed

text \<open>
  In the example session: a tab moves the cursor to the next tab stop; the first byte
  of a character of two bytes stores nothing and the second stores the character; a
  control character without a meaning of its own is stored as two characters, of which
  only the first is mirrored into the segment.
\<close>

lemma running_example: "running example"
  by (simp add: running_def screen_ok_def example_def)

lemma ptyAddCharacter_tab_example:
  "cursorRow (ptyAddCharacter 0x09 example) = 0 \<and> cursorColumn (ptyAddCharacter 0x09 example) = 8"
  using ex_tab
  by (simp add: ptyAddCharacter_mirrors [OF running_example] storeCursorPosition_def
      getcury_def getcurx_def)

lemma ptyAddCharacter_lead_byte_example:
  "ptyAddCharacter 0xC3 example = example\<lparr>addch_x := 0, addch_y := 0, addch_work := [0xC3]\<rparr>"
proof -
  have a: "addch 0xC3 example = example\<lparr>addch_x := 0, addch_y := 0, addch_work := [0xC3]\<rparr>"
    by (simp add: addch_def waddch_literal_def Let_def ex_v utf8_examples)
  have "characters example 0 = segmentCharacter example (wtext example 0 0)"
    using mirrored_example [unfolded mirrored_def, rule_format, of 0 0]
    by (simp add: segment_cell_def getScreenCharacter_def getScreenRow_def ex_v)
  then have c: "(characters example)(0 := segmentCharacter example (wtext example 0 0))
                  = characters example"
    by (simp only: fun_upd_idem_iff)
  have v: "cursorRow example = 0" "cursorColumn example = 0" by (simp_all add: example_def)
  show ?thesis
    by (simp add: ptyAddCharacter_mirrors [OF running_example] a v c storeCursorPosition_def
        getcury_def getcurx_def)
      (simp add: example_def)
qed

lemma ptyAddCharacter_second_byte_example:
  "cursorColumn (ptyAddCharacter 0xA9 (ptyAddCharacter 0xC3 example)) = 1"
  "ctext (segment_cell (ptyAddCharacter 0xA9 (ptyAddCharacter 0xC3 example)) 0 0) = 0xE9"
  "addch_work (ptyAddCharacter 0xA9 (ptyAddCharacter 0xC3 example)) = []"
proof -
  let ?s1 = "example\<lparr>addch_x := 0, addch_y := 0, addch_work := [0xC3]\<rparr>"
  have r: "running ?s1" by (simp add: running_def screen_ok_def example_def)
  have v: "cursorRow ?s1 = 0" "cursorColumn ?s1 = 0" "COLS ?s1 = 80" "screenWidth ?s1 = 80"
    by (simp_all add: example_def)
  have a: "curx (addch 0xA9 ?s1) = 1" "cury (addch 0xA9 ?s1) = 0"
    "addch_work (addch 0xA9 ?s1) = []" "chars0 (wtext (addch 0xA9 ?s1) 0 0) = 0xE9"
    "screenWidth (addch 0xA9 ?s1) = 80"
    by (simp_all add: addch_def waddch_literal_def Let_def ex_v continuation_def payload_def
        waddch_store_def render_def)
  show "cursorColumn (ptyAddCharacter 0xA9 (ptyAddCharacter 0xC3 example)) = 1"
    "ctext (segment_cell (ptyAddCharacter 0xA9 (ptyAddCharacter 0xC3 example)) 0 0) = 0xE9"
    "addch_work (ptyAddCharacter 0xA9 (ptyAddCharacter 0xC3 example)) = []"
    by (simp_all add: ptyAddCharacter_lead_byte_example ptyAddCharacter_mirrors [OF r] v a
        storeCursorPosition_def getcury_def getcurx_def segment_cell_def
        getScreenCharacter_def getScreenRow_def segmentCharacter_def Let_def)
qed

lemma ptyAddCharacter_control_example:
  "cursorColumn (ptyAddCharacter 0x07 example) = 2"
  "chars0 (wtext (ptyAddCharacter 0x07 example) 0 0) = 0x5E"
  "chars0 (wtext (ptyAddCharacter 0x07 example) 0 1) = 0x47"
  "ctext (segment_cell (ptyAddCharacter 0x07 example) 0 0) = 0x5E"
  "ctext (segment_cell (ptyAddCharacter 0x07 example) 0 1) = 0x20"
proof -
  have v: "cursorRow example = 0" "cursorColumn example = 0" "COLS example = 80"
    "screenWidth example = 80" "ctext (characters example (Suc 0)) = 0x20"
    by (simp_all add: example_def)
  have a: "curx (addch 0x07 example) = 2" "cury (addch 0x07 example) = 0"
    "chars0 (wtext (addch 0x07 example) 0 0) = 0x5E"
    "chars0 (wtext (addch 0x07 example) 0 (Suc 0)) = 0x47"
    "screenWidth (addch 0x07 example) = 80"
    by (simp_all add: addch_def unctrl_examples waddch_store_def Let_def ex_v render_def)
  show "cursorColumn (ptyAddCharacter 0x07 example) = 2"
    "chars0 (wtext (ptyAddCharacter 0x07 example) 0 0) = 0x5E"
    "chars0 (wtext (ptyAddCharacter 0x07 example) 0 1) = 0x47"
    "ctext (segment_cell (ptyAddCharacter 0x07 example) 0 0) = 0x5E"
    "ctext (segment_cell (ptyAddCharacter 0x07 example) 0 1) = 0x20"
    by (simp_all add: ptyAddCharacter_mirrors [OF running_example] v a
        storeCursorPosition_def getcury_def getcurx_def segment_cell_def
        getScreenCharacter_def getScreenRow_def segmentCharacter_def Let_def)
qed

end
